(* ===== verification/Curator_Prelude.thy ===== *)
theory Curator_Prelude
  imports Main "HOL-Library.AList" "HOL-Library.Char_ord" "HOL-Library.List_Lexorder"
begin

text \<open>
  What every component shares: Python exceptions as values, a dictionary in insertion order
  as an association list, and the named collections the component proofs feed to the
  simplifier.
\<close>

section \<open>Fact collections\<close>

named_theorems dict_simps \<open>lookup and update of Python dictionaries\<close>
named_theorems float_simps \<open>evaluation of binary64 arithmetic\<close>
named_theorems text_simps \<open>evaluation of the text functions on literals\<close>
named_theorems reg_simps \<open>unfolding of the registry operations\<close>

section \<open>Exceptions as values\<close>

text \<open>
  The exceptions the modelled code raises or catches. \<open>HTTPException\<close> carries the status code
  and the \<open>detail\<close> text.
\<close>

datatype exn =
    KeyError string
  | ValueError string
  | JSONDecodeError string
  | TypeError string
  | OverflowError string
  | ZeroDivisionError
  | AttributeError string
  | RuntimeError string
  | IntegrityError string
  | SkillExecutionError string
  | HTTPException nat string

type_synonym 'a res = "exn + 'a"

definition res_bind :: "'a res \<Rightarrow> ('a \<Rightarrow> 'b res) \<Rightarrow> 'b res" where
  "res_bind r f = (case r of Inl e \<Rightarrow> Inl e | Inr x \<Rightarrow> f x)"

lemma res_bind_simps [simp]:
  "res_bind (Inl e) f = Inl e"
  "res_bind (Inr x) f = f x"
  by (simp_all add: res_bind_def)

lemma res_bind_eq_Inr [simp]:
  "res_bind r f = Inr y \<longleftrightarrow> (\<exists>x. r = Inr x \<and> f x = Inr y)"
  by (cases r) simp_all

lemma res_bind_eq_Inl:
  "res_bind r f = Inl e \<longleftrightarrow> r = Inl e \<or> (\<exists>x. r = Inr x \<and> f x = Inl e)"
  by (cases r) simp_all

section \<open>Lists of results\<close>

text \<open>A list comprehension over calls that may raise: the first exception ends it.\<close>

fun res_all :: "'a res list \<Rightarrow> 'a list res" where
  "res_all [] = Inr []"
| "res_all (r # rs) = res_bind r (\<lambda>x. res_bind (res_all rs) (\<lambda>xs. Inr (x # xs)))"

lemma res_all_Inr: "res_all rs = Inr xs \<longleftrightarrow> rs = map Inr xs"
  by (induction rs arbitrary: xs) (auto simp: Cons_eq_map_conv)

lemma res_all_Inl: "res_all rs = Inl e \<Longrightarrow> Inl e \<in> set rs"
  by (induction rs) (auto simp: res_bind_eq_Inl)

definition res_map :: "('a \<Rightarrow> 'b) \<Rightarrow> 'a res \<Rightarrow> 'b res" where
  "res_map f r = res_bind r (\<lambda>x. Inr (f x))"

lemma res_map_simps [simp]:
  "res_map f (Inl e) = Inl e"
  "res_map f (Inr x) = Inr (f x)"
  by (simp_all add: res_map_def)

lemma res_map_eq_Inr: "res_map f r = Inr y \<longleftrightarrow> (\<exists>x. r = Inr x \<and> y = f x)"
  by (cases r) auto

section \<open>Dictionaries\<close>

text \<open>
  A Python dictionary keeps its keys in insertion order; assigning an existing key keeps its
  position. An association list with distinct keys and \<open>AList.update\<close> has exactly this
  behaviour. \<open>dget\<close> is \<open>d.get(k)\<close>, \<open>dset\<close> is \<open>d[k] = v\<close>, \<open>dmerge\<close> is \<open>{**d, **e}\<close>,
  \<open>dsetdefault\<close> is \<open>d.setdefault(k, v)\<close>.
\<close>

type_synonym ('k, 'v) pydict = "('k \<times> 'v) list"

definition dget :: "('k, 'v) pydict \<Rightarrow> 'k \<Rightarrow> 'v option" where
  "dget d k = map_of d k"

definition dset :: "'k \<Rightarrow> 'v \<Rightarrow> ('k, 'v) pydict \<Rightarrow> ('k, 'v) pydict" where
  "dset k v d = AList.update k v d"

definition dhas :: "('k, 'v) pydict \<Rightarrow> 'k \<Rightarrow> bool" where
  "dhas d k \<longleftrightarrow> k \<in> set (map fst d)"

definition dkeys :: "('k, 'v) pydict \<Rightarrow> 'k list" where
  "dkeys d = map fst d"

definition dmerge :: "('k, 'v) pydict \<Rightarrow> ('k, 'v) pydict \<Rightarrow> ('k, 'v) pydict" where
  "dmerge d e = fold (\<lambda>(k, v). dset k v) e d"

definition dsetdefault :: "'k \<Rightarrow> 'v \<Rightarrow> ('k, 'v) pydict \<Rightarrow> ('k, 'v) pydict" where
  "dsetdefault k v d = (if dhas d k then d else dset k v d)"

definition wf_dict :: "('k, 'v) pydict \<Rightarrow> bool" where
  "wf_dict d \<longleftrightarrow> distinct (map fst d)"

lemma dget_Nil [simp]: "dget [] k = None"
  by (simp add: dget_def)

lemma dget_Cons [dict_simps]: "dget ((k', v) # d) k = (if k' = k then Some v else dget d k)"
  by (auto simp: dget_def)

lemma dget_dset [simp]: "dget (dset k v d) k' = (if k = k' then Some v else dget d k')"
  by (auto simp: dget_def dset_def update_conv)

lemma dset_simps [dict_simps]:
  "dset k v [] = [(k, v)]"
  "dset k v ((k', v') # d) = (if k' = k then (k, v) # d else (k', v') # dset k v d)"
  by (simp_all add: dset_def)

lemma dhas_dget: "dhas d k \<longleftrightarrow> dget d k \<noteq> None"
  by (auto simp: dhas_def dget_def map_of_eq_None_iff)

lemma dhas_Cons [dict_simps]: "dhas ((k', v) # d) k \<longleftrightarrow> k' = k \<or> dhas d k"
  by (auto simp: dhas_def)

lemma dhas_Nil [simp]: "\<not> dhas [] k"
  by (simp add: dhas_def)

lemma wf_dict_Nil [simp]: "wf_dict []"
  by (simp add: wf_dict_def)

lemma wf_dset [simp, intro]: "wf_dict d \<Longrightarrow> wf_dict (dset k v d)"
  by (simp add: wf_dict_def dset_def distinct_update)

lemma wf_dmerge [simp, intro]: "wf_dict d \<Longrightarrow> wf_dict (dmerge d e)"
  unfolding dmerge_def by (induction e arbitrary: d) auto

lemma wf_dsetdefault [simp, intro]: "wf_dict d \<Longrightarrow> wf_dict (dsetdefault k v d)"
  by (simp add: dsetdefault_def)

lemma dget_dsetdefault:
  "dget (dsetdefault k v d) k' =
     (if k = k' \<and> dget d k = None then Some v else dget d k')"
  by (auto simp: dsetdefault_def dhas_dget)

lemma dmerge_simps [dict_simps]:
  "dmerge d [] = d"
  "dmerge d ((k, v) # e) = dmerge (dset k v d) e"
  by (simp_all add: dmerge_def)

lemma dget_dmerge:
  "wf_dict e \<Longrightarrow> dget (dmerge d e) k = (case dget e k of Some v \<Rightarrow> Some v | None \<Rightarrow> dget d k)"
proof (induction e arbitrary: d)
  case Nil
  then show ?case by (simp add: dict_simps)
next
  case (Cons kv e)
  obtain k' v where kv: "kv = (k', v)" by (cases kv)
  with Cons.prems have wf: "wf_dict e" and k': "dget e k' = None"
    by (auto simp: wf_dict_def dget_def map_of_eq_None_iff)
  from Cons.IH [OF wf] k' show ?case
    by (auto simp: kv dict_simps split: option.split)
qed

section \<open>Optional strings\<close>

text \<open>\<open>x or y\<close> for an optional string: \<open>None\<close> and the empty string are false.\<close>

definition str_true :: "string option \<Rightarrow> bool" where
  "str_true x \<longleftrightarrow> x \<noteq> None \<and> x \<noteq> Some []"

definition str_or :: "string option \<Rightarrow> string \<Rightarrow> string" where
  "str_or x y = (case x of Some s \<Rightarrow> if s = [] then y else s | None \<Rightarrow> y)"

definition opt_or :: "string option \<Rightarrow> string option \<Rightarrow> string option" where
  "opt_or x y = (if str_true x then x else y)"

lemma str_or_nonempty: "y \<noteq> [] \<Longrightarrow> str_or x y \<noteq> []"
  by (simp add: str_or_def split: option.split)

section \<open>Invariants of state machines\<close>

text \<open>
  Several components are a state changed by operations; what every operation keeps holds after
  any sequence of them.
\<close>

locale invariant_machine =
  fixes step :: "'s \<Rightarrow> 's \<Rightarrow> bool"
    and inv :: "'s \<Rightarrow> bool"
  assumes step_inv: "step s t \<Longrightarrow> inv s \<Longrightarrow> inv t"
begin

lemma run_inv: "step\<^sup>*\<^sup>* s t \<Longrightarrow> inv s \<Longrightarrow> inv t"
  by (induction rule: rtranclp_induct) (auto intro: step_inv)

end

text \<open>A preorder that every step from a good state respects is respected by every run.\<close>

locale monotone_machine = invariant_machine step inv
  for step :: "'s \<Rightarrow> 's \<Rightarrow> bool" and inv :: "'s \<Rightarrow> bool" +
  fixes le :: "'s \<Rightarrow> 's \<Rightarrow> bool"
  assumes step_le: "step s t \<Longrightarrow> inv s \<Longrightarrow> le s t"
    and le_refl: "le s s"
    and le_trans: "le s t \<Longrightarrow> le t u \<Longrightarrow> le s u"
begin

lemma run_le: "step\<^sup>*\<^sup>* s t \<Longrightarrow> inv s \<Longrightarrow> le s t"
  by (induction rule: rtranclp_induct) (auto intro: step_le le_refl le_trans run_inv)

end

end
