(* ===== verification/Py_Float.thy ===== *)
theory Py_Float
  imports Complex_Main Curator_Prelude
begin

text \<open>
  Python's \<open>float\<close>: IEEE 754 binary64. A finite value is the rational it denotes; the sign of
  zero is not represented (no modelled operation observes it). Every arithmetic operation is
  the exact operation on rationals followed by \<open>to_b64\<close>, rounding to nearest, ties to even,
  with gradual underflow and overflow to infinity. The clients reason from the laws of
  rounding collected in the locale \<open>rounding\<close>, interpreted on \<open>to_b64\<close> at the end.
\<close>

datatype pyfloat = Fin rat | PInf | NInf | NaN

section \<open>Rounding a rational to binary64\<close>

text \<open>Round to the nearest integer, ties to the even one.\<close>

definition rhe :: "rat \<Rightarrow> int" where
  "rhe y = (let n = \<lfloor>y\<rfloor>; r = y - of_int n in
     if r < 1/2 then n else if r > 1/2 then n + 1 else if even n then n else n + 1)"

text \<open>The binary exponent \<open>ilog2 x\<close>: \<open>2 ^ ilog2 x \<le> x < 2 ^ (ilog2 x + 1)\<close> for \<open>x > 0\<close>.\<close>

function expo_up :: "rat \<Rightarrow> nat" where
  "expo_up x = (if x < 2 then 0 else Suc (expo_up (x / 2)))"
  by pat_completeness auto
termination
proof (relation "measure (\<lambda>x. nat \<lfloor>x\<rfloor>)")
  fix x :: rat
  assume "\<not> x < 2"
  then have "2 \<le> x" by simp
  then have "x / 2 \<le> x - 1" by simp
  then have "\<lfloor>x / 2\<rfloor> \<le> \<lfloor>x - 1\<rfloor>" by (rule floor_mono)
  also have "\<dots> = \<lfloor>x\<rfloor> - 1" by simp
  finally have "\<lfloor>x / 2\<rfloor> \<le> \<lfloor>x\<rfloor> - 1" .
  moreover from \<open>2 \<le> x\<close> have "1 \<le> \<lfloor>x\<rfloor>" by linarith
  ultimately show "(x / 2, x) \<in> measure (\<lambda>x. nat \<lfloor>x\<rfloor>)" by simp
qed simp

lemma floor_half_less: "1 \<le> (z::rat) \<Longrightarrow> \<lfloor>z / 2\<rfloor> < \<lfloor>z\<rfloor>"
proof -
  assume "1 \<le> z"
  then have "(1::rat) \<le> of_int \<lfloor>z\<rfloor>" by simp
  moreover have "z < of_int \<lfloor>z\<rfloor> + 1" by linarith
  ultimately have "z / 2 < of_int \<lfloor>z\<rfloor>" by linarith
  then show ?thesis by (simp add: floor_less_iff)
qed

function expo_dn :: "rat \<Rightarrow> nat" where
  "expo_dn x = (if 1 \<le> x \<or> x \<le> 0 then 0 else Suc (expo_dn (2 * x)))"
  by pat_completeness auto
termination
proof (relation "measure (\<lambda>x. nat \<lfloor>1 / x\<rfloor>)")
  fix x :: rat
  assume "\<not> (1 \<le> x \<or> x \<le> 0)"
  then have x: "0 < x" "x < 1" by auto
  then have one: "1 < 1 / x" by simp
  have "\<lfloor>1 / x / 2\<rfloor> < \<lfloor>1 / x\<rfloor>" by (rule floor_half_less) (use one in simp)
  then have "\<lfloor>1 / (2 * x)\<rfloor> < \<lfloor>1 / x\<rfloor>" by (simp add: mult.commute)
  moreover have "1 \<le> \<lfloor>1 / x\<rfloor>" using one by linarith
  ultimately show "(2 * x, x) \<in> measure (\<lambda>x. nat \<lfloor>1 / x\<rfloor>)" by simp
qed simp

declare expo_up.simps [simp del] expo_dn.simps [simp del]

definition ilog2 :: "rat \<Rightarrow> int" where
  "ilog2 x = (if 1 \<le> x then int (expo_up x) else - int (expo_dn x))"

lemma expo_up_bounds: "1 \<le> x \<Longrightarrow> 2 ^ expo_up x \<le> x \<and> x < 2 * 2 ^ expo_up x"
proof (induction x rule: expo_up.induct)
  case (1 x)
  show ?case
  proof (cases "x < 2")
    case True
    with "1.prems" show ?thesis by (simp add: expo_up.simps [of x])
  next
    case False
    then have "1 \<le> x / 2" by simp
    with False "1.IH" have "2 ^ expo_up (x / 2) \<le> x / 2 \<and> x / 2 < 2 * 2 ^ expo_up (x / 2)"
      by blast
    with False show ?thesis by (simp add: expo_up.simps [of x])
  qed
qed

lemma expo_dn_bounds: "0 < x \<Longrightarrow> x < 1 \<Longrightarrow>
    1 \<le> x * 2 ^ expo_dn x \<and> x * 2 ^ expo_dn x < 2"
proof (induction x rule: expo_dn.induct)
  case (1 x)
  have unf: "expo_dn x = Suc (expo_dn (2 * x))"
    using "1.prems" by (simp add: expo_dn.simps [of x])
  show ?case
  proof (cases "2 * x < 1")
    case True
    with "1.prems" have "1 \<le> 2 * x * 2 ^ expo_dn (2 * x) \<and> 2 * x * 2 ^ expo_dn (2 * x) < 2"
      by (intro "1.IH") auto
    then show ?thesis by (simp add: unf mult_ac)
  next
    case False
    then have "expo_dn (2 * x) = 0" by (simp add: expo_dn.simps [of "2 * x"])
    with False "1.prems" show ?thesis by (simp add: unf)
  qed
qed

lemma ilog2_bounds: "0 < x \<Longrightarrow> 2 powi ilog2 x \<le> x \<and> x < 2 powi (ilog2 x + 1)"
proof (cases "1 \<le> x")
  case True
  then show ?thesis
    using expo_up_bounds [of x] by (simp add: ilog2_def power_int_add)
next
  case False
  assume "0 < x"
  with False have "1 \<le> x * 2 ^ expo_dn x \<and> x * 2 ^ expo_dn x < 2"
    by (intro expo_dn_bounds) auto
  with False show ?thesis
    by (simp add: ilog2_def power_int_diff power_int_minus divide_simps mult.commute)
qed

text \<open>
  The spacing of binary64 numbers in the binade of \<open>x\<close> is \<open>2 ^ (ilog2 x - 52)\<close>, and never less
  than the least subnormal \<open>2 ^ (-1074)\<close>.
\<close>

definition ulp_exp :: "rat \<Rightarrow> int" where
  "ulp_exp x = max (ilog2 x - 52) (-1074)"

definition rnd_pos :: "rat \<Rightarrow> rat" where
  "rnd_pos x = of_int (rhe (x / 2 powi ulp_exp x)) * 2 powi ulp_exp x"

definition b64_max_exp :: rat where
  "b64_max_exp = 2 ^ 1024"

definition to_b64 :: "rat \<Rightarrow> pyfloat" where
  "to_b64 x =
     (if x = 0 then Fin 0
      else if 0 < x then (let r = rnd_pos x in if r < b64_max_exp then Fin r else PInf)
      else (let r = rnd_pos (- x) in if r < b64_max_exp then Fin (- r) else NInf))"

section \<open>Laws of rounding\<close>

lemma rhe_of_int [simp]: "rhe (of_int n) = n"
  by (simp add: rhe_def)

lemma rhe_floor_bounds: "\<lfloor>y\<rfloor> \<le> rhe y \<and> rhe y \<le> \<lfloor>y\<rfloor> + 1"
  by (simp add: rhe_def Let_def)

lemma rhe_mono: "x \<le> y \<Longrightarrow> rhe x \<le> rhe y"
proof (cases "\<lfloor>x\<rfloor> = \<lfloor>y\<rfloor>")
  case True
  assume "x \<le> y"
  with True show ?thesis by (simp add: rhe_def Let_def)
next
  case False
  assume "x \<le> y"
  with False have "\<lfloor>x\<rfloor> < \<lfloor>y\<rfloor>" using floor_mono [of x y] by linarith
  then show ?thesis using rhe_floor_bounds [of x] rhe_floor_bounds [of y] by linarith
qed

lemma rhe_nonneg: "0 \<le> y \<Longrightarrow> 0 \<le> rhe y"
  using rhe_mono [of 0 y] rhe_of_int [of 0] by simp

lemma ilog2_mono: "0 < x \<Longrightarrow> x \<le> y \<Longrightarrow> ilog2 x \<le> ilog2 y"
proof (rule ccontr)
  assume "0 < x" "x \<le> y" "\<not> ilog2 x \<le> ilog2 y"
  then have "ilog2 y + 1 \<le> ilog2 x" by simp
  then have "(2::rat) powi (ilog2 y + 1) \<le> 2 powi ilog2 x"
    by (rule power_int_increasing) simp
  with ilog2_bounds [of x] ilog2_bounds [of y] \<open>0 < x\<close> \<open>x \<le> y\<close> show False by simp
qed

lemma ilog2_upper: "0 < x \<Longrightarrow> x < 2 powi k \<Longrightarrow> ilog2 x < k"
proof (rule ccontr)
  assume "0 < x" "x < 2 powi k" "\<not> ilog2 x < k"
  then have "(2::rat) powi k \<le> 2 powi ilog2 x" by (intro power_int_increasing) simp_all
  with ilog2_bounds [of x] \<open>0 < x\<close> \<open>x < 2 powi k\<close> show False by simp
qed

text \<open>A multiple of the grid spacing of \<open>x\<close> bounds the rounded value if it bounds \<open>x\<close>.\<close>

lemma rnd_pos_le_grid:
  assumes "x \<le> of_int k * 2 powi ulp_exp x"
  shows "rnd_pos x \<le> of_int k * 2 powi ulp_exp x"
proof -
  from assms have "x / 2 powi ulp_exp x \<le> of_int k" by (simp add: divide_simps)
  then have "rhe (x / 2 powi ulp_exp x) \<le> k" using rhe_mono by fastforce
  then show ?thesis by (simp add: rnd_pos_def)
qed

lemma grid_le_rnd_pos:
  assumes "of_int k * 2 powi ulp_exp x \<le> x"
  shows "of_int k * 2 powi ulp_exp x \<le> rnd_pos x"
proof -
  from assms have "of_int k \<le> x / 2 powi ulp_exp x" by (simp add: divide_simps)
  then have "k \<le> rhe (x / 2 powi ulp_exp x)" using rhe_mono by fastforce
  then show ?thesis by (simp add: rnd_pos_def)
qed

lemma rnd_pos_nonneg: "0 \<le> x \<Longrightarrow> 0 \<le> rnd_pos x"
  by (simp add: rnd_pos_def rhe_nonneg)

lemma powi_split: "q \<le> e \<Longrightarrow> (2::rat) powi e = of_int (2 ^ nat (e - q)) * 2 powi q"
proof -
  assume "q \<le> e"
  have "(2::rat) powi e = 2 powi ((e - q) + q)" by simp
  also have "\<dots> = 2 powi (e - q) * 2 powi q" by (rule power_int_add) simp
  also have "(2::rat) powi (e - q) = of_int (2 ^ nat (e - q))"
    using \<open>q \<le> e\<close> by (simp add: power_int_def)
  finally show ?thesis .
qed

lemma rnd_pos_mono:
  assumes "0 < x" "x \<le> y"
  shows "rnd_pos x \<le> rnd_pos y"
proof (cases "ulp_exp x = ulp_exp y")
  case True
  from assms have "x / 2 powi ulp_exp y \<le> y / 2 powi ulp_exp y"
    by (intro divide_right_mono) simp_all
  then have "rhe (x / 2 powi ulp_exp y) \<le> rhe (y / 2 powi ulp_exp y)" by (rule rhe_mono)
  with True show ?thesis by (simp add: rnd_pos_def)
next
  case False
  let ?b = "(2::rat) powi ilog2 y"
  have le: "ilog2 x \<le> ilog2 y" using assms by (rule ilog2_mono)
  with False have ulps: "ulp_exp x < ulp_exp y" "ulp_exp y = ilog2 y - 52" "ilog2 x < ilog2 y"
    by (auto simp: ulp_exp_def max_def split: if_splits)
  have "x < 2 powi (ilog2 x + 1)" using ilog2_bounds [of x] assms by simp
  also have "\<dots> \<le> ?b" using ulps by (intro power_int_increasing) simp_all
  finally have "x \<le> ?b" by simp
  moreover have "?b = of_int (2 ^ nat (ilog2 y - ulp_exp x)) * 2 powi ulp_exp x"
    using ulps by (intro powi_split) simp
  ultimately have "rnd_pos x \<le> ?b" using rnd_pos_le_grid by metis
  moreover have "?b = of_int (2 ^ nat (ilog2 y - ulp_exp y)) * 2 powi ulp_exp y"
    using ulps by (intro powi_split) simp
  moreover have "?b \<le> y" using ilog2_bounds [of y] assms by simp
  ultimately show ?thesis using grid_le_rnd_pos by (metis order_trans)
qed

text \<open>The numbers binary64 can represent (before the overflow check).\<close>

definition b64_rep :: "rat \<Rightarrow> bool" where
  "b64_rep r \<longleftrightarrow> (\<exists>m k. r = of_int m * 2 powi k \<and> \<bar>m\<bar> \<le> 2 ^ 53 \<and> -1074 \<le> k)"

lemma b64_rep_rnd_pos: "0 < x \<Longrightarrow> b64_rep (rnd_pos x)"
proof -
  assume x: "0 < x"
  let ?q = "ulp_exp x" and ?m = "rhe (x / 2 powi ulp_exp x)"
  have "x < 2 powi (ilog2 x + 1)" using ilog2_bounds [OF x] by simp
  also have "\<dots> \<le> 2 powi (?q + 53)"
    by (intro power_int_increasing) (simp_all add: ulp_exp_def)
  also have "\<dots> = 2 ^ 53 * 2 powi ?q" by (simp add: power_int_add)
  finally have "x / 2 powi ?q \<le> of_int (2 ^ 53)" by (simp add: divide_simps)
  then have "?m \<le> rhe (of_int (2 ^ 53))" by (rule rhe_mono)
  then have "?m \<le> 2 ^ 53" by (simp only: rhe_of_int)
  moreover have "0 \<le> ?m" using x by (intro rhe_nonneg) simp
  ultimately have "\<bar>?m\<bar> \<le> 2 ^ 53" by simp
  moreover have "-1074 \<le> ?q" by (simp add: ulp_exp_def)
  ultimately show ?thesis unfolding b64_rep_def rnd_pos_def by blast
qed

lemma rnd_pos_rep:
  assumes r: "0 < r" and rep: "b64_rep r"
  shows "rnd_pos r = r"
proof -
  from rep obtain m k where mk: "r = of_int m * 2 powi k" "\<bar>m\<bar> \<le> 2 ^ 53" "-1074 \<le> k"
    unfolding b64_rep_def by blast
  have "0 < m" using r mk(1) zero_less_power_int [of "2::rat" k]
    by (metis of_int_0_less_iff zero_less_mult_pos2 zero_less_numeral)
  have "\<exists>n. r = of_int n * 2 powi ulp_exp r"
  proof (cases "m = 2 ^ 53")
    case True
    then have r53: "r = 2 powi (k + 53)" by (simp add: mk power_int_add)
    then have "r < 2 powi (k + 54)" by (simp add: power_int_add)
    then have "ulp_exp r \<le> k + 53"
      using ilog2_upper [OF r] mk(3) by (fastforce simp: ulp_exp_def)
    then show ?thesis using powi_split r53 by metis
  next
    case False
    with mk \<open>0 < m\<close> have "of_int m < (2 ^ 53 :: rat)"
      by (metis abs_of_pos le_neq_trans of_int_less_iff of_int_numeral of_int_power)
    then have "r < 2 ^ 53 * 2 powi k" by (simp add: mk)
    also have "\<dots> = 2 powi (k + 53)" by (simp add: power_int_add)
    finally have "ilog2 r < k + 53" using ilog2_upper [OF r] by blast
    then have "ulp_exp r \<le> k" using mk(3) by (simp add: ulp_exp_def)
    then have "r = of_int (m * 2 ^ nat (k - ulp_exp r)) * 2 powi ulp_exp r"
      using powi_split [of "ulp_exp r" k] mk(1) by simp
    then show ?thesis by blast
  qed
  then show ?thesis using rnd_pos_le_grid [of r] grid_le_rnd_pos [of _ r]
    by (metis order_antisym order_refl)
qed

section \<open>Comparison and arithmetic\<close>

text \<open>IEEE comparisons: every comparison with a NaN is false.\<close>

fun f_lt :: "pyfloat \<Rightarrow> pyfloat \<Rightarrow> bool" where
  "f_lt (Fin a) (Fin b) \<longleftrightarrow> a < b"
| "f_lt NInf (Fin _) \<longleftrightarrow> True"
| "f_lt NInf PInf \<longleftrightarrow> True"
| "f_lt (Fin _) PInf \<longleftrightarrow> True"
| "f_lt _ _ \<longleftrightarrow> False"

fun f_eq :: "pyfloat \<Rightarrow> pyfloat \<Rightarrow> bool" where
  "f_eq NaN _ \<longleftrightarrow> False"
| "f_eq x y \<longleftrightarrow> x = y"

definition f_le :: "pyfloat \<Rightarrow> pyfloat \<Rightarrow> bool" where
  "f_le a b \<longleftrightarrow> f_lt a b \<or> f_eq a b"

text \<open>
  Python's two-argument \<open>max\<close> and \<open>min\<close> keep the first argument unless the second compares
  strictly beyond it. So \<open>min(1.0, nan)\<close> is \<open>1.0\<close>, and \<open>min(nan, 1.0)\<close> is \<open>nan\<close>.
\<close>

definition py_max :: "pyfloat \<Rightarrow> pyfloat \<Rightarrow> pyfloat" where
  "py_max a b = (if f_lt a b then b else a)"

definition py_min :: "pyfloat \<Rightarrow> pyfloat \<Rightarrow> pyfloat" where
  "py_min a b = (if f_lt b a then b else a)"

fun f_neg :: "pyfloat \<Rightarrow> pyfloat" where
  "f_neg (Fin a) = Fin (- a)"
| "f_neg PInf = NInf"
| "f_neg NInf = PInf"
| "f_neg NaN = NaN"

fun f_abs :: "pyfloat \<Rightarrow> pyfloat" where
  "f_abs (Fin a) = Fin \<bar>a\<bar>"
| "f_abs PInf = PInf"
| "f_abs NInf = PInf"
| "f_abs NaN = NaN"

fun f_add :: "pyfloat \<Rightarrow> pyfloat \<Rightarrow> pyfloat" where
  "f_add (Fin a) (Fin b) = to_b64 (a + b)"
| "f_add NaN _ = NaN"
| "f_add _ NaN = NaN"
| "f_add PInf NInf = NaN"
| "f_add NInf PInf = NaN"
| "f_add PInf _ = PInf"
| "f_add NInf _ = NInf"
| "f_add (Fin _) y = y"

definition f_sub :: "pyfloat \<Rightarrow> pyfloat \<Rightarrow> pyfloat" where
  "f_sub a b = f_add a (f_neg b)"

definition f_inf_sign :: "bool \<Rightarrow> pyfloat" where
  "f_inf_sign positive = (if positive then PInf else NInf)"

fun f_mul :: "pyfloat \<Rightarrow> pyfloat \<Rightarrow> pyfloat" where
  "f_mul (Fin a) (Fin b) = to_b64 (a * b)"
| "f_mul NaN _ = NaN"
| "f_mul _ NaN = NaN"
| "f_mul (Fin a) PInf = (if a = 0 then NaN else f_inf_sign (0 < a))"
| "f_mul (Fin a) NInf = (if a = 0 then NaN else f_inf_sign (a < 0))"
| "f_mul PInf (Fin b) = (if b = 0 then NaN else f_inf_sign (0 < b))"
| "f_mul NInf (Fin b) = (if b = 0 then NaN else f_inf_sign (b < 0))"
| "f_mul PInf PInf = PInf"
| "f_mul NInf NInf = PInf"
| "f_mul _ _ = NInf"

text \<open>Division by a float zero raises in Python.\<close>

fun f_div_fin :: "pyfloat \<Rightarrow> rat \<Rightarrow> pyfloat" where
  "f_div_fin (Fin a) b = to_b64 (a / b)"
| "f_div_fin PInf b = f_inf_sign (0 < b)"
| "f_div_fin NInf b = f_inf_sign (b < 0)"
| "f_div_fin NaN _ = NaN"

fun f_div :: "pyfloat \<Rightarrow> pyfloat \<Rightarrow> pyfloat res" where
  "f_div x (Fin b) = (if b = 0 then Inl ZeroDivisionError else Inr (f_div_fin x b))"
| "f_div (Fin _) PInf = Inr (Fin 0)"
| "f_div (Fin _) NInf = Inr (Fin 0)"
| "f_div _ _ = Inr NaN"

text \<open>
  \<open>round(x, n)\<close>: the exact value of \<open>x\<close> rounded to \<open>n\<close> decimal places, ties to even, then to
  binary64. Infinities and NaN are returned as they are.
\<close>

fun f_round :: "nat \<Rightarrow> pyfloat \<Rightarrow> pyfloat" where
  "f_round n (Fin a) = to_b64 (of_int (rhe (a * 10 ^ n)) / 10 ^ n)"
| "f_round n x = x"

text \<open>\<open>int(x)\<close> of a float truncates towards zero; \<open>float(n)\<close> of an int that is too large raises.\<close>

fun int_of_float :: "pyfloat \<Rightarrow> int res" where
  "int_of_float (Fin a) = Inr (if 0 \<le> a then \<lfloor>a\<rfloor> else - \<lfloor>- a\<rfloor>)"
| "int_of_float NaN = Inl (ValueError ''cannot convert float NaN to integer'')"
| "int_of_float _ = Inl (OverflowError ''cannot convert float infinity to integer'')"

definition float_of_int :: "int \<Rightarrow> pyfloat res" where
  "float_of_int n = (case to_b64 (of_int n) of
       Fin r \<Rightarrow> Inr (Fin r)
     | _ \<Rightarrow> Inl (OverflowError ''int too large to convert to float''))"

section \<open>The rounding interface\<close>

text \<open>
  What the clients use of rounding: it is monotone, exact on 0 and 1, exact on its own results,
  and never produces a NaN.
\<close>

locale rounding =
  fixes rnd :: "rat \<Rightarrow> pyfloat"
  assumes rnd_mono: "x \<le> y \<Longrightarrow> f_le (rnd x) (rnd y)"
    and rnd_0: "rnd 0 = Fin 0"
    and rnd_1: "rnd 1 = Fin 1"
    and rnd_idem: "rnd x = Fin y \<Longrightarrow> rnd y = Fin y"
begin

lemma nonneg: "0 \<le> x \<Longrightarrow> f_le (Fin 0) (rnd x)"
  using rnd_mono [of 0 x] by (simp add: rnd_0)

lemma unit: "0 \<le> x \<Longrightarrow> x \<le> 1 \<Longrightarrow> \<exists>y. rnd x = Fin y \<and> 0 \<le> y \<and> y \<le> 1"
proof -
  assume "0 \<le> x" "x \<le> 1"
  then have "f_le (Fin 0) (rnd x)" "f_le (rnd x) (Fin 1)"
    using rnd_mono [of 0 x] rnd_mono [of x 1] by (simp_all add: rnd_0 rnd_1)
  then show ?thesis by (cases "rnd x") (auto simp: f_le_def)
qed

lemma ratio_unit: "0 \<le> a \<Longrightarrow> a \<le> b \<Longrightarrow> 0 < b \<Longrightarrow> \<exists>y. rnd (a / b) = Fin y \<and> 0 \<le> y \<and> y \<le> 1"
  by (rule unit) (simp_all add: divide_simps)

lemma add_grows: "rnd a = Fin a \<Longrightarrow> 0 \<le> w \<Longrightarrow> f_le (Fin a) (rnd (a + w))"
  using rnd_mono [of a "a + w"] by simp

lemma fin_mono: "x \<le> y \<Longrightarrow> rnd x = Fin a \<Longrightarrow> rnd y = Fin b \<Longrightarrow> a \<le> b"
  using rnd_mono [of x y] by (auto simp: f_le_def)

end

lemma rnd_pos_one: "rnd_pos 1 = 1"
proof (rule rnd_pos_rep)
  have "(1::rat) = of_int 1 * 2 powi 0 \<and> \<bar>1::int\<bar> \<le> 2 ^ 53 \<and> (-1074::int) \<le> 0" by simp
  then show "b64_rep 1" unfolding b64_rep_def by blast
qed simp

lemma to_b64_mono: "x \<le> y \<Longrightarrow> f_le (to_b64 x) (to_b64 y)"
proof -
  assume le: "x \<le> y"
  consider "0 < x" | "x = 0" | "x < 0" "0 \<le> y" | "y < 0" using le by linarith
  then show ?thesis
  proof cases
    case 1
    then show ?thesis using rnd_pos_mono [OF 1 le] le
      by (auto simp: to_b64_def f_le_def Let_def)
  next
    case 2
    then show ?thesis using le rnd_pos_nonneg [of y]
      by (auto simp: to_b64_def f_le_def Let_def)
  next
    case 3
    then show ?thesis using rnd_pos_nonneg [of "- x"] rnd_pos_nonneg [of y]
      by (auto simp: to_b64_def f_le_def Let_def)
  next
    case 4
    then have "rnd_pos (- y) \<le> rnd_pos (- x)" using le by (intro rnd_pos_mono) simp_all
    with 4 le show ?thesis by (auto simp: to_b64_def f_le_def Let_def)
  qed
qed

lemma to_b64_idem: "to_b64 x = Fin y \<Longrightarrow> to_b64 y = Fin y"
proof -
  assume h: "to_b64 x = Fin y"
  consider "x = 0" | "0 < x" | "x < 0" by linarith
  then show ?thesis
  proof cases
    case 1
    then show ?thesis using h by (simp add: to_b64_def)
  next
    case 2
    then have y: "y = rnd_pos x" "y < b64_max_exp" "0 \<le> y"
      using h rnd_pos_nonneg [of x] by (auto simp: to_b64_def Let_def split: if_splits)
    show ?thesis
    proof (cases "y = 0")
      case False
      then have "rnd_pos y = y" using y b64_rep_rnd_pos [OF 2] by (intro rnd_pos_rep) auto
      with y False show ?thesis by (simp add: to_b64_def)
    qed (simp add: to_b64_def)
  next
    case 3
    then have y: "- y = rnd_pos (- x)" "- y < b64_max_exp" "0 \<le> - y"
      using h rnd_pos_nonneg [of "- x"] by (auto simp: to_b64_def Let_def split: if_splits)
    show ?thesis
    proof (cases "y = 0")
      case False
      then have "rnd_pos (- y) = - y"
        using y b64_rep_rnd_pos [of "- x"] 3 by (intro rnd_pos_rep) auto
      with y False show ?thesis by (simp add: to_b64_def)
    qed (simp add: to_b64_def)
  qed
qed

interpretation b64: rounding to_b64
proof
  show "to_b64 1 = Fin 1" by (simp add: to_b64_def rnd_pos_one b64_max_exp_def)
  show "to_b64 0 = Fin 0" by (simp add: to_b64_def)
qed (auto intro: to_b64_mono to_b64_idem)

text \<open>Clamping into the unit interval: \<open>max(0.0, min(1.0, x))\<close> is never a NaN.\<close>

definition f_unit :: "pyfloat \<Rightarrow> bool" where
  "f_unit x \<longleftrightarrow> (case x of Fin r \<Rightarrow> 0 \<le> r \<and> r \<le> 1 | _ \<Rightarrow> False)"

lemma f_unit_Fin [simp]: "f_unit (Fin r) \<longleftrightarrow> 0 \<le> r \<and> r \<le> 1"
  by (simp add: f_unit_def)

lemma f_unitE: "f_unit x \<Longrightarrow> (\<And>r. x = Fin r \<Longrightarrow> 0 \<le> r \<Longrightarrow> r \<le> 1 \<Longrightarrow> P) \<Longrightarrow> P"
  by (cases x) (auto simp: f_unit_def)

lemma clamp_unit: "f_unit (py_max (Fin 0) (py_min (Fin 1) x))"
  by (cases x) (auto simp: py_max_def py_min_def)

lemma clamp_id: "f_unit x \<Longrightarrow> py_max (Fin 0) (py_min (Fin 1) x) = x"
  by (auto elim!: f_unitE simp: py_max_def py_min_def)

lemma to_b64_unit: "0 \<le> x \<Longrightarrow> x \<le> 1 \<Longrightarrow> f_unit (to_b64 x)"
  using b64.unit [of x] by auto

lemma f_round_unit: "f_unit x \<Longrightarrow> f_unit (f_round n x)"
proof (erule f_unitE)
  fix r :: rat
  assume r: "x = Fin r" "0 \<le> r" "r \<le> 1"
  then have "rhe (r * 10 ^ n) \<le> rhe (of_int (10 ^ n))"
    by (intro rhe_mono) (simp add: mult_left_le_one_le)
  then have "rhe (r * 10 ^ n) \<le> 10 ^ n" by (simp only: rhe_of_int)
  then have "(of_int (rhe (r * 10 ^ n)) :: rat) \<le> of_int (10 ^ n)" by (simp only: of_int_le_iff)
  moreover have "0 \<le> rhe (r * 10 ^ n)" using r by (intro rhe_nonneg) simp
  ultimately show "f_unit (f_round n x)"
    using r by (auto intro!: to_b64_unit simp: divide_simps)
qed

lemma f_mul_unit: "f_unit x \<Longrightarrow> f_unit y \<Longrightarrow> f_unit (f_mul x y)"
  by (elim f_unitE) (simp add: to_b64_unit mult_le_one)

section \<open>Evaluation\<close>

text \<open>
  What a witness needs to evaluate arithmetic on literals by \<open>simp\<close>.
\<close>

lemma powi_minus_eval [float_simps]: "(2::rat) powi (- numeral k) = inverse (2 ^ numeral k)"
  by (simp only: power_int_minus power_int_numeral)

lemma floor_rat_eval [float_simps]:
  "\<lfloor>numeral a / numeral b :: rat\<rfloor> = numeral a div numeral b"
  "\<lfloor>1 / numeral b :: rat\<rfloor> = 1 div numeral b"
  using floor_divide_of_int_eq [of "numeral a" "numeral b", where 'a = rat]
    floor_divide_of_int_eq [of 1 "numeral b", where 'a = rat] by simp_all

lemmas b64_eval [float_simps] =
  to_b64_def rnd_pos_def ulp_exp_def ilog2_def rhe_def expo_up.simps expo_dn.simps
  b64_max_exp_def Let_def py_max_def py_min_def f_le_def f_sub_def f_inf_sign_def

end
