(* ===== verification/Py_Text.thy ===== *)
theory Py_Text
  imports Py_Float
begin

text \<open>
  The string operations of Python's standard library the program uses. A Python string is a
  list of characters; characters are the code points below 256, so case mapping and white
  space are those of Latin-1. Text of numbers: \<open>int(s)\<close>, \<open>float(s)\<close>, \<open>str(n)\<close>, \<open>repr(x)\<close> of a
  float (the shortest digits that read back as the same binary64 number), and \<open>{x:.2f}\<close>.
\<close>

section \<open>Characters and substrings\<close>

definition lower_char :: "char \<Rightarrow> char" where
  "lower_char c = (let n = of_char c :: int in
     if 65 \<le> n \<and> n \<le> 90 \<or> 192 \<le> n \<and> n \<le> 222 \<and> n \<noteq> 215 then char_of (n + 32) else c)"

definition lower :: "string \<Rightarrow> string" where
  "lower s = map lower_char s"

definition upper_char :: "char \<Rightarrow> string" where
  "upper_char c = (let n = of_char c :: int in
     if n = 223 then ''SS''
     else if 97 \<le> n \<and> n \<le> 122 \<or> 224 \<le> n \<and> n \<le> 254 \<and> n \<noteq> 247 then [char_of (n - 32)]
     else [c])"

definition upper :: "string \<Rightarrow> string" where
  "upper s = concat (map upper_char s)"

definition is_space :: "char \<Rightarrow> bool" where
  "is_space c \<longleftrightarrow> (let n = of_char c :: int in
     9 \<le> n \<and> n \<le> 13 \<or> 28 \<le> n \<and> n \<le> 32 \<or> n = 133 \<or> n = 160)"

definition lstrip :: "string \<Rightarrow> string" where
  "lstrip s = dropWhile is_space s"

definition rstrip :: "string \<Rightarrow> string" where
  "rstrip s = rev (dropWhile is_space (rev s))"

definition strip :: "string \<Rightarrow> string" where
  "strip s = rstrip (lstrip s)"

definition rstrip_char :: "char \<Rightarrow> string \<Rightarrow> string" where
  "rstrip_char c s = rev (dropWhile (\<lambda>x. x = c) (rev s))"

definition startswith :: "string \<Rightarrow> string \<Rightarrow> bool" where
  "startswith s p \<longleftrightarrow> take (length p) s = p"

definition endswith :: "string \<Rightarrow> string \<Rightarrow> bool" where
  "endswith s p \<longleftrightarrow> length p \<le> length s \<and> drop (length s - length p) s = p"

text \<open>\<open>p in s\<close> for strings.\<close>

fun contains :: "string \<Rightarrow> string \<Rightarrow> bool" where
  "contains p [] \<longleftrightarrow> p = []"
| "contains p (c # s) \<longleftrightarrow> startswith (c # s) p \<or> contains p s"

fun join :: "string \<Rightarrow> string list \<Rightarrow> string" where
  "join sep [] = []"
| "join sep [x] = x"
| "join sep (x # y # ys) = x @ sep @ join sep (y # ys)"

text \<open>The last \<open>n\<close> characters, \<open>s[-n:]\<close>.\<close>

definition last_chars :: "nat \<Rightarrow> string \<Rightarrow> string" where
  "last_chars n s = drop (length s - n) s"

lemma startswith_append [simp]: "startswith (p @ s) p"
  by (simp add: startswith_def)

lemma startswith_iff: "startswith s p \<longleftrightarrow> (\<exists>t. s = p @ t)"
  by (metis append_eq_conv_conj append_take_drop_id startswith_def)

lemma endswith_append [simp]: "endswith (s @ p) p"
  by (simp add: endswith_def)

lemma endswith_iff: "endswith s p \<longleftrightarrow> (\<exists>t. s = t @ p)"
proof
  assume "endswith s p"
  then have "s = take (length s - length p) s @ p"
    by (metis append_take_drop_id endswith_def)
  then show "\<exists>t. s = t @ p" by blast
qed auto

lemma lower_char_idem [simp]: "lower_char (lower_char c) = lower_char c"
  by (auto simp: lower_char_def Let_def)

lemma lower_idem [simp]: "lower (lower s) = lower s"
  by (simp add: lower_def)

lemma of_char_range: "0 \<le> (of_char c :: int) \<and> (of_char c :: int) < 256"
proof -
  have "(of_char c :: int) = of_char c mod 256" by simp
  then show ?thesis by (metis pos_mod_bound pos_mod_sign zero_less_numeral)
qed

lemma char_eq_iff: "c = d \<longleftrightarrow> (of_char c :: int) = of_char d"
  by simp

section \<open>Integers as text\<close>

definition digit_char :: "int \<Rightarrow> char" where
  "digit_char d = char_of (48 + d)"

text \<open>The decimal digits of a non-negative integer.\<close>

function dec_str :: "int \<Rightarrow> string" where
  "dec_str n = (if n < 10 then [digit_char n] else dec_str (n div 10) @ [digit_char (n mod 10)])"
  by pat_completeness auto
termination
  by (relation "measure nat") auto

declare dec_str.simps [simp del]

definition int_str :: "int \<Rightarrow> string" where
  "int_str n = (if n < 0 then ''-'' @ dec_str (- n) else dec_str n)"

definition is_digit :: "char \<Rightarrow> bool" where
  "is_digit c \<longleftrightarrow> (let n = of_char c :: int in 48 \<le> n \<and> n \<le> 57)"

definition digit_val :: "char \<Rightarrow> int" where
  "digit_val c = of_char c - 48"

text \<open>
  Digits with single underscores between them, as \<open>int\<close> and \<open>float\<close> read them; the flag says
  whether the previous character was a digit.
\<close>

fun digits_from :: "bool \<Rightarrow> int \<Rightarrow> string \<Rightarrow> int option" where
  "digits_from p acc [] = (if p then Some acc else None)"
| "digits_from p acc (c # cs) =
     (if is_digit c then digits_from True (10 * acc + digit_val c) cs
      else if c = CHR ''_'' \<and> p then digits_from False acc cs
      else None)"

definition digits_val :: "string \<Rightarrow> int option" where
  "digits_val s = digits_from False 0 s"

definition split_sign :: "string \<Rightarrow> bool \<times> string" where
  "split_sign s = (case s of
       [] \<Rightarrow> (False, s)
     | c # cs \<Rightarrow> if c = CHR ''-'' then (True, cs) else if c = CHR ''+'' then (False, cs) else (False, s))"

text \<open>\<open>int(s)\<close> raises \<open>ValueError\<close> where this is \<open>None\<close>; more than 4300 digits are refused too.\<close>

definition parse_int :: "string \<Rightarrow> int option" where
  "parse_int s = (let (neg, body) = split_sign (strip s) in
     if 4300 < int (length (filter is_digit body)) then None
     else map_option (\<lambda>n. if neg then - n else n) (digits_val body))"

lemma of_char_digit: "0 \<le> d \<Longrightarrow> d < 10 \<Longrightarrow> (of_char (digit_char d) :: int) = 48 + d"
  by (simp add: digit_char_def)

lemma is_digit_digit_char: "0 \<le> d \<Longrightarrow> d < 10 \<Longrightarrow> is_digit (digit_char d)"
  by (simp add: is_digit_def of_char_digit)

lemma digit_val_digit_char: "0 \<le> d \<Longrightarrow> d < 10 \<Longrightarrow> digit_val (digit_char d) = d"
  by (simp add: digit_val_def of_char_digit)

lemma dec_str_nonempty: "dec_str n \<noteq> []"
  by (subst dec_str.simps) simp

lemma dec_str_digits: "0 \<le> n \<Longrightarrow> c \<in> set (dec_str n) \<Longrightarrow> is_digit c"
proof (induction n rule: dec_str.induct)
  case (1 n)
  show ?case
  proof (cases "n < 10")
    case True
    with "1.prems" show ?thesis by (simp add: dec_str.simps [of n] is_digit_digit_char)
  next
    case False
    with "1.prems" "1.IH" show ?thesis
      by (auto simp: dec_str.simps [of n] is_digit_digit_char)
  qed
qed

lemma digits_from_append_digits:
  "(\<And>c. c \<in> set xs \<Longrightarrow> is_digit c) \<Longrightarrow> xs \<noteq> [] \<Longrightarrow>
   digits_from p acc (xs @ ys) = digits_from True (foldl (\<lambda>a c. 10 * a + digit_val c) acc xs) ys"
proof (induction xs arbitrary: p acc)
  case (Cons x xs)
  have step: "digits_from p acc ((x # xs) @ ys) = digits_from True (10 * acc + digit_val x) (xs @ ys)"
    using Cons.prems by simp
  show ?case
  proof (cases "xs = []")
    case False
    then show ?thesis
      using step Cons.IH [of True "10 * acc + digit_val x"] Cons.prems by (simp only: foldl_Cons) simp
  qed (use step in simp)
qed simp

lemma dec_str_value: "0 \<le> n \<Longrightarrow> foldl (\<lambda>a c. 10 * a + digit_val c) 0 (dec_str n) = n"
proof (induction n rule: dec_str.induct)
  case (1 n)
  then show ?case by (subst dec_str.simps) (simp add: digit_val_digit_char)
qed

text \<open>The text of a non-negative integer reads back as that integer.\<close>

lemma digits_val_dec_str: "0 \<le> n \<Longrightarrow> digits_val (dec_str n) = Some n"
  using digits_from_append_digits [of "dec_str n" False 0 "[]"] dec_str_digits [of n]
    dec_str_nonempty by (simp add: digits_val_def dec_str_value)

lemma dropWhile_none: "(\<And>c. c \<in> set s \<Longrightarrow> \<not> P c) \<Longrightarrow> dropWhile P s = s"
  by (cases s) auto

lemma strip_none: "(\<And>c. c \<in> set s \<Longrightarrow> \<not> is_space c) \<Longrightarrow> strip s = s"
proof -
  assume n: "\<And>c. c \<in> set s \<Longrightarrow> \<not> is_space c"
  then have "dropWhile is_space s = s" "dropWhile is_space (rev s) = rev s"
    by (auto intro: dropWhile_none)
  then show ?thesis by (simp add: strip_def lstrip_def rstrip_def)
qed

lemma digit_not_space: "is_digit c \<Longrightarrow> \<not> is_space c"
  by (auto simp: is_digit_def is_space_def Let_def)

lemma length_dec_str: "n < 10 ^ k \<Longrightarrow> 0 < k \<Longrightarrow> length (dec_str n) \<le> k"
proof (induction k arbitrary: n)
  case (Suc k)
  show ?case
  proof (cases "n < 10")
    case False
    with Suc.prems(1) have "n div 10 < 10 ^ k" "0 < k" by (auto intro: Nat.gr0I)
    then have "length (dec_str (n div 10)) \<le> k" by (rule Suc.IH)
    then show ?thesis by (simp add: dec_str.simps [of n])
  qed (simp add: dec_str.simps [of n])
qed simp

text \<open>The text of a number of at most 18 digits reads back as that number.\<close>

lemma parse_int_int_str:
  assumes "0 \<le> n" "n < 10 ^ 18"
  shows "parse_int (int_str n) = Some n"
proof -
  have len: "length (dec_str n) \<le> 18" using assms(2) by (intro length_dec_str) simp_all
  have dig: "is_digit c" if "c \<in> set (dec_str n)" for c using dec_str_digits [OF assms(1) that] .
  have "strip (dec_str n) = dec_str n" by (intro strip_none digit_not_space dig)
  moreover have "split_sign (dec_str n) = (False, dec_str n)"
  proof (cases "dec_str n")
    case (Cons c cs)
    then have "is_digit c" using dig by simp
    then have "c \<noteq> CHR ''-''" "c \<noteq> CHR ''+''" by (auto simp: is_digit_def)
    then show ?thesis by (simp add: split_sign_def Cons)
  qed (simp add: dec_str_nonempty)
  moreover have "filter is_digit (dec_str n) = dec_str n" using dig by (simp add: filter_id_conv)
  moreover have "int (length (dec_str n)) \<le> 4300" using len by simp
  ultimately show ?thesis
    using assms(1) digits_val_dec_str [OF assms(1)] unfolding parse_int_def int_str_def by simp
qed

section \<open>Floats as text\<close>

fun break_at :: "(char \<Rightarrow> bool) \<Rightarrow> string \<Rightarrow> string \<times> string option" where
  "break_at P [] = ([], None)"
| "break_at P (c # cs) =
     (if P c then ([], Some cs) else (case break_at P cs of (a, b) \<Rightarrow> (c # a, b)))"

text \<open>A part of the mantissa: its value and its number of digits; it may be empty.\<close>

definition mantissa_part :: "string \<Rightarrow> (int \<times> nat) option" where
  "mantissa_part s = (if s = [] then Some (0, 0)
     else map_option (\<lambda>n. (n, length (filter is_digit s))) (digits_val s))"

definition parse_exponent :: "string option \<Rightarrow> int option" where
  "parse_exponent e = (case e of None \<Rightarrow> Some 0
     | Some s \<Rightarrow> (let (neg, body) = split_sign s in
         map_option (\<lambda>n. if neg then - n else n) (digits_val body)))"

definition parse_decimal :: "string \<Rightarrow> rat option" where
  "parse_decimal s = (
     let (m, e) = break_at (\<lambda>c. c = CHR ''e'') s;
         (ip, fp) = break_at (\<lambda>c. c = CHR ''.'') m;
         f = (case fp of None \<Rightarrow> [] | Some x \<Rightarrow> x)
     in if ip = [] \<and> f = [] then None
        else (case (mantissa_part ip, mantissa_part f, parse_exponent e) of
            (Some (i, _), Some (n, k), Some x) \<Rightarrow>
              Some ((of_int i + of_int n / 10 ^ k) * 10 powi x)
          | _ \<Rightarrow> None))"

text \<open>\<open>float(s)\<close>; \<open>None\<close> where it raises \<open>ValueError\<close>.\<close>

definition parse_float :: "string \<Rightarrow> pyfloat option" where
  "parse_float s = (let (neg, body) = split_sign (lower (strip s)) in
     if body = ''inf'' \<or> body = ''infinity'' then Some (if neg then NInf else PInf)
     else if body = ''nan'' then Some NaN
     else map_option (\<lambda>r. to_b64 (if neg then - r else r)) (parse_decimal body))"

text \<open>The decimal exponent: \<open>10 ^ (dec_exp r - 1) \<le> r < 10 ^ dec_exp r\<close>.\<close>

fun dec_up :: "nat \<Rightarrow> rat \<Rightarrow> int" where
  "dec_up 0 r = 1"
| "dec_up (Suc n) r = (if r < 10 then 1 else 1 + dec_up n (r / 10))"

fun dec_dn :: "nat \<Rightarrow> rat \<Rightarrow> int" where
  "dec_dn 0 r = 1"
| "dec_dn (Suc n) r = (if 1 \<le> r then 1 else dec_dn n (r * 10) - 1)"

text \<open>Binary64 magnitudes lie between \<open>10 ^ (-324)\<close> and \<open>10 ^ 309\<close>, so 400 steps are enough.\<close>

definition dec_exp :: "rat \<Rightarrow> int" where
  "dec_exp r = (if 1 \<le> r then dec_up 400 r else dec_dn 400 r)"

text \<open>
  The nearer of the two \<open>k\<close>-digit decimals around \<open>r\<close> that read back as \<open>r\<close>, as an integer to
  be scaled by \<open>10 ^ (p - k)\<close>.
\<close>

definition short_candidate :: "rat \<Rightarrow> int \<Rightarrow> nat \<Rightarrow> int option" where
  "short_candidate r p k = (
     let scale = 10 powi (int k - p); lo = \<lfloor>r * scale\<rfloor>; near = rhe (r * scale);
         far = (if near = lo then lo + 1 else lo);
         ok = (\<lambda>c. to_b64 (of_int c / scale) = Fin r)
     in if ok near then Some near else if ok far then Some far else None)"

fun shortest_from :: "rat \<Rightarrow> int \<Rightarrow> nat list \<Rightarrow> int \<times> nat" where
  "shortest_from r p [] = (rhe (r * 10 powi (17 - p)), 17)"
| "shortest_from r p (k # ks) =
     (case short_candidate r p k of Some c \<Rightarrow> (c, k) | None \<Rightarrow> shortest_from r p ks)"

definition strip_zeros :: "string \<Rightarrow> string" where
  "strip_zeros s = rstrip_char (CHR ''0'') s"

definition zeros :: "nat \<Rightarrow> string" where
  "zeros n = replicate n (CHR ''0'')"

text \<open>Digits \<open>d\<close> with the decimal point after position \<open>dp\<close>, as \<open>repr\<close> lays them out.\<close>

definition layout :: "string \<Rightarrow> int \<Rightarrow> string" where
  "layout d dp =
     (if -4 < dp \<and> dp \<le> 16 then
        (if dp \<le> 0 then ''0.'' @ zeros (nat (- dp)) @ d
         else if int (length d) \<le> dp then d @ zeros (nat dp - length d) @ ''.0''
         else take (nat dp) d @ ''.'' @ drop (nat dp) d)
      else
        (let e = dp - 1; x = dec_str \<bar>e\<bar> in
           take 1 d @ (if length d = 1 then [] else ''.'' @ drop 1 d)
             @ ''e'' @ (if e < 0 then ''-'' else ''+'') @ (if length x < 2 then ''0'' @ x else x)))"

definition pos_repr :: "rat \<Rightarrow> string" where
  "pos_repr r = (let p = dec_exp r; (c, k) = shortest_from r p [1..<18]; d = dec_str c in
     layout (strip_zeros d) (p + int (length d) - int k))"

definition float_repr :: "pyfloat \<Rightarrow> string" where
  "float_repr x = (case x of
       NaN \<Rightarrow> ''nan'' | PInf \<Rightarrow> ''inf'' | NInf \<Rightarrow> ''-inf''
     | Fin r \<Rightarrow> if r = 0 then ''0.0'' else if 0 < r then pos_repr r else ''-'' @ pos_repr (- r))"

text \<open>\<open>f"{x:.2f}"\<close>.\<close>

definition fixed2 :: "pyfloat \<Rightarrow> string" where
  "fixed2 x = (case x of
       NaN \<Rightarrow> ''nan'' | PInf \<Rightarrow> ''inf'' | NInf \<Rightarrow> ''-inf''
     | Fin r \<Rightarrow> (let n = rhe (\<bar>r\<bar> * 100); f = n mod 100 in
         (if r < 0 then ''-'' else []) @ dec_str (n div 100) @ ''.''
           @ [digit_char (f div 10), digit_char (f mod 10)]))"

text \<open>What a witness needs to evaluate the text functions on literals.\<close>

lemmas text_eval [text_simps] =
  lower_def lower_char_def upper_def upper_char_def is_space_def lstrip_def rstrip_def strip_def
  rstrip_char_def startswith_def endswith_def dec_str.simps int_str_def digit_char_def
  is_digit_def digit_val_def digits_val_def split_sign_def parse_int_def mantissa_part_def
  parse_exponent_def parse_decimal_def parse_float_def char_of_def Let_def

section \<open>Quoted text\<close>

definition hex_digit :: "int \<Rightarrow> char" where
  "hex_digit d = (if d < 10 then char_of (48 + d) else char_of (87 + d))"

definition hex2 :: "int \<Rightarrow> string" where
  "hex2 n = [hex_digit (n div 16), hex_digit (n mod 16)]"

text \<open>\<open>repr\<close> of a string: single quotes unless it holds a single quote and no double quote.\<close>

definition repr_char :: "char \<Rightarrow> char \<Rightarrow> string" where
  "repr_char q c = (let n = of_char c :: int in
     if c = q \<or> n = 92 then [char_of (92::int), c]
     else if n = 10 then [char_of (92::int), CHR ''n'']
     else if n = 13 then [char_of (92::int), CHR ''r'']
     else if n = 9 then [char_of (92::int), CHR ''t'']
     else if n < 32 \<or> 127 \<le> n \<and> n \<le> 160 \<or> n = 173 then [char_of (92::int), CHR ''x''] @ hex2 n
     else [c])"

definition str_repr :: "string \<Rightarrow> string" where
  "str_repr s = (let sq = char_of (39::int); dq = char_of (34::int);
     q = (if sq \<in> set s \<and> dq \<notin> set s then dq else sq)
     in [q] @ concat (map (repr_char q) s) @ [q])"

text \<open>A JSON string literal, with \<open>ensure_ascii=False\<close>.\<close>

definition json_char :: "char \<Rightarrow> string" where
  "json_char c = (let n = of_char c :: int; bs = char_of (92::int) in
     if n = 34 \<or> n = 92 then [bs, c]
     else if n = 10 then [bs, CHR ''n'']
     else if n = 13 then [bs, CHR ''r'']
     else if n = 9 then [bs, CHR ''t'']
     else if n = 8 then [bs, CHR ''b'']
     else if n = 12 then [bs, CHR ''f'']
     else if n < 32 then [bs, CHR ''u'', CHR ''0'', CHR ''0''] @ hex2 n
     else [c])"

definition json_quote :: "string \<Rightarrow> string" where
  "json_quote s = [char_of (34::int)] @ concat (map json_char s) @ [char_of (34::int)]"

end
