(* ===== verification/Py_Json.thy ===== *)
theory Py_Json
  imports Py_Text
begin

text \<open>
  The values the program passes around as \<open>Any\<close>: what \<open>json.loads\<close> returns. An object is a
  dictionary in insertion order. The operations are Python's: truth value, equality (an int, a
  float and a bool compare by value), \<open>float(x)\<close>, \<open>str(x)\<close>, \<open>json.dumps\<close>.
\<close>

datatype json =
    JNull
  | JBool bool
  | JInt int
  | JFloat pyfloat
  | JStr string
  | JArr "json list"
  | JObj "(string \<times> json) list"

type_synonym dict = "(string, json) pydict"

section \<open>Reading values\<close>

text \<open>\<open>d.get(k)\<close> on a dictionary of JSON values: a missing key gives \<open>None\<close>.\<close>

definition jget :: "dict \<Rightarrow> string \<Rightarrow> json" where
  "jget d k = (case dget d k of Some v \<Rightarrow> v | None \<Rightarrow> JNull)"

text \<open>\<open>d.get(k, default)\<close>.\<close>

definition jget_or :: "dict \<Rightarrow> string \<Rightarrow> json \<Rightarrow> json" where
  "jget_or d k x = (case dget d k of Some v \<Rightarrow> v | None \<Rightarrow> x)"

lemma jget_dset [simp]: "jget (dset k v d) k' = (if k = k' then v else jget d k')"
  by (simp add: jget_def)

lemma jget_Nil [simp]: "jget [] k = JNull"
  by (simp add: jget_def)

lemma jget_Cons [dict_simps]: "jget ((k', v) # d) k = (if k' = k then v else jget d k)"
  by (simp add: jget_def dict_simps)

lemma jget_or_Nil [simp]: "jget_or [] k x = x"
  by (simp add: jget_or_def)

lemma jget_or_Cons [dict_simps]: "jget_or ((k', v) # d) k x = (if k' = k then v else jget_or d k x)"
  by (simp add: jget_or_def dict_simps)

lemma jget_dmerge:
  "wf_dict e \<Longrightarrow> jget (dmerge d e) k = (case dget e k of Some v \<Rightarrow> v | None \<Rightarrow> jget d k)"
  by (simp add: jget_def dget_dmerge split: option.split)

text \<open>\<open>bool(x)\<close>.\<close>

fun truthy :: "json \<Rightarrow> bool" where
  "truthy JNull \<longleftrightarrow> False"
| "truthy (JBool b) \<longleftrightarrow> b"
| "truthy (JInt n) \<longleftrightarrow> n \<noteq> 0"
| "truthy (JFloat x) \<longleftrightarrow> x \<noteq> Fin 0"
| "truthy (JStr s) \<longleftrightarrow> s \<noteq> []"
| "truthy (JArr xs) \<longleftrightarrow> xs \<noteq> []"
| "truthy (JObj d) \<longleftrightarrow> d \<noteq> []"

text \<open>\<open>x or y\<close>.\<close>

definition py_or :: "json \<Rightarrow> json \<Rightarrow> json" where
  "py_or x y = (if truthy x then x else y)"

lemma py_or_empty_obj [simp]: "py_or (JObj d) (JObj []) = JObj d"
  by (simp add: py_or_def)

fun is_obj :: "json \<Rightarrow> bool" where
  "is_obj (JObj _) \<longleftrightarrow> True"
| "is_obj _ \<longleftrightarrow> False"

lemma is_obj_iff: "is_obj x \<longleftrightarrow> (\<exists>d. x = JObj d)"
  by (cases x) auto

text \<open>\<open>x if isinstance(x, dict) else {}\<close>.\<close>

definition obj_or_empty :: "json \<Rightarrow> dict" where
  "obj_or_empty x = (case x of JObj d \<Rightarrow> d | _ \<Rightarrow> [])"

lemma obj_or_empty_JObj [simp]: "obj_or_empty (JObj d) = d"
  by (simp add: obj_or_empty_def)

lemma obj_or_empty_nonobj: "\<not> is_obj x \<Longrightarrow> obj_or_empty x = []"
  by (cases x) (auto simp: obj_or_empty_def)

text \<open>\<open>type(x).__name__\<close>.\<close>

fun type_name :: "json \<Rightarrow> string" where
  "type_name JNull = ''NoneType''"
| "type_name (JBool _) = ''bool''"
| "type_name (JInt _) = ''int''"
| "type_name (JFloat _) = ''float''"
| "type_name (JStr _) = ''str''"
| "type_name (JArr _) = ''list''"
| "type_name (JObj _) = ''dict''"

section \<open>Numbers\<close>

text \<open>
  A number for comparison: exact, as Python compares ints with floats. \<open>isinstance(x, (int,
  float))\<close> holds of a bool, which counts as 0 or 1.
\<close>

fun num_val :: "json \<Rightarrow> pyfloat option" where
  "num_val (JBool b) = Some (Fin (if b then 1 else 0))"
| "num_val (JInt n) = Some (Fin (of_int n))"
| "num_val (JFloat x) = Some x"
| "num_val _ = None"

text \<open>\<open>isinstance(x, int)\<close> with its value; a bool is an int.\<close>

fun int_val :: "json \<Rightarrow> int option" where
  "int_val (JBool b) = Some (if b then 1 else 0)"
| "int_val (JInt n) = Some n"
| "int_val _ = None"

text \<open>\<open>float(x)\<close>.\<close>

fun to_float :: "json \<Rightarrow> pyfloat res" where
  "to_float (JBool b) = Inr (Fin (if b then 1 else 0))"
| "to_float (JInt n) = float_of_int n"
| "to_float (JFloat x) = Inr x"
| "to_float (JStr s) = (case parse_float s of
       Some x \<Rightarrow> Inr x | None \<Rightarrow> Inl (ValueError ''could not convert string to float''))"
| "to_float _ = Inl (TypeError ''float() argument must be a string or a real number'')"

text \<open>What \<open>except (TypeError, ValueError)\<close> catches.\<close>

fun is_type_or_value_error :: "exn \<Rightarrow> bool" where
  "is_type_or_value_error (TypeError _) \<longleftrightarrow> True"
| "is_type_or_value_error (ValueError _) \<longleftrightarrow> True"
| "is_type_or_value_error (JSONDecodeError _) \<longleftrightarrow> True"
| "is_type_or_value_error _ \<longleftrightarrow> False"

lemma float_of_int_cases:
  "(\<exists>r. float_of_int n = Inr (Fin r)) \<or>
   float_of_int n = Inl (OverflowError ''int too large to convert to float'')"
  by (simp add: float_of_int_def split: pyfloat.split)

section \<open>Equality\<close>

text \<open>
  \<open>==\<close> of Python values: numbers by value, lists by position, dictionaries by key whatever
  their order. A NaN equals nothing.
\<close>

lemma zip_left_size [termination_simp]:
  "(a, b) \<in> set (zip xs ys) \<Longrightarrow> size a < Suc (size_list size xs)"
  by (auto dest!: set_zip_leftD intro!: size_list_estimation' le_imp_less_Suc)

fun py_eq :: "json \<Rightarrow> json \<Rightarrow> bool" where
  "py_eq (JArr xs) y = (case y of
       JArr ys \<Rightarrow> length xs = length ys \<and> list_all (\<lambda>(a, b). py_eq a b) (zip xs ys)
     | _ \<Rightarrow> False)"
| "py_eq (JObj d) y = (case y of
       JObj e \<Rightarrow> length d = length e \<and>
         list_all (\<lambda>(k, v). (case map_of e k of Some w \<Rightarrow> py_eq v w | None \<Rightarrow> False)) d
     | _ \<Rightarrow> False)"
| "py_eq JNull y \<longleftrightarrow> y = JNull"
| "py_eq (JStr s) y \<longleftrightarrow> y = JStr s"
| "py_eq x y = (case (num_val x, num_val y) of (Some a, Some b) \<Rightarrow> f_eq a b | _ \<Rightarrow> False)"

section \<open>Text of values\<close>

fun py_repr :: "json \<Rightarrow> string" where
  "py_repr JNull = ''None''"
| "py_repr (JBool b) = (if b then ''True'' else ''False'')"
| "py_repr (JInt n) = int_str n"
| "py_repr (JFloat x) = float_repr x"
| "py_repr (JStr s) = str_repr s"
| "py_repr (JArr xs) = ''['' @ join '', '' (map py_repr xs) @ '']''"
| "py_repr (JObj d) = ''{'' @ join '', '' (map (\<lambda>(k, v). str_repr k @ '': '' @ py_repr v) d) @ ''}''"

definition py_str :: "json \<Rightarrow> string" where
  "py_str x = (case x of JStr s \<Rightarrow> s | _ \<Rightarrow> py_repr x)"

lemma py_str_JStr [simp]: "py_str (JStr s) = s"
  by (simp add: py_str_def)

section \<open>JSON text\<close>

text \<open>\<open>json.dumps(sort_keys=True)\<close> lists the keys of every object in order.\<close>

fun sort_json :: "json \<Rightarrow> json" where
  "sort_json (JArr xs) = JArr (map sort_json xs)"
| "sort_json (JObj d) = JObj (sort_key fst (map (\<lambda>(k, v). (k, sort_json v)) d))"
| "sort_json x = x"

fun json_float :: "pyfloat \<Rightarrow> string" where
  "json_float NaN = ''NaN''"
| "json_float PInf = ''Infinity''"
| "json_float NInf = ''-Infinity''"
| "json_float x = float_repr x"

text \<open>\<open>json.dumps(x, ensure_ascii=False, separators=(isep, ksep))\<close>.\<close>

fun dumps :: "string \<Rightarrow> string \<Rightarrow> json \<Rightarrow> string" where
  "dumps isep ksep JNull = ''null''"
| "dumps isep ksep (JBool b) = (if b then ''true'' else ''false'')"
| "dumps isep ksep (JInt n) = int_str n"
| "dumps isep ksep (JFloat x) = json_float x"
| "dumps isep ksep (JStr s) = json_quote s"
| "dumps isep ksep (JArr xs) = ''['' @ join isep (map (dumps isep ksep) xs) @ '']''"
| "dumps isep ksep (JObj d) =
     ''{'' @ join isep (map (\<lambda>(k, v). json_quote k @ ksep @ dumps isep ksep v) d) @ ''}''"

abbreviation json_dumps :: "json \<Rightarrow> string" where
  "json_dumps \<equiv> dumps '', '' '': ''"

text \<open>Distinct keys in every object, as \<open>json.loads\<close> returns them.\<close>

fun wf_json :: "json \<Rightarrow> bool" where
  "wf_json (JArr xs) \<longleftrightarrow> list_all wf_json xs"
| "wf_json (JObj d) \<longleftrightarrow> wf_dict d \<and> list_all (\<lambda>(k, v). wf_json v) d"
| "wf_json _ \<longleftrightarrow> True"

lemma map_fst_sort_json: "map fst (map (\<lambda>(k, v). (k, sort_json v)) d) = map fst d"
  by (induction d) auto

lemma distinct_map_sort_key: "distinct (map f (sort_key g xs)) \<longleftrightarrow> distinct (map f xs)"
  by (simp add: distinct_map)

lemma wf_sort_json: "wf_json x \<Longrightarrow> wf_json (sort_json x)"
proof (induction x rule: sort_json.induct)
  case (2 d)
  then have "distinct (map fst (sort_key fst (map (\<lambda>(k, v). (k, sort_json v)) d)))"
    unfolding distinct_map_sort_key map_fst_sort_json by (simp add: wf_dict_def)
  with 2 show ?case by (fastforce simp: wf_dict_def list_all_iff)
qed (auto simp: list_all_iff)

end
