(* ===== verification/Validator.thy ===== *)
theory Validator
  imports Py_Json
begin

text \<open>
  \<open>app/validator.py\<close>: the static validator that runs when a skill is registered. The syntax
  tree of \<open>ast.parse\<close> keeps the node classes the code tests and the children of every node in
  field order; the parser itself is a parameter. \<open>ast.walk\<close> is breadth first.
\<close>

section \<open>Syntax trees\<close>

datatype pyast =
    Name string
  | Attribute pyast string
  | Call pyast "pyast list"
  | FunctionDef string "pyast list"
  | AsyncFunctionDef string "pyast list"
  | Import "pyast list"
  | ImportFrom "pyast list"
  | Global
  | Nonlocal
  | OtherNode string "pyast list"

text \<open>\<open>ast.parse\<close>: the message and line of the \<open>SyntaxError\<close>, or the tree.\<close>

type_synonym parser = "string \<Rightarrow> (string \<times> int option) + pyast"

fun children :: "pyast \<Rightarrow> pyast list" where
  "children (Attribute v _) = [v]"
| "children (Call f args) = f # args"
| "children (FunctionDef _ cs) = cs"
| "children (AsyncFunctionDef _ cs) = cs"
| "children (Import cs) = cs"
| "children (ImportFrom cs) = cs"
| "children (OtherNode _ cs) = cs"
| "children _ = []"

definition forest_size :: "pyast list \<Rightarrow> nat" where
  "forest_size ts = size_list size ts"

lemma forest_size_simps [simp]:
  "forest_size [] = 0"
  "forest_size (t # ts) = Suc (size t) + forest_size ts"
  "forest_size (ts @ us) = forest_size ts + forest_size us"
  by (simp_all add: forest_size_def)

lemma forest_size_children: "forest_size (children t) \<le> size t"
  by (cases t) (auto simp: forest_size_def)

text \<open>\<open>ast.walk\<close>: a queue, popped at the left and extended at the right with the children.\<close>

function walk_queue :: "pyast list \<Rightarrow> pyast list" where
  "walk_queue [] = []"
| "walk_queue (t # q) = t # walk_queue (q @ children t)"
  by pat_completeness auto
termination
  by (relation "measure forest_size") (auto simp: forest_size_children le_imp_less_Suc)

definition walk :: "pyast \<Rightarrow> pyast list" where
  "walk t = walk_queue [t]"

text \<open>The nodes of a tree, by structural recursion.\<close>

lemma size_in_list: "c \<in> set cs \<Longrightarrow> size c < size_list size cs" for c :: pyast
  by (induction cs) auto

lemma size_in_children [termination_simp]: "c \<in> set (children t) \<Longrightarrow> size c < size t"
proof -
  assume "c \<in> set (children t)"
  then have "size c < forest_size (children t)"
    unfolding forest_size_def by (rule size_in_list)
  then show ?thesis using forest_size_children [of t] by simp
qed

fun nodes :: "pyast \<Rightarrow> pyast set" where
  "nodes t = insert t (\<Union>c \<in> set (children t). nodes c)"

declare nodes.simps [simp del]

lemma nodes_unfold: "nodes t = insert t (\<Union>c \<in> set (children t). nodes c)"
  by (rule nodes.simps)

lemma set_walk_queue: "set (walk_queue ts) = (\<Union>t \<in> set ts. nodes t)"
proof (induction ts rule: walk_queue.induct)
  case (2 t q)
  have "(\<Union>u \<in> set (t # q). nodes u) = nodes t \<union> (\<Union>u \<in> set q. nodes u)" by simp
  with 2 nodes_unfold [of t] show ?case by auto
qed simp

lemma set_walk: "set (walk t) = nodes t"
  unfolding walk_def set_walk_queue by simp

section \<open>The validator\<close>

definition forbidden_call_names :: "string list" where
  "forbidden_call_names =
     [''eval'', ''exec'', ''compile'', ''open'', ''input'', ''__import__'', ''breakpoint'']"

definition forbidden_attribute_calls :: "string list" where
  "forbidden_attribute_calls =
     [''os.system'', ''os.popen'', ''subprocess.call'', ''subprocess.run'', ''subprocess.Popen'',
      ''shutil.rmtree'', ''pathlib.Path.unlink'', ''pathlib.Path.write_text'',
      ''pathlib.Path.write_bytes'']"

definition suspicious_terms :: "string list" where
  "suspicious_terms =
     [''place_order'', ''submit_order'', ''create_order'', ''cancel_order'', ''send_order'',
      ''broker_order'', ''alpaca'']"

text \<open>\<open>_call_name\<close>: the dotted name of a callee; an unnamed parent is dropped.\<close>

fun call_name :: "pyast \<Rightarrow> string option" where
  "call_name (Name i) = Some i"
| "call_name (Attribute v a) = (case call_name v of
       Some p \<Rightarrow> if p = [] then Some a else Some (p @ ''.'' @ a)
     | None \<Rightarrow> Some a)"
| "call_name _ = None"

definition contains_trading_side_effect_name :: "string list \<Rightarrow> bool" where
  "contains_trading_side_effect_name names \<longleftrightarrow>
     list_ex (\<lambda>n. List.member suspicious_terms (lower n)) names"

text \<open>What the loop appends to \<open>errors\<close> for one node, in the order of its tests.\<close>

fun forbidden_node :: "pyast \<Rightarrow> string option" where
  "forbidden_node (Import _) = Some ''Import''"
| "forbidden_node (ImportFrom _) = Some ''ImportFrom''"
| "forbidden_node Global = Some ''Global''"
| "forbidden_node Nonlocal = Some ''Nonlocal''"
| "forbidden_node _ = None"

fun function_name_of :: "pyast \<Rightarrow> string option" where
  "function_name_of (FunctionDef n _) = Some n"
| "function_name_of (AsyncFunctionDef n _) = Some n"
| "function_name_of _ = None"

definition call_errors :: "pyast \<Rightarrow> string list" where
  "call_errors f = (case call_name f of
       None \<Rightarrow> []
     | Some c \<Rightarrow>
         (if List.member forbidden_call_names c then [''forbidden_call: '' @ c] else [])
         @ (if List.member forbidden_attribute_calls c
            then [''forbidden_attribute_call: '' @ c] else []))"

definition node_errors :: "pyast \<Rightarrow> string list" where
  "node_errors t =
     (case forbidden_node t of Some k \<Rightarrow> [''forbidden_ast_node: '' @ k] | None \<Rightarrow> [])
     @ (case function_name_of t of
          Some n \<Rightarrow> if startswith n ''__'' then [''forbidden_dunder_function: '' @ n] else []
        | None \<Rightarrow> [])
     @ (case t of Call f _ \<Rightarrow> call_errors f | _ \<Rightarrow> [])
     @ (case t of Name i \<Rightarrow> if startswith i ''__'' then [''forbidden_dunder_name: '' @ i] else []
        | _ \<Rightarrow> [])"

definition function_names :: "pyast list \<Rightarrow> string list" where
  "function_names ts = concat (map (\<lambda>t. case function_name_of t of Some n \<Rightarrow> [n] | None \<Rightarrow> []) ts)"

record validation_result =
  vr_approved :: bool
  vr_errors :: "string list"
  vr_warnings :: "string list"

definition lineno_text :: "int option \<Rightarrow> string" where
  "lineno_text l = (case l of None \<Rightarrow> ''None'' | Some n \<Rightarrow> int_str n)"

definition tree_errors :: "pyast \<Rightarrow> string list" where
  "tree_errors tree =
     concat (map node_errors (walk tree))
     @ (if function_names (walk tree) = [] then [''skill_must_define_at_least_one_function'']
        else [])"

text \<open>\<open>SafeSkillValidator.validate\<close>.\<close>

definition validate_skill :: "parser \<Rightarrow> string \<Rightarrow> validation_result" where
  "validate_skill parse code = (case parse code of
       Inl (msg, l) \<Rightarrow>
         \<lparr>vr_approved = False, vr_errors = [''syntax_error: '' @ msg @ '' at line '' @ lineno_text l],
          vr_warnings = []\<rparr>
     | Inr tree \<Rightarrow>
         (let errors = tree_errors tree;
              warnings = (if contains_trading_side_effect_name (function_names (walk tree))
                then [''skill_function_name_mentions_order_or_broker; keep skills signal-only and broker-free'']
                else [])
          in \<lparr>vr_approved = (errors = []), vr_errors = sort (remdups errors), vr_warnings = warnings\<rparr>))"

section \<open>What an approved skill guarantees\<close>

text \<open>The static rules, stated on the nodes of the tree.\<close>

definition safe_node :: "pyast \<Rightarrow> bool" where
  "safe_node t \<longleftrightarrow>
     forbidden_node t = None \<and>
     (\<forall>n. function_name_of t = Some n \<longrightarrow> \<not> startswith n ''__'') \<and>
     (\<forall>f args c. t = Call f args \<longrightarrow> call_name f = Some c \<longrightarrow>
        c \<notin> set forbidden_call_names \<and> c \<notin> set forbidden_attribute_calls) \<and>
     (\<forall>i. t = Name i \<longrightarrow> \<not> startswith i ''__'')"

definition statically_safe :: "parser \<Rightarrow> string \<Rightarrow> bool" where
  "statically_safe parse code \<longleftrightarrow> (\<exists>tree. parse code = Inr tree \<and>
     (\<forall>t \<in> nodes tree. safe_node t) \<and> (\<exists>t \<in> nodes tree. function_name_of t \<noteq> None))"

lemma node_errors_Nil: "node_errors t = [] \<longleftrightarrow> safe_node t"
  by (cases t) (auto simp: node_errors_def safe_node_def call_errors_def split: option.splits)

lemma function_names_Nil: "function_names ts = [] \<longleftrightarrow> (\<forall>t \<in> set ts. function_name_of t = None)"
  by (auto simp: function_names_def split: option.splits)

lemma tree_errors_Nil:
  "tree_errors tree = [] \<longleftrightarrow>
     (\<forall>t \<in> nodes tree. safe_node t) \<and> (\<exists>t \<in> nodes tree. function_name_of t \<noteq> None)"
  by (auto simp: tree_errors_def function_names_Nil node_errors_Nil simp flip: set_walk)

lemma vr_approved_iff: "vr_approved (validate_skill parse code) \<longleftrightarrow> statically_safe parse code"
  by (auto simp: validate_skill_def statically_safe_def tree_errors_Nil Let_def split: sum.splits)

lemma vr_errors_approved:
  "vr_approved (validate_skill parse code) \<longleftrightarrow> vr_errors (validate_skill parse code) = []"
proof -
  have "sort (remdups xs) = [] \<longleftrightarrow> xs = []" for xs :: "string list"
    by (metis remdups_eq_nil_iff set_empty set_sort)
  then show ?thesis by (auto simp: validate_skill_def Let_def split: sum.splits)
qed

lemma vr_errors_sorted:
  "sorted (vr_errors (validate_skill parse code)) \<and> distinct (vr_errors (validate_skill parse code))"
  by (auto simp: validate_skill_def Let_def split: sum.splits)

section \<open>Property\<close>

text \<open>C17. The validator decides the static rules: it approves a text exactly if it parses, defines a
  function and no node of its tree is an import, a global or nonlocal statement, a forbidden call or
  a dunder name; it gives reasons exactly when it refuses, sorted and each once.\<close>

theorem validator_decides:
  "(vr_approved (validate_skill parse code) \<longleftrightarrow> statically_safe parse code) \<and>
   (vr_errors (validate_skill parse code) = [] \<longleftrightarrow> statically_safe parse code) \<and>
   sorted (vr_errors (validate_skill parse code)) \<and> distinct (vr_errors (validate_skill parse code))"
  using vr_approved_iff vr_errors_approved vr_errors_sorted by blast

end
