(* ===== verification/Registry.thy ===== *)
theory Registry
  imports Validator
begin

text \<open>
  \<open>app/registry.py\<close> and the request and response models of \<open>app/models.py\<close>: the SQLite table
  \<open>skills\<close> as the list of its rows in insertion order, and every method of \<open>SkillRegistry\<close> as
  a function on it. A method that raises returns the exception and the unchanged table.
  SHA-256, \<open>ast.parse\<close>, \<open>uuid4\<close> and the clock are parameters: a method that reads the clock
  several times gets its readings, in order, as \<open>clk 0, clk 1, \<dots>\<close> (microseconds).
\<close>

section \<open>Rows, records and requests\<close>

datatype validation = Validated | Rejected

datatype approval = Draft | Approved | Deprecated

datatype stage = Candidate | Shadow | Challenger | Champion | Degraded | Quarantined | Retired

fun validation_text :: "validation \<Rightarrow> string" where
  "validation_text Validated = ''validated''"
| "validation_text Rejected = ''rejected''"

fun approval_text :: "approval \<Rightarrow> string" where
  "approval_text Draft = ''draft''"
| "approval_text Approved = ''approved''"
| "approval_text Deprecated = ''deprecated''"

fun stage_text :: "stage \<Rightarrow> string" where
  "stage_text Candidate = ''candidate''"
| "stage_text Shadow = ''shadow''"
| "stage_text Challenger = ''challenger''"
| "stage_text Champion = ''champion''"
| "stage_text Degraded = ''degraded''"
| "stage_text Quarantined = ''quarantined''"
| "stage_text Retired = ''retired''"

definition deployment_stages :: "stage list" where
  "deployment_stages =
     [Candidate, Shadow, Challenger, Champion, Degraded, Quarantined, Retired]"

text \<open>\<open>deployment_stage not in DEPLOYMENT_STAGES\<close> is \<open>None\<close>.\<close>

definition parse_stage :: "string \<Rightarrow> stage option" where
  "parse_stage s = find (\<lambda>g. stage_text g = s) deployment_stages"

lemma parse_stage_text [simp]: "parse_stage (stage_text g) = Some g"
  by (cases g) (simp_all add: parse_stage_def deployment_stages_def)

lemma parse_stage_Some: "parse_stage s = Some g \<longleftrightarrow> s = stage_text g"
  by (auto simp: parse_stage_def find_Some_iff)
    (metis parse_stage_def parse_stage_text find_Some_iff)

record lifecycle_note =
  note_action :: string
  note_actor :: string
  note_reason :: "string option"
  note_time :: int

text \<open>One row of the table; \<open>skill_family_id\<close> may be NULL in a database of an older version.\<close>

record skill_row =
  row_id :: string
  row_family :: "string option"
  row_version :: string
  row_parent :: "string option"
  row_stage :: stage
  row_immutable :: bool
  row_name :: string
  row_description :: string
  row_code :: string
  row_hash :: string
  row_tags :: "string list"
  row_context :: dict
  row_input_schema :: dict
  row_output_schema :: dict
  row_source :: "string option"
  row_validation :: validation
  row_approval :: approval
  row_errors :: "string list"
  row_notes :: "lifecycle_note list"
  row_created :: int
  row_updated :: int

type_synonym registry = "skill_row list"

text \<open>\<open>SkillRecord\<close> and \<open>SkillDetail\<close>.\<close>

record skill_record =
  sk_id :: string
  sk_family :: string
  sk_version :: string
  sk_parent :: "string option"
  sk_stage :: stage
  sk_immutable :: bool
  sk_name :: string
  sk_description :: string
  sk_hash :: string
  sk_tags :: "string list"
  sk_context :: dict
  sk_input_schema :: dict
  sk_output_schema :: dict
  sk_source :: "string option"
  sk_validation :: validation
  sk_approval :: approval
  sk_errors :: "string list"
  sk_notes :: "lifecycle_note list"
  sk_created :: int
  sk_updated :: int

record skill_detail = skill_record +
  sk_code :: string

record create_request =
  cr_id :: "string option"
  cr_family :: "string option"
  cr_version :: string
  cr_parent :: "string option"
  cr_stage :: stage
  cr_name :: string
  cr_description :: string
  cr_code :: string
  cr_tags :: "string list"
  cr_context :: dict
  cr_input_schema :: dict
  cr_output_schema :: dict
  cr_source :: "string option"

record version_request =
  vq_version :: string
  vq_code :: string
  vq_description :: "string option"
  vq_tags :: "string list option"
  vq_context :: "dict option"
  vq_input_schema :: "dict option"
  vq_output_schema :: "dict option"
  vq_source :: "string option"

text \<open>The \<open>Field\<close> constraints of the two request models.\<close>

definition len_in :: "nat \<Rightarrow> nat \<Rightarrow> string \<Rightarrow> bool" where
  "len_in lo hi s \<longleftrightarrow> lo \<le> length s \<and> length s \<le> hi"

definition opt_len_in :: "nat \<Rightarrow> nat \<Rightarrow> string option \<Rightarrow> bool" where
  "opt_len_in lo hi x \<longleftrightarrow> (case x of None \<Rightarrow> True | Some s \<Rightarrow> len_in lo hi s)"

definition create_request_ok :: "create_request \<Rightarrow> bool" where
  "create_request_ok q \<longleftrightarrow>
     opt_len_in 1 120 (cr_id q) \<and> opt_len_in 1 120 (cr_family q) \<and> len_in 1 40 (cr_version q) \<and>
     opt_len_in 1 120 (cr_parent q) \<and> len_in 1 120 (cr_name q) \<and>
     len_in 1 2000 (cr_description q) \<and> cr_code q \<noteq> [] \<and> opt_len_in 0 120 (cr_source q)"

definition version_request_ok :: "version_request \<Rightarrow> bool" where
  "version_request_ok q \<longleftrightarrow>
     len_in 1 40 (vq_version q) \<and> vq_code q \<noteq> [] \<and> opt_len_in 1 2000 (vq_description q) \<and>
     opt_len_in 0 120 (vq_source q)"

section \<open>Reading the table\<close>

text \<open>The parameters of the registry: the parser and the hash.\<close>

record reg_env =
  env_parse :: parser
  env_sha256 :: "string \<Rightarrow> string"

definition code_hash :: "reg_env \<Rightarrow> string \<Rightarrow> string" where
  "code_hash env c = env_sha256 env c"

text \<open>\<open>_json_load(_json_dump(d)) or {}\<close>: a JSON column comes back with its keys sorted.\<close>

definition json_column :: "dict \<Rightarrow> dict" where
  "json_column d = obj_or_empty (sort_json (JObj d))"

definition to_record :: "skill_row \<Rightarrow> skill_record" where
  "to_record r =
     \<lparr>sk_id = row_id r, sk_family = str_or (row_family r) (row_id r),
      sk_version = str_or (Some (row_version r)) ''1.0.0'', sk_parent = row_parent r,
      sk_stage = row_stage r, sk_immutable = row_immutable r, sk_name = row_name r,
      sk_description = row_description r, sk_hash = row_hash r, sk_tags = row_tags r,
      sk_context = row_context r, sk_input_schema = row_input_schema r,
      sk_output_schema = row_output_schema r, sk_source = row_source r,
      sk_validation = row_validation r, sk_approval = row_approval r, sk_errors = row_errors r,
      sk_notes = row_notes r, sk_created = row_created r, sk_updated = row_updated r\<rparr>"

definition to_detail :: "skill_row \<Rightarrow> skill_detail" where
  "to_detail r = skill_record.extend (to_record r) (skill_detail.fields (row_code r))"

definition find_row :: "registry \<Rightarrow> string \<Rightarrow> skill_row option" where
  "find_row rows i = find (\<lambda>r. row_id r = i) rows"

text \<open>\<open>SkillRegistry.get\<close>.\<close>

definition get :: "registry \<Rightarrow> string \<Rightarrow> skill_detail res" where
  "get rows i = (case find_row rows i of None \<Rightarrow> Inl (KeyError i) | Some r \<Rightarrow> Inr (to_detail r))"

text \<open>
  \<open>SkillRegistry.list\<close>: an absent or empty filter does not restrict; \<open>ORDER BY created_at DESC\<close>
  (rows of the same instant in insertion order); the tag is compared in lower case.
\<close>

record list_query =
  lq_tag :: "string option"
  lq_validation :: "string option"
  lq_approval :: "string option"
  lq_family :: "string option"
  lq_stage :: "string option"

definition any_query :: list_query where
  "any_query = \<lparr>lq_tag = None, lq_validation = None, lq_approval = None, lq_family = None,
     lq_stage = None\<rparr>"

definition matches :: "string option \<Rightarrow> string option \<Rightarrow> bool" where
  "matches wanted column \<longleftrightarrow> (str_true wanted \<longrightarrow> column = wanted)"

definition row_selected :: "list_query \<Rightarrow> skill_row \<Rightarrow> bool" where
  "row_selected q r \<longleftrightarrow>
     matches (lq_validation q) (Some (validation_text (row_validation r))) \<and>
     matches (lq_approval q) (Some (approval_text (row_approval r))) \<and>
     matches (lq_family q) (row_family r) \<and>
     matches (lq_stage q) (Some (stage_text (row_stage r)))"

definition tag_selected :: "string option \<Rightarrow> skill_record \<Rightarrow> bool" where
  "tag_selected t k \<longleftrightarrow> (case t of
       None \<Rightarrow> True
     | Some s \<Rightarrow> s = [] \<or> strip (lower s) \<in> lower ` set (sk_tags k))"

definition list_skills :: "list_query \<Rightarrow> registry \<Rightarrow> skill_record list" where
  "list_skills q rows =
     filter (tag_selected (lq_tag q))
       (map to_record (sort_key (\<lambda>r. - row_created r) (filter (row_selected q) rows)))"

text \<open>\<open>SkillRegistry.search\<close>.\<close>

definition search_hit :: "string \<Rightarrow> skill_record \<Rightarrow> bool" where
  "search_hit s k \<longleftrightarrow>
     contains s (lower (sk_name k)) \<or> contains s (lower (sk_description k)) \<or>
     contains s (lower (sk_version k)) \<or> contains s (lower (sk_family k)) \<or>
     list_ex (\<lambda>t. contains s (lower t)) (sk_tags k) \<or>
     contains s (lower (json_dumps (JObj (sk_context k))))"

definition search :: "string \<Rightarrow> string option \<Rightarrow> registry \<Rightarrow> skill_record list" where
  "search query approval rows =
     (let lowered = strip (lower query); candidates = list_skills (any_query\<lparr>lq_approval := approval\<rparr>) rows
      in if lowered = [] then candidates else filter (search_hit lowered) candidates)"

section \<open>Writing the table\<close>

text \<open>
  \<open>SkillRegistry.register\<close>: an existing skill is returned if its code is the same and refused
  otherwise; so is an existing version of the family; the parent, if given, must be of the same
  family; then a draft row is inserted.
\<close>

definition find_version :: "registry \<Rightarrow> string \<Rightarrow> string \<Rightarrow> skill_row option" where
  "find_version rows family ver =
     find (\<lambda>r. row_family r = Some family \<and> row_version r = ver) rows"

definition parent_error :: "registry \<Rightarrow> string option \<Rightarrow> string \<Rightarrow> exn option" where
  "parent_error rows p family =
     (if \<not> str_true p then None
      else (case find_row rows (the p) of
          None \<Rightarrow> Some (ValueError ''parent_skill_not_found'')
        | Some q \<Rightarrow> if row_family q \<noteq> Some family
            then Some (ValueError ''parent_skill_family_mismatch'') else None))"

definition new_row :: "reg_env \<Rightarrow> string \<Rightarrow> string \<Rightarrow> int \<Rightarrow> create_request \<Rightarrow> skill_row" where
  "new_row env i family now q =
     (let v = validate_skill (env_parse env) (cr_code q) in
      \<lparr>row_id = i, row_family = Some family, row_version = cr_version q, row_parent = cr_parent q,
       row_stage = cr_stage q, row_immutable = False, row_name = cr_name q,
       row_description = cr_description q, row_code = cr_code q,
       row_hash = code_hash env (cr_code q), row_tags = cr_tags q,
       row_context = json_column (cr_context q), row_input_schema = json_column (cr_input_schema q),
       row_output_schema = json_column (cr_output_schema q), row_source = cr_source q,
       row_validation = (if vr_approved v then Validated else Rejected), row_approval = Draft,
       row_errors = vr_errors v @ map (\<lambda>w. ''warning: '' @ w) (vr_warnings v),
       row_notes = [], row_created = now, row_updated = now\<rparr>)"

definition register :: "reg_env \<Rightarrow> string \<Rightarrow> int \<Rightarrow> create_request \<Rightarrow> registry
    \<Rightarrow> skill_detail res \<times> registry" where
  "register env uuid now q rows =
     (let i = str_or (cr_id q) uuid; family = str_or (cr_family q) i;
          h = code_hash env (cr_code q)
      in case find_row rows i of
          Some r \<Rightarrow>
            (if row_hash r \<noteq> h then (Inl (ValueError ''immutable_skill_id_code_hash_mismatch''), rows)
             else (Inr (to_detail r), rows))
        | None \<Rightarrow>
            (case find_version rows family (cr_version q) of
                Some r \<Rightarrow>
                  (if row_hash r \<noteq> h
                   then (Inl (ValueError ''skill_family_version_already_exists_with_different_code''), rows)
                   else (get rows (row_id r), rows))
              | None \<Rightarrow>
                  (case parent_error rows (cr_parent q) family of
                      Some e \<Rightarrow> (Inl e, rows)
                    | None \<Rightarrow>
                        (let rows' = rows @ [new_row env i family now q] in (get rows' i, rows')))))"

text \<open>
  \<open>SkillRegistry.create_version\<close>: a candidate of the parent's family; building the request
  validates it, and a failed validation is a \<open>ValueError\<close>.
\<close>

definition version_create_request :: "skill_detail \<Rightarrow> version_request \<Rightarrow> create_request" where
  "version_create_request p q =
     \<lparr>cr_id = None, cr_family = Some (sk_family p), cr_version = vq_version q,
      cr_parent = Some (sk_id p), cr_stage = Candidate, cr_name = sk_name p,
      cr_description = str_or (vq_description q) (sk_description p), cr_code = vq_code q,
      cr_tags = (case vq_tags q of None \<Rightarrow> sk_tags p | Some t \<Rightarrow> t),
      cr_context = (case vq_context q of None \<Rightarrow> sk_context p | Some c \<Rightarrow> c),
      cr_input_schema = (case vq_input_schema q of None \<Rightarrow> sk_input_schema p | Some c \<Rightarrow> c),
      cr_output_schema = (case vq_output_schema q of None \<Rightarrow> sk_output_schema p | Some c \<Rightarrow> c),
      cr_source = opt_or (vq_source q) (sk_source p)\<rparr>"

definition create_version :: "reg_env \<Rightarrow> string \<Rightarrow> int \<Rightarrow> string \<Rightarrow> version_request \<Rightarrow> registry
    \<Rightarrow> skill_detail res \<times> registry" where
  "create_version env uuid now parent q rows =
     (case get rows parent of
         Inl e \<Rightarrow> (Inl e, rows)
       | Inr p \<Rightarrow>
           (let c = version_create_request p q in
            if create_request_ok c then register env uuid now c rows
            else (Inl (ValueError ''validation_error''), rows)))"

definition make_note :: "string \<Rightarrow> string option \<Rightarrow> string option \<Rightarrow> int \<Rightarrow> lifecycle_note" where
  "make_note action actor reason now =
     \<lparr>note_action = action, note_actor = str_or actor ''system'', note_reason = reason,
      note_time = now\<rparr>"

text \<open>
  \<open>_transition\<close>: every column not given keeps its value; the note is appended; all rows with the
  id are updated (there is one).
\<close>

record change =
  ch_approval :: "approval option"
  ch_stage :: "stage option"
  ch_immutable :: "bool option"

definition update_row :: "change \<Rightarrow> lifecycle_note \<Rightarrow> int \<Rightarrow> skill_row \<Rightarrow> skill_row" where
  "update_row c n now r =
     r\<lparr>row_approval := (case ch_approval c of None \<Rightarrow> row_approval r | Some a \<Rightarrow> a),
       row_stage := (case ch_stage c of None \<Rightarrow> row_stage r | Some g \<Rightarrow> g),
       row_immutable := (case ch_immutable c of None \<Rightarrow> row_immutable r | Some b \<Rightarrow> b),
       row_notes := row_notes r @ [n], row_updated := now\<rparr>"

definition update_where :: "string \<Rightarrow> (skill_row \<Rightarrow> skill_row) \<Rightarrow> registry \<Rightarrow> registry" where
  "update_where i f rows = map (\<lambda>r. if row_id r = i then f r else r) rows"

definition transition :: "string \<Rightarrow> change \<Rightarrow> lifecycle_note \<Rightarrow> int \<Rightarrow> registry
    \<Rightarrow> skill_detail res \<times> registry" where
  "transition i c n now rows =
     (case get rows i of
         Inl e \<Rightarrow> (Inl e, rows)
       | Inr _ \<Rightarrow> (let rows' = update_where i (update_row c n now) rows in (get rows' i, rows')))"

definition no_change :: change where
  "no_change = \<lparr>ch_approval = None, ch_stage = None, ch_immutable = None\<rparr>"

definition approve :: "string \<Rightarrow> string option \<Rightarrow> string option \<Rightarrow> (nat \<Rightarrow> int) \<Rightarrow> registry
    \<Rightarrow> skill_detail res \<times> registry" where
  "approve i actor reason clk rows =
     (case get rows i of
         Inl e \<Rightarrow> (Inl e, rows)
       | Inr k \<Rightarrow>
           if sk_validation k \<noteq> Validated
           then (Inl (ValueError ''only_validated_skills_can_be_approved''), rows)
           else transition i (no_change\<lparr>ch_approval := Some Approved, ch_immutable := Some True\<rparr>)
                  (make_note ''approved'' actor reason (clk 0)) (clk 1) rows)"

definition deprecate :: "string \<Rightarrow> string option \<Rightarrow> string option \<Rightarrow> (nat \<Rightarrow> int) \<Rightarrow> registry
    \<Rightarrow> skill_detail res \<times> registry" where
  "deprecate i actor reason clk rows =
     (case get rows i of
         Inl e \<Rightarrow> (Inl e, rows)
       | Inr _ \<Rightarrow>
           transition i \<lparr>ch_approval = Some Deprecated, ch_stage = Some Retired, ch_immutable = Some True\<rparr>
             (make_note ''deprecated'' actor reason (clk 0)) (clk 1) rows)"

text \<open>The loop of \<open>promote\<close> over the other champions of the family; it stops at an exception.\<close>

definition other_champions :: "registry \<Rightarrow> string \<Rightarrow> string \<Rightarrow> string list" where
  "other_champions rows family i =
     map row_id (filter (\<lambda>r. row_family r = Some family \<and> row_stage r = Champion \<and> row_id r \<noteq> i) rows)"

definition replaced_note :: "string \<Rightarrow> string option \<Rightarrow> string option \<Rightarrow> int \<Rightarrow> lifecycle_note" where
  "replaced_note i actor reason now =
     make_note ''champion_replaced'' actor
       (Some (strip (''replaced_by='' @ i @ ''; '' @ str_or reason []))) now"

fun retire_all :: "string \<Rightarrow> string option \<Rightarrow> string option \<Rightarrow> (nat \<Rightarrow> int) \<Rightarrow> nat \<Rightarrow> string list
    \<Rightarrow> registry \<Rightarrow> exn option \<times> registry" where
  "retire_all i actor reason clk t [] rows = (None, rows)"
| "retire_all i actor reason clk t (j # js) rows =
     (case transition j (no_change\<lparr>ch_stage := Some Retired\<rparr>)
         (replaced_note i actor reason (clk t)) (clk (t + 1)) rows of
         (Inl e, rows') \<Rightarrow> (Some e, rows')
       | (Inr _, rows') \<Rightarrow> retire_all i actor reason clk (t + 2) js rows')"

text \<open>\<open>SkillRegistry.promote\<close>.\<close>

definition deployable :: "stage \<Rightarrow> skill_detail \<Rightarrow> bool" where
  "deployable g k \<longleftrightarrow> g \<in> {Candidate, Retired} \<or> sk_validation k = Validated \<and> sk_approval k = Approved"

definition promote :: "string \<Rightarrow> string \<Rightarrow> string option \<Rightarrow> string option \<Rightarrow> (nat \<Rightarrow> int) \<Rightarrow> registry
    \<Rightarrow> skill_detail res \<times> registry" where
  "promote i target actor reason clk rows =
     (case parse_stage target of
         None \<Rightarrow> (Inl (ValueError ''invalid_deployment_stage''), rows)
       | Some g \<Rightarrow>
     (case get rows i of
         Inl e \<Rightarrow> (Inl e, rows)
       | Inr k \<Rightarrow>
     (if \<not> deployable g k
      then (Inl (ValueError ''only_validated_approved_skills_can_be_deployed''), rows)
      else
       (let js = (if g = Champion then other_champions rows (sk_family k) i else []) in
        case retire_all i actor reason clk 0 js rows of
          (Some e, rows') \<Rightarrow> (Inl e, rows')
        | (None, rows') \<Rightarrow>
            transition i
              (no_change\<lparr>ch_stage := Some g, ch_immutable := Some (sk_immutable k \<or> g \<noteq> Candidate)\<rparr>)
              (make_note (''deployment_stage:'' @ target) actor reason (clk (2 * length js)))
              (clk (2 * length js + 1)) rows'))))"

text \<open>
  \<open>_init_db\<close> on an existing table: missing families are the skill's own id, approved and
  deprecated skills become immutable, and the unique index on family and version is created,
  which fails on a duplicate.
\<close>

definition backfill_row :: "skill_row \<Rightarrow> skill_row" where
  "backfill_row r =
     (let r' = (if \<not> str_true (row_family r) then r\<lparr>row_family := Some (row_id r)\<rparr> else r)
      in if row_approval r' \<in> {Approved, Deprecated} then r'\<lparr>row_immutable := True\<rparr> else r')"

definition version_keys :: "registry \<Rightarrow> (string option \<times> string) list" where
  "version_keys rows = map (\<lambda>r. (row_family r, row_version r)) rows"

definition init_db :: "registry \<Rightarrow> registry res" where
  "init_db rows =
     (let rows' = map backfill_row rows in
      if distinct (version_keys rows') then Inr rows'
      else Inl (IntegrityError ''UNIQUE constraint failed: skills.skill_family_id, skills.version''))"

text \<open>
  A table of an older version lacks some columns; \<open>_ensure_column\<close> adds each with its default, which
  \<open>ALTER TABLE\<close> gives every row. \<open>open_table\<close> is \<open>_init_db\<close> on a table with the columns \<open>cols\<close>: of a
  row only these are read.
\<close>

definition added_columns :: "string list" where
  "added_columns = [''skill_family_id'', ''version'', ''parent_skill_id'', ''deployment_stage'', ''immutable'',
     ''approval_status'', ''lifecycle_notes'']"

definition ensure_columns :: "string list \<Rightarrow> skill_row \<Rightarrow> skill_row" where
  "ensure_columns cols r =
     r\<lparr>row_family := (if ''skill_family_id'' \<in> set cols then row_family r else None),
       row_version := (if ''version'' \<in> set cols then row_version r else ''1.0.0''),
       row_parent := (if ''parent_skill_id'' \<in> set cols then row_parent r else None),
       row_stage := (if ''deployment_stage'' \<in> set cols then row_stage r else Candidate),
       row_immutable := (''immutable'' \<in> set cols \<and> row_immutable r),
       row_approval := (if ''approval_status'' \<in> set cols then row_approval r else Draft),
       row_notes := (if ''lifecycle_notes'' \<in> set cols then row_notes r else [])\<rparr>"

definition open_table :: "string list \<Rightarrow> registry \<Rightarrow> registry res" where
  "open_table cols rows = init_db (map (ensure_columns cols) rows)"

end
