(* ===== verification/Registry_Inv.thy ===== *)
theory Registry_Inv
  imports Registry "HOL-Library.Sublist"
begin

text \<open>
  The registry as a state machine. \<open>reg_step\<close> has one rule per method of \<open>SkillRegistry\<close> that
  writes the table; \<open>reg_inv\<close> is what every step keeps, \<open>reg_le\<close> how a table may grow (rows are
  only appended, and of an existing row only the lifecycle columns change), and \<open>one_champion\<close>
  the uniqueness of the champion of a family.
\<close>

section \<open>Lookup and update\<close>

lemma find_row_Some:
  "find_row rows i = Some r \<Longrightarrow> r \<in> set rows \<and> row_id r = i"
  by (auto simp: find_row_def find_Some_iff)

lemma find_row_None: "find_row rows i = None \<longleftrightarrow> i \<notin> set (map row_id rows)"
  by (auto simp: find_row_def find_None_iff)

lemma find_row_distinct:
  "distinct (map row_id rows) \<Longrightarrow> r \<in> set rows \<Longrightarrow> find_row rows (row_id r) = Some r"
  by (induction rows) (auto simp: find_row_def)

lemma find_row_append:
  "find_row (rows @ rows') i = (case find_row rows i of Some r \<Rightarrow> Some r | None \<Rightarrow> find_row rows' i)"
  by (induction rows) (auto simp: find_row_def)

lemma find_row_single [simp]: "find_row [r] i = (if row_id r = i then Some r else None)"
  by (simp add: find_row_def)

lemma get_Inr: "get rows i = Inr k \<longleftrightarrow> (\<exists>r. find_row rows i = Some r \<and> k = to_detail r)"
  by (auto simp: get_def split: option.splits)

lemma get_Inl: "get rows i = Inl e \<longleftrightarrow> find_row rows i = None \<and> e = KeyError i"
  by (auto simp: get_def split: option.splits)

lemma to_detail_simps [simp]:
  "sk_id (to_detail r) = row_id r"
  "sk_stage (to_detail r) = row_stage r"
  "sk_immutable (to_detail r) = row_immutable r"
  "sk_validation (to_detail r) = row_validation r"
  "sk_approval (to_detail r) = row_approval r"
  "sk_code (to_detail r) = row_code r"
  "sk_hash (to_detail r) = row_hash r"
  "sk_input_schema (to_detail r) = row_input_schema r"
  "sk_output_schema (to_detail r) = row_output_schema r"
  "sk_notes (to_detail r) = row_notes r"
  "sk_parent (to_detail r) = row_parent r"
  "sk_name (to_detail r) = row_name r"
  "sk_family (to_detail r) = str_or (row_family r) (row_id r)"
  by (simp_all add: to_detail_def to_record_def skill_record.defs skill_detail.defs)

lemma update_row_simps [simp]:
  "row_id (update_row c n t r) = row_id r"
  "row_family (update_row c n t r) = row_family r"
  "row_version (update_row c n t r) = row_version r"
  "row_parent (update_row c n t r) = row_parent r"
  "row_code (update_row c n t r) = row_code r"
  "row_hash (update_row c n t r) = row_hash r"
  "row_validation (update_row c n t r) = row_validation r"
  "row_notes (update_row c n t r) = row_notes r @ [n]"
  by (simp_all add: update_row_def)

lemma find_row_update_where:
  "(\<And>r. row_id (f r) = row_id r) \<Longrightarrow>
     find_row (update_where i f rows) j = map_option (\<lambda>r. if row_id r = i then f r else r) (find_row rows j)"
  by (induction rows) (auto simp: update_where_def find_row_def)

lemma transition_eq:
  "transition i c n now rows =
     (case find_row rows i of
        None \<Rightarrow> (Inl (KeyError i), rows)
      | Some r \<Rightarrow> (Inr (to_detail (update_row c n now r)), update_where i (update_row c n now) rows))"
  by (auto simp: transition_def get_def find_row_update_where Let_def dest: find_row_Some
      split: option.split)

section \<open>Steps\<close>

text \<open>
  The parameter \<open>allowed\<close> restricts the stages a registration may ask for; the service itself
  allows every stage.
\<close>

inductive reg_step :: "reg_env \<Rightarrow> (stage \<Rightarrow> bool) \<Rightarrow> registry \<Rightarrow> registry \<Rightarrow> bool"
  for env :: reg_env and allowed :: "stage \<Rightarrow> bool" where
  register_step: "create_request_ok q \<Longrightarrow> allowed (cr_stage q) \<Longrightarrow> uuid \<noteq> [] \<Longrightarrow>
    reg_step env allowed rows (snd (register env uuid now q rows))"
| version_step: "version_request_ok q \<Longrightarrow> uuid \<noteq> [] \<Longrightarrow>
    reg_step env allowed rows (snd (create_version env uuid now p q rows))"
| approve_step: "reg_step env allowed rows (snd (approve i actor reason clk rows))"
| deprecate_step: "reg_step env allowed rows (snd (deprecate i actor reason clk rows))"
| promote_step: "reg_step env allowed rows (snd (promote i g actor reason clk rows))"
| restart_step: "init_db rows = Inr rows' \<Longrightarrow> reg_step env allowed rows rows'"

section \<open>The invariant\<close>

definition row_ok :: "reg_env \<Rightarrow> skill_row \<Rightarrow> bool" where
  "row_ok env r \<longleftrightarrow>
     str_true (row_family r) \<and>
     row_hash r = code_hash env (row_code r) \<and>
     (row_validation r = Validated \<longleftrightarrow> vr_approved (validate_skill (env_parse env) (row_code r))) \<and>
     (row_approval r = Approved \<longrightarrow> row_validation r = Validated) \<and>
     (row_approval r \<noteq> Draft \<longrightarrow> row_immutable r)"

text \<open>A version's parent is an earlier row of the same family, so lineage has no cycle.\<close>

definition lineage_ok :: "registry \<Rightarrow> bool" where
  "lineage_ok rows \<longleftrightarrow> (\<forall>n < length rows. str_true (row_parent (rows ! n)) \<longrightarrow>
     (\<exists>m < n. Some (row_id (rows ! m)) = row_parent (rows ! n) \<and>
       row_family (rows ! m) = row_family (rows ! n)))"

definition reg_inv :: "reg_env \<Rightarrow> registry \<Rightarrow> bool" where
  "reg_inv env rows \<longleftrightarrow>
     distinct (map row_id rows) \<and> distinct (version_keys rows) \<and>
     (\<forall>r \<in> set rows. row_ok env r) \<and> lineage_ok rows"

lemma reg_inv_empty: "reg_inv env []"
  by (simp add: reg_inv_def version_keys_def lineage_ok_def)

text \<open>What the lifecycle columns may become.\<close>

definition change_ok :: "change \<Rightarrow> skill_row \<Rightarrow> bool" where
  "change_ok c r \<longleftrightarrow>
     (ch_approval c = Some Approved \<longrightarrow> row_validation r = Validated) \<and>
     (ch_approval c \<noteq> None \<longrightarrow> ch_immutable c = Some True) \<and>
     (row_immutable r \<longrightarrow> ch_immutable c \<noteq> Some False)"

lemma row_ok_update: "row_ok env r \<Longrightarrow> change_ok c r \<Longrightarrow> row_ok env (update_row c n t r)"
  by (auto simp: row_ok_def change_ok_def update_row_def split: option.splits)

lemma map_update_where:
  "(\<And>r. g (f r) = g r) \<Longrightarrow> map g (update_where i f rows) = map g rows"
  by (simp add: update_where_def)

lemma length_update_where [simp]: "length (update_where i f rows) = length rows"
  by (simp add: update_where_def)

lemma nth_update_where:
  "n < length rows \<Longrightarrow> update_where i f rows ! n = (if row_id (rows ! n) = i then f (rows ! n) else rows ! n)"
  by (simp add: update_where_def)

lemma set_update_where:
  "r' \<in> set (update_where i f rows) \<longleftrightarrow>
     (\<exists>r \<in> set rows. r' = (if row_id r = i then f r else r))"
  by (simp only: update_where_def set_map image_iff)

lemma bex_update_where:
  "(\<exists>r \<in> set (update_where i f rows). P r) \<longleftrightarrow>
     (\<exists>r \<in> set rows. P (if row_id r = i then f r else r))"
  by (auto simp: update_where_def)

lemma lineage_ok_update: "lineage_ok (update_where i (update_row c n t) rows) \<longleftrightarrow> lineage_ok rows"
proof -
  have eq: "row_id (update_where i (update_row c n t) rows ! m) = row_id (rows ! m)"
    "row_family (update_where i (update_row c n t) rows ! m) = row_family (rows ! m)"
    "row_parent (update_where i (update_row c n t) rows ! m) = row_parent (rows ! m)"
    if "m < length rows" for m
    using that by (simp_all add: nth_update_where)
  have "(\<exists>m < k. Some (row_id (update_where i (update_row c n t) rows ! m)) = p \<and>
      row_family (update_where i (update_row c n t) rows ! m) = f) \<longleftrightarrow>
      (\<exists>m < k. Some (row_id (rows ! m)) = p \<and> row_family (rows ! m) = f)"
    if "k < length rows" for k p f
    using that eq by (metis less_trans)
  then show ?thesis by (auto simp: lineage_ok_def eq)
qed

lemma reg_inv_update:
  assumes inv: "reg_inv env rows" and r: "find_row rows i = Some r" and c: "change_ok c r"
  shows "reg_inv env (update_where i (update_row c n t) rows)"
proof -
  have "row_ok env q" if "q \<in> set (update_where i (update_row c n t) rows)" for q
  proof -
    from that obtain q' where q': "q' \<in> set rows" "q = (if row_id q' = i then update_row c n t q' else q')"
      by (auto simp: set_update_where)
    then have "row_id q' = i \<Longrightarrow> q' = r"
      using find_row_distinct [of rows q'] inv r by (auto simp: reg_inv_def)
    with q' c inv show ?thesis by (auto simp: reg_inv_def intro: row_ok_update)
  qed
  with inv show ?thesis
    by (simp add: reg_inv_def version_keys_def map_update_where lineage_ok_update)
qed

lemma reg_inv_transition:
  assumes "reg_inv env rows" and "\<And>r. find_row rows i = Some r \<Longrightarrow> change_ok c r"
  shows "reg_inv env (snd (transition i c n t rows))"
  using assms reg_inv_update by (auto simp: transition_eq split: option.split)

section \<open>Promotion unfolded\<close>

lemma change_ok_retire: "change_ok (no_change\<lparr>ch_stage := Some Retired\<rparr>) r"
  by (simp add: change_ok_def no_change_def)

lemma retire_all_preserves:
  assumes "P rows"
    and "\<And>rows j n t. P rows \<Longrightarrow> P (snd (transition j (no_change\<lparr>ch_stage := Some Retired\<rparr>) n t rows))"
  shows "P (snd (retire_all i actor reason clk t js rows))"
  using assms(1)
proof (induction js arbitrary: t rows)
  case (Cons j js)
  let ?tr = "transition j (no_change\<lparr>ch_stage := Some Retired\<rparr>) (replaced_note i actor reason (clk t))
      (clk (t + 1)) rows"
  have "P (snd ?tr)" by (rule assms(2)) (rule Cons.prems)
  then show ?case using Cons.IH by (auto split: prod.splits sum.splits)
qed simp

lemma retire_all_find:
  "j \<notin> set js \<Longrightarrow> find_row (snd (retire_all i actor reason clk t js rows)) j = find_row rows j"
proof (induction js arbitrary: t rows)
  case (Cons k js)
  have "find_row (snd (transition k c n t rows)) j = find_row rows j" if "k \<noteq> j" for c n t
    using that by (cases "find_row rows j")
      (auto simp: transition_eq find_row_update_where dest: find_row_Some split: option.split)
  with Cons show ?case by (auto split: prod.splits sum.splits) (metis snd_conv)+
qed simp

lemma other_champions_self: "i \<notin> set (other_champions rows family i)"
  by (auto simp: other_champions_def)

text \<open>The outcomes of \<open>promote\<close>: the table is unchanged, or the two phases ran.\<close>

lemma promote_cases:
  obtains e where "promote i target actor reason clk rows = (Inl e, rows)"
  | g k js e rows' where "parse_stage target = Some g" "get rows i = Inr k"
      "js = (if g = Champion then other_champions rows (sk_family k) i else [])"
      "retire_all i actor reason clk 0 js rows = (Some e, rows')"
      "promote i target actor reason clk rows = (Inl e, rows')"
  | g k js rows' n t where "parse_stage target = Some g" "get rows i = Inr k" "deployable g k"
      "js = (if g = Champion then other_champions rows (sk_family k) i else [])"
      "retire_all i actor reason clk 0 js rows = (None, rows')"
      "promote i target actor reason clk rows = transition i
         (no_change\<lparr>ch_stage := Some g, ch_immutable := Some (sk_immutable k \<or> g \<noteq> Candidate)\<rparr>) n t rows'"
proof (cases "parse_stage target")
  case None
  then show ?thesis using that(1) by (simp add: promote_def)
next
  case (Some g)
  note g = this
  show ?thesis
  proof (cases "get rows i")
    case (Inl e)
    then show ?thesis using that(1) g by (simp add: promote_def)
  next
    case (Inr k)
    show ?thesis
    proof (cases "deployable g k")
      case False
      then show ?thesis using that(1) g Inr by (simp add: promote_def)
    next
      case True
      define js where js: "js = (if g = Champion then other_champions rows (sk_family k) i else [])"
      obtain o' rows' where ret: "retire_all i actor reason clk 0 js rows = (o', rows')" by fastforce
      show ?thesis
      proof (cases o')
        case None
        then show ?thesis using that(3) [OF g Inr True js] ret g Inr True
          by (simp add: promote_def Let_def flip: js)
      next
        case (Some e)
        then show ?thesis using that(2) [OF g Inr js] ret g Inr True
          by (simp add: promote_def Let_def flip: js)
      qed
    qed
  qed
qed

lemma promote_preserves:
  assumes "P rows"
    and retire: "\<And>rows j n t. P rows \<Longrightarrow> P (snd (transition j (no_change\<lparr>ch_stage := Some Retired\<rparr>) n t rows))"
    and final: "\<And>rows' g k n t r. P rows' \<Longrightarrow> parse_stage target = Some g \<Longrightarrow> get rows i = Inr k \<Longrightarrow>
      deployable g k \<Longrightarrow> find_row rows' i = find_row rows i \<Longrightarrow>
      P (snd (transition i (no_change\<lparr>ch_stage := Some g,
        ch_immutable := Some (sk_immutable k \<or> g \<noteq> Candidate)\<rparr>) n t rows'))"
  shows "P (snd (promote i target actor reason clk rows))"
proof (cases rule: promote_cases [of i target actor reason clk rows])
  case (2 g k js e rows')
  then show ?thesis
    using retire_all_preserves [of P rows, OF assms(1) retire, of i actor reason clk 0 js] by simp
next
  case (3 g k js rows' n t)
  have P: "P rows'"
    using retire_all_preserves [of P rows, OF assms(1) retire, of i actor reason clk 0 js] 3(5) by simp
  have "i \<notin> set js" by (simp add: 3(4) other_champions_self)
  then have f: "find_row rows' i = find_row rows i"
    using retire_all_find [of i js i actor reason clk 0 rows] 3(5) by simp
  show ?thesis unfolding 3(6) by (rule final [OF P 3(1-3) f])
qed (use assms(1) in simp)

section \<open>Registration\<close>

lemma new_row_simps [simp]:
  "row_id (new_row env i f now q) = i"
  "row_family (new_row env i f now q) = Some f"
  "row_version (new_row env i f now q) = cr_version q"
  "row_parent (new_row env i f now q) = cr_parent q"
  "row_stage (new_row env i f now q) = cr_stage q"
  "row_approval (new_row env i f now q) = Draft"
  "row_code (new_row env i f now q) = cr_code q"
  "row_hash (new_row env i f now q) = code_hash env (cr_code q)"
  "row_immutable (new_row env i f now q) = False"
  by (simp_all add: new_row_def Let_def)

lemma row_ok_new: "f \<noteq> [] \<Longrightarrow> row_ok env (new_row env i f now q)"
  by (simp add: row_ok_def new_row_def Let_def str_true_def)

text \<open>\<open>register\<close> leaves the table unchanged or appends a row that is new in both keys.\<close>

lemma register_cases:
  obtains "snd (register env uuid now q rows) = rows"
  | i family where "i = str_or (cr_id q) uuid" "family = str_or (cr_family q) i"
      "find_row rows i = None" "find_version rows family (cr_version q) = None"
      "parent_error rows (cr_parent q) family = None"
      "register env uuid now q rows =
         (Inr (to_detail (new_row env i family now q)), rows @ [new_row env i family now q])"
proof (cases "snd (register env uuid now q rows) = rows")
  case False
  let ?i = "str_or (cr_id q) uuid"
  let ?f = "str_or (cr_family q) ?i"
  have 1: "find_row rows ?i = None"
    using False by (auto simp: register_def Let_def split: option.splits if_splits)
  moreover have 2: "find_version rows ?f (cr_version q) = None"
    using False 1 by (auto simp: register_def Let_def split: option.splits if_splits)
  moreover have 3: "parent_error rows (cr_parent q) ?f = None"
    using False 1 2 by (auto simp: register_def Let_def split: option.splits if_splits)
  ultimately show ?thesis
    by (intro that(2) [OF refl refl])
      (simp_all add: register_def Let_def get_def find_row_append)
qed (rule that(1))

lemma lineage_ok_snoc:
  assumes "lineage_ok rows"
    and "str_true (row_parent r) \<Longrightarrow>
      \<exists>q \<in> set rows. Some (row_id q) = row_parent r \<and> row_family q = row_family r"
  shows "lineage_ok (rows @ [r])"
  unfolding lineage_ok_def
proof (intro allI impI)
  fix n
  assume n: "n < length (rows @ [r])" and p: "str_true (row_parent ((rows @ [r]) ! n))"
  show "\<exists>m < n. Some (row_id ((rows @ [r]) ! m)) = row_parent ((rows @ [r]) ! n) \<and>
      row_family ((rows @ [r]) ! m) = row_family ((rows @ [r]) ! n)"
  proof (cases "n < length rows")
    case True
    with assms(1) p obtain m where "m < n" "Some (row_id (rows ! m)) = row_parent (rows ! n)"
      "row_family (rows ! m) = row_family (rows ! n)"
      unfolding lineage_ok_def by (auto simp: nth_append)
    with True show ?thesis by (intro exI [of _ m]) (simp add: nth_append)
  next
    case False
    with n have "n = length rows" by simp
    with p assms(2) obtain m where "m < length rows" "Some (row_id (rows ! m)) = row_parent r"
      "row_family (rows ! m) = row_family r"
      by (auto simp: in_set_conv_nth)
    with \<open>n = length rows\<close> show ?thesis by (intro exI [of _ m]) (simp add: nth_append)
  qed
qed

lemma parent_error_None:
  "parent_error rows p family = None \<Longrightarrow> str_true p \<Longrightarrow>
     \<exists>q \<in> set rows. Some (row_id q) = p \<and> row_family q = Some family"
  by (auto simp: parent_error_def str_true_def dest: find_row_Some split: option.splits if_splits)

lemma reg_inv_register:
  assumes "reg_inv env rows" "uuid \<noteq> []"
  shows "reg_inv env (snd (register env uuid now q rows))"
proof (cases rule: register_cases [of env uuid now q rows])
  case (2 i family)
  have "i \<noteq> []" using assms(2) 2(1) by (simp add: str_or_nonempty)
  then have "family \<noteq> []" by (simp add: 2(2) str_or_nonempty)
  have "(Some family, cr_version q) \<notin> set (version_keys rows)"
    using 2(4) by (auto simp: find_version_def find_None_iff version_keys_def)
  moreover have "i \<notin> set (map row_id rows)" using 2(3) find_row_None by metis
  moreover have "lineage_ok (rows @ [new_row env i family now q])"
    using assms(1) parent_error_None [OF 2(5)]
    by (intro lineage_ok_snoc) (auto simp: reg_inv_def)
  ultimately show ?thesis
    using assms(1) \<open>family \<noteq> []\<close>
    by (auto simp: 2(6) reg_inv_def version_keys_def row_ok_new)
qed (use assms in simp)

text \<open>\<open>create_version\<close> is a registration of a candidate, or fails.\<close>

lemma create_version_cases:
  obtains "snd (create_version env uuid now p q rows) = rows"
  | k where "get rows p = Inr k" "create_request_ok (version_create_request k q)"
      "create_version env uuid now p q rows = register env uuid now (version_create_request k q) rows"
proof (cases "get rows p")
  case (Inl e)
  then show ?thesis using that(1) by (simp add: create_version_def)
next
  case (Inr k)
  show ?thesis
  proof (cases "create_request_ok (version_create_request k q)")
    case True
    then show ?thesis using that(2) [OF Inr True] Inr by (simp add: create_version_def Let_def)
  next
    case False
    then show ?thesis using that(1) Inr by (simp add: create_version_def Let_def)
  qed
qed

lemma cr_stage_version [simp]: "cr_stage (version_create_request k q) = Candidate"
  by (simp add: version_create_request_def)

section \<open>Every step keeps the invariant\<close>

lemma approve_eq:
  "approve i actor reason clk rows =
     (case find_row rows i of
        None \<Rightarrow> (Inl (KeyError i), rows)
      | Some r \<Rightarrow> if row_validation r \<noteq> Validated
          then (Inl (ValueError ''only_validated_skills_can_be_approved''), rows)
          else transition i (no_change\<lparr>ch_approval := Some Approved, ch_immutable := Some True\<rparr>)
            (make_note ''approved'' actor reason (clk 0)) (clk 1) rows)"
  by (simp add: approve_def get_def split: option.split)

lemma deprecate_eq:
  "deprecate i actor reason clk rows =
     transition i \<lparr>ch_approval = Some Deprecated, ch_stage = Some Retired, ch_immutable = Some True\<rparr>
       (make_note ''deprecated'' actor reason (clk 0)) (clk 1) rows"
  by (simp add: deprecate_def get_def transition_eq split: option.split)

lemma change_ok_approve:
  "row_validation r = Validated \<Longrightarrow>
     change_ok (no_change\<lparr>ch_approval := Some Approved, ch_immutable := Some True\<rparr>) r"
  by (simp add: change_ok_def no_change_def)

lemma change_ok_deprecate:
  "change_ok \<lparr>ch_approval = Some Deprecated, ch_stage = Some Retired, ch_immutable = Some True\<rparr> r"
  by (simp add: change_ok_def)

lemma change_ok_promote:
  "row_immutable r \<longrightarrow> b \<Longrightarrow> change_ok (no_change\<lparr>ch_stage := g, ch_immutable := Some b\<rparr>) r"
  by (simp add: change_ok_def no_change_def)

text \<open>
  The three lifecycle methods preserve whatever single updates with an admissible change do.
\<close>

lemma lifecycle_preserves:
  assumes P: "P rows"
    and upd: "\<And>rows j c n t r. P rows \<Longrightarrow> find_row rows j = Some r \<Longrightarrow> change_ok c r \<Longrightarrow>
      P (update_where j (update_row c n t) rows)"
  shows "P (snd (approve i actor reason clk rows))"
    and "P (snd (deprecate i actor reason clk rows))"
    and "P (snd (promote i g actor reason clk rows))"
proof -
  have tr: "P (snd (transition j c n t rows'))"
    if "P rows'" "\<And>r. find_row rows' j = Some r \<Longrightarrow> change_ok c r" for rows' j c n t
    using that upd by (auto simp: transition_eq split: option.split)
  show "P (snd (approve i actor reason clk rows))"
  proof (cases "find_row rows i")
    case (Some r)
    have "P (snd (transition i (no_change\<lparr>ch_approval := Some Approved, ch_immutable := Some True\<rparr>)
        n t rows))" if "row_validation r = Validated" for n t
      by (rule tr [OF P]) (use that Some in \<open>simp add: change_ok_approve\<close>)
    with P Some show ?thesis by (simp add: approve_eq)
  qed (use P in \<open>simp add: approve_eq\<close>)
  show "P (snd (deprecate i actor reason clk rows))"
    unfolding deprecate_eq by (rule tr [OF P]) (rule change_ok_deprecate)
  show "P (snd (promote i g actor reason clk rows))"
  proof (rule promote_preserves [of P, OF P])
    show "P (snd (transition j (no_change\<lparr>ch_stage := Some Retired\<rparr>) n t rows))" if "P rows" for rows j n t
      using that by (rule tr) (rule change_ok_retire)
  next
    fix rows' st k n t
    assume *: "P rows'" "get rows i = Inr k" "find_row rows' i = find_row rows i"
    show "P (snd (transition i (no_change\<lparr>ch_stage := Some st,
        ch_immutable := Some (sk_immutable k \<or> st \<noteq> Candidate)\<rparr>) n t rows'))"
      by (rule tr [OF *(1)]) (use *(2,3) in \<open>auto intro: change_ok_promote simp: get_Inr\<close>)
  qed
qed

lemma backfill_simps [simp]:
  "row_id (backfill_row r) = row_id r"
  "row_version (backfill_row r) = row_version r"
  "row_parent (backfill_row r) = row_parent r"
  "row_code (backfill_row r) = row_code r"
  "row_hash (backfill_row r) = row_hash r"
  "row_stage (backfill_row r) = row_stage r"
  "row_approval (backfill_row r) = row_approval r"
  "row_validation (backfill_row r) = row_validation r"
  "row_notes (backfill_row r) = row_notes r"
  by (simp_all add: backfill_row_def Let_def)

text \<open>On a table that satisfies the invariant, a restart changes nothing.\<close>

lemma backfill_row_id: "row_ok env r \<Longrightarrow> backfill_row r = r"
  by (cases "row_approval r") (auto simp: backfill_row_def row_ok_def Let_def)

lemma init_db_id: "reg_inv env rows \<Longrightarrow> init_db rows = Inr rows"
proof -
  assume inv: "reg_inv env rows"
  then have "map backfill_row rows = map id rows"
    by (intro map_cong refl) (auto simp: reg_inv_def intro: backfill_row_id)
  with inv show ?thesis by (simp add: init_db_def reg_inv_def Let_def)
qed

lemma reg_step_inv: "reg_step env allowed rows rows' \<Longrightarrow> reg_inv env rows \<Longrightarrow> reg_inv env rows'"
proof (induction rule: reg_step.induct)
  case (version_step q uuid rows now p)
  then show ?case
    by (cases rule: create_version_cases [of env uuid now p q rows]) (auto intro: reg_inv_register)
next
  case (restart_step rows rows')
  then show ?case by (simp add: init_db_id)
qed (auto intro: reg_inv_register lifecycle_preserves [where P = "reg_inv env"] reg_inv_update)

interpretation reg: invariant_machine "reg_step env allowed" "reg_inv env" for env allowed
  by unfold_locales (rule reg_step_inv)

section \<open>What never changes\<close>

text \<open>
  The columns fixed at registration, and the order on rows and tables that every step respects:
  the lifecycle notes only grow, and a skill never stops being immutable.
\<close>

definition frozen :: "skill_row \<Rightarrow> skill_row" where
  "frozen r = r\<lparr>row_approval := Draft, row_stage := Candidate, row_immutable := False,
     row_notes := [], row_updated := 0\<rparr>"

definition row_le :: "skill_row \<Rightarrow> skill_row \<Rightarrow> bool" where
  "row_le r r' \<longleftrightarrow> frozen r = frozen r' \<and> (row_immutable r \<longrightarrow> row_immutable r') \<and>
     prefix (row_notes r) (row_notes r')"

definition reg_le :: "registry \<Rightarrow> registry \<Rightarrow> bool" where
  "reg_le rows rows' \<longleftrightarrow> (\<forall>i r. find_row rows i = Some r \<longrightarrow>
     (\<exists>r'. find_row rows' i = Some r' \<and> row_le r r'))"

lemma row_le_refl: "row_le r r"
  by (simp add: row_le_def)

lemma row_le_trans: "row_le r s \<Longrightarrow> row_le s t \<Longrightarrow> row_le r t"
  by (auto simp: row_le_def intro: prefix_order.trans)

lemma reg_le_refl: "reg_le rows rows"
  by (auto simp: reg_le_def intro: row_le_refl)

lemma reg_le_trans: "reg_le a b \<Longrightarrow> reg_le b c \<Longrightarrow> reg_le a c"
  unfolding reg_le_def by (meson row_le_trans)

lemma row_le_update: "change_ok c r \<Longrightarrow> row_le r (update_row c n t r)"
  by (auto simp: row_le_def frozen_def update_row_def change_ok_def split: option.split)

lemma reg_le_update:
  assumes "find_row rows j = Some r" "change_ok c r"
  shows "reg_le rows (update_where j (update_row c n t) rows)"
  unfolding reg_le_def
proof (intro allI impI)
  fix i q
  assume q: "find_row rows i = Some q"
  then have "row_id q = j \<Longrightarrow> q = r" using assms(1) find_row_Some [OF q] by auto
  with q assms(2) show "\<exists>r'. find_row (update_where j (update_row c n t) rows) i = Some r' \<and> row_le q r'"
    by (auto simp: find_row_update_where intro: row_le_update row_le_refl)
qed

lemma reg_le_append: "reg_le rows (rows @ rows')"
  by (auto simp: reg_le_def find_row_append intro: row_le_refl)

lemma reg_le_register: "reg_le rows (snd (register env uuid now q rows))"
  by (cases rule: register_cases [of env uuid now q rows]) (simp_all add: reg_le_refl reg_le_append)

lemma reg_le_preserved:
  "reg_le rows0 rows \<Longrightarrow> find_row rows j = Some r \<Longrightarrow> change_ok c r \<Longrightarrow>
     reg_le rows0 (update_where j (update_row c n t) rows)"
  by (blast intro: reg_le_trans reg_le_update)

lemma reg_step_le: "reg_step env allowed rows rows' \<Longrightarrow> reg_inv env rows \<Longrightarrow> reg_le rows rows'"
proof (induction rule: reg_step.induct)
  case (version_step q uuid rows now p)
  then show ?case
    by (cases rule: create_version_cases [of env uuid now p q rows])
      (auto intro: reg_le_register reg_le_refl)
next
  case (restart_step rows rows')
  then show ?case by (simp add: init_db_id reg_le_refl)
qed (auto intro: reg_le_register reg_le_refl
    lifecycle_preserves [where P = "reg_le rows" for rows] reg_le_preserved)

interpretation reg_mono: monotone_machine "reg_step env allowed" "reg_inv env" reg_le for env allowed
  by unfold_locales (blast intro: reg_step_le reg_le_refl reg_le_trans)+

section \<open>Champions\<close>

text \<open>The champions of a family; a registry is in order if no family has two.\<close>

definition champions :: "registry \<Rightarrow> string \<Rightarrow> string list" where
  "champions rows family =
     map row_id (filter (\<lambda>r. row_family r = Some family \<and> row_stage r = Champion) rows)"

definition one_champion :: "registry \<Rightarrow> bool" where
  "one_champion rows \<longleftrightarrow> (\<forall>family. \<forall>i \<in> set (champions rows family). \<forall>j \<in> set (champions rows family). i = j)"

lemma set_champions:
  "j \<in> set (champions rows family) \<longleftrightarrow>
     (\<exists>r \<in> set rows. row_id r = j \<and> row_family r = Some family \<and> row_stage r = Champion)"
  by (auto simp: champions_def)

text \<open>Updating one row to a stage other than champion removes it from every family's champions.\<close>

lemma update_row_stage: "ch_stage c = Some g \<Longrightarrow> row_stage (update_row c n t r) = g"
  by (simp add: update_row_def)

lemma set_champions_update:
  assumes "ch_stage c = Some g" "g \<noteq> Champion"
  shows "set (champions (update_where i (update_row c n t) rows) family) =
    set (champions rows family) - {i}"
  using assms by (auto simp: set_champions bex_update_where update_row_stage split: if_splits)

lemma champions_update_stage:
  assumes c: "ch_stage c = Some Champion" and r: "find_row rows i = Some r"
    and fam: "row_family r = Some family" and d: "distinct (map row_id rows)"
  shows "set (champions (update_where i (update_row c n t) rows) family) =
    insert i (set (champions rows family))"
proof -
  have same: "q = r" if "q \<in> set rows" "row_id q = i" for q
    using find_row_distinct [OF d that(1)] that(2) r by simp
  have r': "r \<in> set rows" "row_id r = i" using find_row_Some [OF r] by simp_all
  show ?thesis
  proof (intro set_eqI)
    fix j
    show "j \<in> set (champions (update_where i (update_row c n t) rows) family) \<longleftrightarrow>
        j \<in> insert i (set (champions rows family))"
    proof (cases "j = i")
      case True
      have "row_id (update_row c n t r) = i \<and> row_family (update_row c n t r) = Some family \<and>
          row_stage (update_row c n t r) = Champion"
        using c r' fam by (simp add: update_row_stage)
      with True r' show ?thesis by (auto simp: set_champions bex_update_where)
    next
      case False
      then show ?thesis by (auto simp: set_champions bex_update_where split: if_splits)
    qed
  qed
qed

lemma champions_update_other:
  assumes r: "find_row rows i = Some r" and fam: "row_family r = Some family" and f: "f \<noteq> family"
    and d: "distinct (map row_id rows)"
  shows "set (champions (update_where i (update_row c n t) rows) f) = set (champions rows f)"
proof -
  have "row_family q \<noteq> Some f" if "q \<in> set rows" "row_id q = i" for q
    using find_row_distinct [OF d that(1)] that(2) r fam f by simp
  then have "row_id q \<noteq> i" if "q \<in> set rows" "row_family q = Some f" for q
    using that by blast
  then show ?thesis by (force simp: set_champions bex_update_where)
qed

text \<open>The loop retires exactly the listed skills.\<close>

lemma set_champions_retire_all:
  "set js \<subseteq> set (map row_id rows) \<Longrightarrow>
     fst (retire_all i actor reason clk t js rows) = None \<and>
     set (champions (snd (retire_all i actor reason clk t js rows)) family) =
       set (champions rows family) - set js \<and>
     map row_id (snd (retire_all i actor reason clk t js rows)) = map row_id rows"
proof (induction js arbitrary: t rows)
  case (Cons j js)
  let ?c = "no_change\<lparr>ch_stage := Some Retired\<rparr>" and ?n = "replaced_note i actor reason (clk t)"
  let ?rows' = "update_where j (update_row ?c ?n (clk (t + 1))) rows"
  obtain r where r: "find_row rows j = Some r"
    using Cons.prems find_row_None by (metis insert_subset list.simps(15) not_Some_eq)
  have ids: "map row_id ?rows' = map row_id rows" by (simp add: map_update_where)
  with Cons.prems have "set js \<subseteq> set (map row_id ?rows')" by (metis insert_subset list.simps(15))
  moreover have "set (champions ?rows' family) = set (champions rows family) - {j}"
    by (rule set_champions_update [where g = Retired]) simp_all
  ultimately show ?case using Cons.IH [of ?rows' "t + 2"] r ids
    by (auto simp: transition_eq)
qed simp

lemma other_champions_champions: "set (other_champions rows family i) = set (champions rows family) - {i}"
  by (auto simp: other_champions_def champions_def)

lemma champions_ids: "set (champions rows family) \<subseteq> set (map row_id rows)"
  by (auto simp: champions_def)

lemma champions_disjoint:
  assumes "distinct (map row_id rows)" "f \<noteq> g"
  shows "set (champions rows f) \<inter> set (champions rows g) = {}"
proof -
  have "r = q" if "r \<in> set rows" "q \<in> set rows" "row_id r = row_id q" for r q
    using that assms(1) by (auto simp: distinct_map inj_on_def)
  then show ?thesis using assms(2) by (fastforce simp: set_champions)
qed

lemma sk_family_row_ok: "row_ok env r \<Longrightarrow> row_family r = Some (sk_family (to_detail r))"
  by (auto simp: row_ok_def str_true_def str_or_def)

lemma champions_append:
  "champions (rows @ rows') family = champions rows family @ champions rows' family"
  by (simp add: champions_def)

text \<open>A successful promotion to champion.\<close>

lemma promote_champion:
  assumes inv: "reg_inv env rows" and get: "get rows i = Inr k" and dep: "deployable Champion k"
  shows "\<exists>k' rows'. promote i ''champion'' actor reason clk rows = (Inr k', rows') \<and>
    sk_stage k' = Champion \<and> sk_family k' = sk_family k \<and>
    set (champions rows' (sk_family k)) = {i} \<and>
    (\<forall>f. f \<noteq> sk_family k \<longrightarrow> set (champions rows' f) = set (champions rows f))"
proof -
  define js where "js = other_champions rows (sk_family k) i"
  obtain o' rows1 where ret: "retire_all i actor reason clk 0 js rows = (o', rows1)" by fastforce
  have "set js \<subseteq> set (map row_id rows)"
    using champions_ids by (fastforce simp: js_def other_champions_champions)
  then have o': "o' = None" and ch1: "set (champions rows1 f) = set (champions rows f) - set js"
    and ids: "map row_id rows1 = map row_id rows" for f
    using set_champions_retire_all [of js rows i actor reason clk 0] ret by auto
  obtain r where r: "find_row rows i = Some r" "k = to_detail r" using get by (auto simp: get_Inr)
  then have ok: "row_ok env r" using inv by (auto simp: reg_inv_def dest: find_row_Some)
  have r1: "find_row rows1 i = Some r"
    using retire_all_find [of i js i actor reason clk 0 rows] ret r
    by (simp add: js_def other_champions_self)
  let ?c = "no_change\<lparr>ch_stage := Some Champion, ch_immutable := Some (sk_immutable k \<or> Champion \<noteq> Candidate)\<rparr>"
  let ?n = "make_note (''deployment_stage:'' @ ''champion'') actor reason (clk (2 * length js))"
  let ?t = "clk (2 * length js + 1)"
  let ?rows2 = "update_where i (update_row ?c ?n ?t) rows1"
  have champ: "parse_stage ''champion'' = Some Champion" by (simp add: parse_stage_def deployment_stages_def)
  let ?k' = "to_detail (update_row ?c ?n ?t r)"
  have res: "promote i ''champion'' actor reason clk rows = (Inr ?k', ?rows2)"
    using get dep ret o' r1 champ by (simp add: promote_def Let_def transition_eq flip: js_def)
  have fam: "row_family r = Some (sk_family k)" using sk_family_row_ok [OF ok] r by simp
  have dist: "distinct (map row_id rows1)" using inv ids by (simp add: reg_inv_def)
  have "set (champions ?rows2 (sk_family k)) = insert i (set (champions rows1 (sk_family k)))"
    by (rule champions_update_stage [OF _ r1 fam dist]) simp
  then have here: "set (champions ?rows2 (sk_family k)) = {i}"
    by (auto simp: ch1 js_def other_champions_champions)
  have there: "set (champions ?rows2 f) = set (champions rows f)" if f: "f \<noteq> sk_family k" for f
  proof -
    have "set (champions rows f) \<inter> set (champions rows (sk_family k)) = {}"
      using inv f by (intro champions_disjoint) (simp_all add: reg_inv_def)
    then have "set (champions rows1 f) = set (champions rows f)"
      by (auto simp: ch1 js_def other_champions_champions)
    moreover have "set (champions ?rows2 f) = set (champions rows1 f)"
      by (rule champions_update_other [OF r1 fam f dist])
    ultimately show ?thesis by simp
  qed
  have "sk_stage ?k' = Champion" by (simp add: update_row_stage)
  moreover have "sk_family ?k' = sk_family k" using r by simp
  ultimately show ?thesis using res here there by blast
qed

lemma one_champion_subset:
  "one_champion rows \<Longrightarrow> (\<And>f. set (champions rows' f) \<subseteq> set (champions rows f)) \<Longrightarrow> one_champion rows'"
  unfolding one_champion_def by blast

lemma set_champions_same:
  "ch_stage c = None \<Longrightarrow> set (champions (update_where i (update_row c n t) rows) f) = set (champions rows f)"
  by (auto simp: set_champions bex_update_where update_row_def split: if_splits)

lemma one_champion_transition:
  assumes "one_champion rows" "ch_stage c \<noteq> Some Champion"
  shows "one_champion (snd (transition i c n t rows))"
proof (cases "find_row rows i")
  case (Some r)
  have "set (champions (update_where i (update_row c n t) rows) f) \<subseteq> set (champions rows f)" for f
    using assms(2) by (cases "ch_stage c") (auto simp: set_champions_same set_champions_update)
  then show ?thesis using Some assms(1) by (simp add: transition_eq) (blast intro: one_champion_subset)
qed (use assms in \<open>simp add: transition_eq\<close>)

lemma one_champion_promote:
  assumes inv: "reg_inv env rows" and one: "one_champion rows"
  shows "one_champion (snd (promote i target actor reason clk rows))"
proof (cases "parse_stage target = Some Champion")
  case False
  show ?thesis
  proof (rule promote_preserves [where P = one_champion, OF one])
    show "one_champion (snd (transition i (no_change\<lparr>ch_stage := Some g, ch_immutable := Some b\<rparr>) n t rows'))"
      if "one_champion rows'" "parse_stage target = Some g" for rows' g b n t
      using that False by (intro one_champion_transition) auto
  qed (auto intro: one_champion_transition)
next
  case True
  then have t: "target = ''champion''" by (simp add: parse_stage_Some)
  show ?thesis
  proof (cases "\<exists>k. get rows i = Inr k \<and> deployable Champion k")
    case False
    then have "snd (promote i target actor reason clk rows) = rows"
      using True by (cases "get rows i") (auto simp: promote_def)
    with one show ?thesis by simp
  next
    case True
    then obtain k where k: "get rows i = Inr k" "deployable Champion k" by blast
    from promote_champion [OF inv k, of actor reason clk] obtain k' rows' where
      p: "promote i target actor reason clk rows = (Inr k', rows')"
      "set (champions rows' (sk_family k)) = {i}"
      "\<forall>f. f \<noteq> sk_family k \<longrightarrow> set (champions rows' f) = set (champions rows f)"
      by (auto simp: t)
    have "one_champion rows'"
      unfolding one_champion_def
    proof (intro allI ballI)
      fix f a b
      assume "a \<in> set (champions rows' f)" "b \<in> set (champions rows' f)"
      then show "a = b" using p(2,3) one unfolding one_champion_def by (cases "f = sk_family k") auto
    qed
    then show ?thesis by (simp add: p)
  qed
qed

lemma one_champion_register:
  assumes "one_champion rows" "cr_stage q \<noteq> Champion"
  shows "one_champion (snd (register env uuid now q rows))"
proof (cases rule: register_cases [of env uuid now q rows])
  case (2 i family)
  have "set (champions (rows @ [new_row env i family now q]) f) \<subseteq> set (champions rows f)" for f
    using assms(2) by (auto simp: champions_def)
  with assms(1) 2 show ?thesis by (auto intro: one_champion_subset)
qed (use assms in simp)

lemma one_champion_step:
  "reg_step env allowed rows rows' \<Longrightarrow> \<not> allowed Champion \<Longrightarrow>
     reg_inv env rows \<and> one_champion rows \<Longrightarrow> reg_inv env rows' \<and> one_champion rows'"
proof (rule conjI)
  assume st: "reg_step env allowed rows rows'" and na: "\<not> allowed Champion"
    and inv: "reg_inv env rows \<and> one_champion rows"
  then show "reg_inv env rows'" by (blast intro: reg_step_inv)
  show "one_champion rows'"
    using st inv na
  proof (induction rule: reg_step.induct)
    case (version_step q uuid rows now p)
    then show ?case
      by (cases rule: create_version_cases [of env uuid now p q rows])
        (auto intro!: one_champion_register)
  next
    case (approve_step i actor reason clk rows)
    then show ?case
      by (auto simp: approve_eq no_change_def split: option.split intro!: one_champion_transition)
  next
    case (deprecate_step i actor reason clk rows)
    then show ?case unfolding deprecate_eq by (intro one_champion_transition) auto
  next
    case (restart_step rows rows')
    then show ?case using init_db_id [of env rows] by simp
  qed (auto intro: one_champion_register one_champion_promote)
qed

interpretation champ: invariant_machine "reg_step env (\<lambda>g. g \<noteq> Champion)"
    "\<lambda>rows. reg_inv env rows \<and> one_champion rows" for env
  by unfold_locales (rule one_champion_step, auto)

lemma to_record_simps [simp]:
  "sk_id (to_record r) = row_id r" "sk_stage (to_record r) = row_stage r"
  "sk_validation (to_record r) = row_validation r" "sk_approval (to_record r) = row_approval r"
  "sk_version (to_record r) = str_or (Some (row_version r)) ''1.0.0''"
  "sk_family (to_record r) = str_or (row_family r) (row_id r)" "sk_created (to_record r) = row_created r"
  by (simp_all add: to_record_def)

text \<open>The listing that the ranking and the ensemble choose from.\<close>

lemma approved_text:
  "validation_text a = ''validated'' \<longleftrightarrow> a = Validated" "approval_text b = ''approved'' \<longleftrightarrow> b = Approved"
  by (cases a; simp) (cases b; simp)

lemma listed_approved:
  "k \<in> set (list_skills (any_query\<lparr>lq_validation := Some ''validated'', lq_approval := Some ''approved''\<rparr>) rows) \<longleftrightarrow>
     (\<exists>r \<in> set rows. k = to_record r \<and> row_validation r = Validated \<and> row_approval r = Approved)"
  by (auto simp: list_skills_def any_query_def row_selected_def matches_def str_true_def tag_selected_def
      approved_text)

end
