(* ===== verification/Registry_Spec.thy ===== *)
theory Registry_Spec
  imports Registry_Inv "HOL-Library.Multiset"
begin

text \<open>
  What the skill registry guarantees over every history of its operations: the theorems about
  \<open>app/registry.py\<close>, each with a concrete history it applies to.
\<close>

section \<open>A concrete history\<close>

text \<open>
  A parser that reads every text as a module with one harmless function, the identity as hash,
  and a registry in which one skill was registered, approved and promoted.
\<close>

definition demo_env :: reg_env where
  "demo_env = \<lparr>env_parse = (\<lambda>_. Inr (OtherNode ''Module'' [FunctionDef ''f'' []])), env_sha256 = id\<rparr>"

definition demo_request :: "string \<Rightarrow> string \<Rightarrow> create_request" where
  "demo_request i ver =
     \<lparr>cr_id = Some i, cr_family = Some ''fam'', cr_version = ver, cr_parent = None, cr_stage = Candidate,
      cr_name = ''n'', cr_description = ''d'', cr_code = ''def f(): pass'', cr_tags = [],
      cr_context = [], cr_input_schema = [], cr_output_schema = [], cr_source = None\<rparr>"

definition demo_registered :: registry where
  "demo_registered = snd (register demo_env ''u'' 0 (demo_request ''a'' ''1'') [])"

definition demo_approved :: registry where
  "demo_approved = snd (approve ''a'' None None (\<lambda>_. 1) demo_registered)"

definition demo_promoted :: registry where
  "demo_promoted = snd (promote ''a'' ''champion'' None None (\<lambda>_. 2) demo_approved)"

definition demo_row :: "approval \<Rightarrow> stage \<Rightarrow> bool \<Rightarrow> lifecycle_note list \<Rightarrow> int \<Rightarrow> skill_row" where
  "demo_row a g im notes upd =
     \<lparr>row_id = ''a'', row_family = Some ''fam'', row_version = ''1'', row_parent = None, row_stage = g,
      row_immutable = im, row_name = ''n'', row_description = ''d'', row_code = ''def f(): pass'',
      row_hash = ''def f(): pass'', row_tags = [], row_context = [], row_input_schema = [],
      row_output_schema = [], row_source = None, row_validation = Validated, row_approval = a,
      row_errors = [], row_notes = notes, row_created = 0, row_updated = upd\<rparr>"

lemma demo_registered_eq: "demo_registered = [demo_row Draft Candidate False [] 0]"
  by code_simp

lemma demo_approved_eq:
  "demo_approved = [demo_row Approved Candidate True [make_note ''approved'' None None 1] 1]"
  by code_simp

lemma demo_promoted_eq:
  "demo_promoted = [demo_row Approved Champion True
     [make_note ''approved'' None None 1, make_note ''deployment_stage:champion'' None None 2] 2]"
  by code_simp

lemma demo_request_ok: "create_request_ok (demo_request ''a'' ''1'')"
  by code_simp

lemma demo_run_approved:
  "allowed Candidate \<Longrightarrow> (reg_step demo_env allowed)\<^sup>*\<^sup>* [] demo_approved"
proof -
  assume a: "allowed Candidate"
  have "reg_step demo_env allowed [] demo_registered"
    unfolding demo_registered_def
    by (rule register_step) (use a demo_request_ok in \<open>simp_all add: demo_request_def\<close>)
  moreover have "reg_step demo_env allowed demo_registered demo_approved"
    unfolding demo_approved_def by (rule approve_step)
  ultimately show ?thesis by (meson rtranclp.rtrancl_into_rtrancl rtranclp.rtrancl_refl)
qed

lemma demo_step: "reg_step demo_env allowed demo_approved demo_promoted"
  unfolding demo_promoted_def by (rule promote_step)

lemma demo_run: "allowed Candidate \<Longrightarrow> (reg_step demo_env allowed)\<^sup>*\<^sup>* [] demo_promoted"
  by (rule rtranclp.rtrancl_into_rtrancl [OF demo_run_approved demo_step])

lemma demo_get:
  "get demo_approved ''a'' = Inr (to_detail (hd demo_approved))"
  "get demo_promoted ''a'' = Inr (to_detail (hd demo_promoted))"
  by (simp_all add: demo_approved_eq demo_promoted_eq get_def find_row_def demo_row_def)

lemma demo_row_simps [simp]:
  "row_id (demo_row a g im ns u) = ''a''" "row_family (demo_row a g im ns u) = Some ''fam''"
  "row_stage (demo_row a g im ns u) = g" "row_approval (demo_row a g im ns u) = a"
  "row_immutable (demo_row a g im ns u) = im" "row_notes (demo_row a g im ns u) = ns"
  "row_validation (demo_row a g im ns u) = Validated" "row_code (demo_row a g im ns u) = ''def f(): pass''"
  "row_updated (demo_row a g im ns u) = u" "row_created (demo_row a g im ns u) = 0"
  "row_version (demo_row a g im ns u) = ''1''" "row_parent (demo_row a g im ns u) = None"
  by (simp_all add: demo_row_def)

definition demo_version :: version_request where
  "demo_version = \<lparr>vq_version = ''2'', vq_code = ''def f(): return 1'', vq_description = None,
     vq_tags = None, vq_context = None, vq_input_schema = None, vq_output_schema = None, vq_source = None\<rparr>"

definition demo_child :: skill_row where
  "demo_child = (demo_row Draft Candidate False [] 5)\<lparr>row_id := ''b'', row_version := ''2'',
     row_parent := Some ''a'', row_code := ''def f(): return 1'', row_hash := ''def f(): return 1'',
     row_created := 5\<rparr>"

lemma demo_version_run:
  "create_version demo_env ''b'' 5 ''a'' demo_version demo_promoted =
     (Inr (to_detail demo_child), demo_promoted @ [demo_child])"
  by code_simp

section \<open>Invariants of every history\<close>

text \<open>C5. Whatever sequence of registrations, versions, approvals, deprecations, promotions and
  restarts led to it: the ids of the table are distinct, so are the versions of a family, every
  stored hash is the hash of the stored code, only validated skills are approved, approved and
  deprecated skills are immutable, and every parent is an earlier skill of the same family.\<close>

theorem registry_invariant:
  assumes "(reg_step env (\<lambda>_. True))\<^sup>*\<^sup>* [] rows"
  shows "distinct (map row_id rows) \<and> distinct (map (\<lambda>r. (row_family r, row_version r)) rows) \<and>
    (\<forall>r \<in> set rows. row_hash r = code_hash env (row_code r) \<and>
       (row_approval r = Approved \<longrightarrow> row_validation r = Validated) \<and>
       (row_approval r \<noteq> Draft \<longrightarrow> row_immutable r)) \<and>
    (\<forall>n < length rows. str_true (row_parent (rows ! n)) \<longrightarrow>
       (\<exists>m < n. Some (row_id (rows ! m)) = row_parent (rows ! n) \<and>
          row_family (rows ! m) = row_family (rows ! n)))"
  using reg.run_inv [OF assms reg_inv_empty]
  by (simp add: reg_inv_def version_keys_def row_ok_def lineage_ok_def)

theorem registry_invariant_witness:
  "distinct (map row_id demo_promoted) \<and> length demo_promoted = 1 \<and>
     row_validation (hd demo_promoted) = Validated \<and> row_immutable (hd demo_promoted)"
  using registry_invariant [OF demo_run [of "\<lambda>_. True"]] by (simp add: demo_promoted_eq)

text \<open>C6. In every reachable registry the code of an approved skill is the code whose hash is
  stored, and it passes the static rules: it parses, defines a function and has no import, no
  global or nonlocal statement, no forbidden call and no dunder name.\<close>

theorem approved_code_is_safe:
  assumes "(reg_step env (\<lambda>_. True))\<^sup>*\<^sup>* [] rows" and "get rows i = Inr k" and "sk_approval k = Approved"
  shows "statically_safe (env_parse env) (sk_code k) \<and> sk_hash k = code_hash env (sk_code k)"
proof -
  from assms(2) obtain r where r: "find_row rows i = Some r" "k = to_detail r" by (auto simp: get_Inr)
  with reg.run_inv [OF assms(1) reg_inv_empty] have "row_ok env r"
    by (auto simp: reg_inv_def dest: find_row_Some)
  with assms(3) r(2) show ?thesis by (auto simp: row_ok_def vr_approved_iff)
qed

theorem approved_code_is_safe_witness:
  "statically_safe (env_parse demo_env) ''def f(): pass''"
  using approved_code_is_safe [OF demo_run [of "\<lambda>_. True"] demo_get(2)]
  by (simp add: demo_promoted_eq)

text \<open>C7. History is append-only. Over any further sequence of operations a skill is never
  removed, its identity, family, version, parent, code, hash, schemas and validation never change,
  its lifecycle notes only grow at the end, and it never stops being immutable.\<close>

theorem registry_append_only:
  assumes "(reg_step env (\<lambda>_. True))\<^sup>*\<^sup>* [] rows" and "(reg_step env (\<lambda>_. True))\<^sup>*\<^sup>* rows rows'"
    and "get rows i = Inr k"
  shows "\<exists>k'. get rows' i = Inr k' \<and>
    k' = k\<lparr>sk_approval := sk_approval k', sk_stage := sk_stage k', sk_immutable := sk_immutable k',
      sk_notes := sk_notes k', sk_updated := sk_updated k'\<rparr> \<and>
    prefix (sk_notes k) (sk_notes k') \<and> (sk_immutable k \<longrightarrow> sk_immutable k')"
proof -
  from assms(3) obtain r where r: "find_row rows i = Some r" "k = to_detail r" by (auto simp: get_Inr)
  have "reg_le rows rows'"
    by (rule reg_mono.run_le [OF assms(2)]) (rule reg.run_inv [OF assms(1) reg_inv_empty])
  with r(1) obtain r' where r': "find_row rows' i = Some r'" "row_le r r'" by (auto simp: reg_le_def)
  let ?k' = "to_detail r'"
  have "?k' = k\<lparr>sk_approval := sk_approval ?k', sk_stage := sk_stage ?k',
      sk_immutable := sk_immutable ?k', sk_notes := sk_notes ?k', sk_updated := sk_updated ?k'\<rparr>"
    using r'(2) unfolding r(2) row_le_def frozen_def
    by (cases r; cases r') (simp add: to_detail_def to_record_def skill_record.defs skill_detail.defs)
  moreover have "get rows' i = Inr ?k'" using r'(1) by (simp add: get_Inr)
  ultimately show ?thesis using r'(2) r(2) by (auto simp: row_le_def)
qed

theorem registry_append_only_witness:
  "\<exists>k'. get demo_promoted ''a'' = Inr k' \<and> sk_immutable k' \<and>
     prefix [make_note ''approved'' None None 1] (sk_notes k')"
proof -
  from registry_append_only [OF demo_run_approved [of "\<lambda>_. True"] r_into_rtranclp
      [of "reg_step demo_env (\<lambda>_. True)", OF demo_step] demo_get(1)]
  obtain k' where "get demo_promoted ''a'' = Inr k'"
    "prefix [make_note ''approved'' None None 1] (sk_notes k')" "sk_immutable k'"
    by (auto simp: demo_approved_eq)
  then show ?thesis by blast
qed

section \<open>Promotion\<close>

lemma retire_all_stages:
  "r \<in> set (snd (retire_all i actor reason clk t js rows)) \<Longrightarrow>
     fst (retire_all i actor reason clk t js rows) = None \<Longrightarrow>
     row_id r \<in> set js \<and> row_stage r = Retired \<or> row_id r \<notin> set js \<and> r \<in> set rows"
proof (induction js arbitrary: t rows)
  case (Cons j js)
  let ?c = "no_change\<lparr>ch_stage := Some Retired\<rparr>" and ?n = "replaced_note i actor reason (clk t)"
  let ?rows' = "update_where j (update_row ?c ?n (clk (t + 1))) rows"
  obtain q where q: "find_row rows j = Some q"
    using Cons.prems(2) by (cases "find_row rows j") (simp_all add: transition_eq)
  have step: "retire_all i actor reason clk t (j # js) rows = retire_all i actor reason clk (t + 2) js ?rows'"
    using q by (simp add: transition_eq)
  from Cons.IH [of "t + 2" ?rows'] Cons.prems
  have "row_id r \<in> set js \<and> row_stage r = Retired \<or> row_id r \<notin> set js \<and> r \<in> set ?rows'"
    unfolding step by blast
  moreover have "row_stage (update_row ?c ?n (clk (t + 1)) x) = Retired" for x
    by (simp add: update_row_stage)
  ultimately show ?case by (auto simp: set_update_where split: if_splits) metis
qed simp

text \<open>In a good registry the loop over the other champions never fails.\<close>

lemma retire_champions_ok:
  "fst (retire_all i actor reason clk t (other_champions rows family i) rows) = None"
  using set_champions_retire_all [of "other_champions rows family i" rows i actor reason clk t]
    champions_ids [of rows family] by (auto simp: other_champions_champions)

text \<open>C8. Promoting an approved skill to champion succeeds; afterwards it is the only champion of
  its family, every champion it replaced is retired, and no other row of the table was touched.\<close>

theorem promotion_replaces_champion:
  assumes "(reg_step env (\<lambda>_. True))\<^sup>*\<^sup>* [] rows"
    and "get rows i = Inr k" "sk_validation k = Validated" "sk_approval k = Approved"
  shows "\<exists>k' rows'. promote i ''champion'' actor reason clk rows = (Inr k', rows') \<and>
    get rows' i = Inr k' \<and> sk_stage k' = Champion \<and>
    (\<forall>r \<in> set rows'.
       (row_family r = Some (sk_family k) \<longrightarrow> row_stage r = Champion \<longrightarrow> row_id r = i) \<and>
       (row_id r = i \<or> row_stage r = Retired \<and> row_id r \<in> set (champions rows (sk_family k)) \<or> r \<in> set rows))"
proof -
  have inv: "reg_inv env rows" by (rule reg.run_inv [OF assms(1) reg_inv_empty])
  have dep: "deployable Champion k" by (simp add: deployable_def assms)
  obtain k' rows' where p: "promote i ''champion'' actor reason clk rows = (Inr k', rows')"
      "sk_stage k' = Champion" "set (champions rows' (sk_family k)) = {i}"
    using promote_champion [OF inv assms(2) dep, of actor reason clk] by blast
  have mine: "row_id r = i" if "r \<in> set rows'" "row_family r = Some (sk_family k)" "row_stage r = Champion" for r
    using p(3) set_champions [of "row_id r" rows' "sk_family k"] that by blast
  define js where "js = other_champions rows (sk_family k) i"
  define rows1 where "rows1 = snd (retire_all i actor reason clk 0 js rows)"
  have ret: "retire_all i actor reason clk 0 js rows = (None, rows1)"
    unfolding rows1_def js_def by (rule prod_eqI) (simp_all add: retire_champions_ok)
  have "\<exists>c n t. promote i ''champion'' actor reason clk rows = transition i c n t rows1"
    using assms(2) dep ret parse_stage_text [of Champion]
    by (simp add: promote_def Let_def flip: js_def) (intro exI, rule refl)
  then obtain c n t where tr: "transition i c n t rows1 = (Inr k', rows')" using p(1) by auto
  then obtain r1 where "find_row rows1 i = Some r1" and rows': "rows' = update_where i (update_row c n t) rows1"
    and k': "k' = to_detail (update_row c n t r1)"
    by (auto simp: transition_eq split: option.splits)
  then have "get rows' i = Inr k'" by (auto simp: get_def find_row_update_where dest: find_row_Some)
  moreover have "row_id r = i \<or> row_stage r = Retired \<and> row_id r \<in> set (champions rows (sk_family k)) \<or>
      r \<in> set rows" if "r \<in> set rows'" for r
  proof (cases "row_id r = i")
    case False
    then have "r \<in> set rows1" using that by (auto simp: rows' set_update_where split: if_splits)
    then have "r \<in> set (snd (retire_all i actor reason clk 0 js rows))" by (simp add: rows1_def)
    moreover have "fst (retire_all i actor reason clk 0 js rows) = None" by (simp add: ret)
    ultimately have "row_id r \<in> set js \<and> row_stage r = Retired \<or> r \<in> set rows"
      using retire_all_stages by blast
    then show ?thesis by (auto simp: js_def other_champions_champions)
  qed simp
  ultimately show ?thesis using p(1,2) mine by blast
qed

theorem promotion_replaces_champion_witness:
  "\<exists>k' rows'. promote ''a'' ''champion'' None None (\<lambda>_. 2) demo_approved = (Inr k', rows') \<and>
     sk_stage k' = Champion"
  using promotion_replaces_champion [OF demo_run_approved [of "\<lambda>_. True"] demo_get(1)]
  by (simp add: demo_approved_eq) blast

text \<open>C9. As long as no registration asks for the champion stage itself, no history of operations
  leaves two skills of one family as champions.\<close>

theorem at_most_one_champion:
  assumes "(reg_step env (\<lambda>g. g \<noteq> Champion))\<^sup>*\<^sup>* [] rows"
    and "r \<in> set rows" "q \<in> set rows" "row_family r = row_family q"
    and "row_stage r = Champion" "row_stage q = Champion"
  shows "r = q"
proof -
  have "reg_inv env [] \<and> one_champion []" by (simp add: reg_inv_empty one_champion_def champions_def)
  then have inv: "reg_inv env rows \<and> one_champion rows" by (rule champ.run_inv [OF assms(1)])
  then have "row_family r \<noteq> None" using assms(2) by (auto simp: reg_inv_def row_ok_def str_true_def)
  then obtain f where "row_family r = Some f" by blast
  then have "row_id r \<in> set (champions rows f)" "row_id q \<in> set (champions rows f)"
    using assms by (auto simp: set_champions)
  then have "row_id r = row_id q" using inv unfolding one_champion_def by blast
  with inv assms(2,3) show ?thesis by (auto simp: reg_inv_def distinct_map inj_on_def)
qed

theorem at_most_one_champion_witness:
  "hd demo_promoted = last demo_promoted"
  using at_most_one_champion [OF demo_run [of "\<lambda>g. g \<noteq> Champion"], of "hd demo_promoted" "last demo_promoted"]
  by (simp add: demo_promoted_eq)

text \<open>C10. When a promotion fails, and what it then leaves: an unknown stage, an unknown skill and a
  skill that is not approved are refused with their error, nothing else is refused, and the table
  stays as it was.\<close>

theorem promotion_errors:
  assumes "(reg_step env (\<lambda>_. True))\<^sup>*\<^sup>* [] rows"
  shows "promote i target actor reason clk rows = (Inl e, rows') \<longleftrightarrow> rows' = rows \<and>
    (if target \<notin> stage_text ` UNIV then e = ValueError ''invalid_deployment_stage''
     else (case find_row rows i of
         None \<Rightarrow> e = KeyError i
       | Some r \<Rightarrow> target \<notin> {''candidate'', ''retired''} \<and>
           (row_validation r \<noteq> Validated \<or> row_approval r \<noteq> Approved) \<and>
           e = ValueError ''only_validated_approved_skills_can_be_deployed''))"
proof (cases "parse_stage target")
  case None
  then have "target \<notin> stage_text ` UNIV" by auto
  with None show ?thesis by (auto simp: promote_def)
next
  case (Some g)
  then have t: "target = stage_text g" by (simp add: parse_stage_Some)
  have stages: "stage_text g = ''candidate'' \<longleftrightarrow> g = Candidate" "stage_text g = ''retired'' \<longleftrightarrow> g = Retired"
    by (cases g; simp)+
  show ?thesis
  proof (cases "find_row rows i")
    case None
    with Some show ?thesis by (auto simp: promote_def get_def t)
  next
    case (Some r)
    note r = this
    show ?thesis
    proof (cases "deployable g (to_detail r)")
      case False
      with r show ?thesis by (auto simp: promote_def get_def t deployable_def stages)
    next
      case True
      define js where "js = (if g = Champion then other_champions rows (sk_family (to_detail r)) i else [])"
      have "fst (retire_all i actor reason clk 0 js rows) = None"
        by (simp add: js_def retire_champions_ok)
      then obtain rows1 where ret: "retire_all i actor reason clk 0 js rows = (None, rows1)"
        by (metis prod.collapse)
      have "i \<notin> set js" by (simp add: js_def other_champions_self)
      then have "find_row rows1 i = Some r"
        using retire_all_find [of i js i actor reason clk 0 rows] ret r by simp
      then have "\<exists>x. fst (promote i target actor reason clk rows) = Inr x"
        using r ret True by (simp add: promote_def get_def t Let_def transition_eq flip: js_def)
      then have "promote i target actor reason clk rows \<noteq> (Inl e, rows')" by auto
      with r True show ?thesis by (auto simp: t stages deployable_def)
    qed
  qed
qed

theorem promotion_errors_witness:
  "promote ''b'' ''shadow'' None None (\<lambda>_. 2) demo_approved = (Inl (KeyError ''b''), demo_approved)"
proof -
  have "''shadow'' \<in> range stage_text" by (rule image_eqI [of _ _ Shadow]) simp_all
  then show ?thesis
    by (subst promotion_errors [OF demo_run_approved [of "\<lambda>_. True"]])
      (simp_all add: demo_approved_eq find_row_def)
qed

section \<open>Registration\<close>

lemma register_existing:
  "cr_id q = Some i \<Longrightarrow> i \<noteq> [] \<Longrightarrow> find_row rows i = Some r \<Longrightarrow>
     register env uuid now q rows =
       (if row_hash r = code_hash env (cr_code q) then Inr (to_detail r)
        else Inl (ValueError ''immutable_skill_id_code_hash_mismatch''), rows)"
  by (simp add: register_def Let_def str_or_def)

lemma find_row_self: "find_row rows i = Some r \<Longrightarrow> find_row rows (row_id r) = Some r"
  using find_row_Some by blast

lemma find_version_Some:
  "find_version rows f v = Some r \<Longrightarrow> r \<in> set rows \<and> row_family r = Some f \<and> row_version r = v"
  by (auto simp: find_version_def find_Some_iff)

text \<open>What a successful registration returns, and what becomes of the table.\<close>

lemma register_Inr:
  assumes "register env uuid now q rows = (Inr k, rows')" and inv: "reg_inv env rows"
  obtains (known) r where "rows' = rows" "r \<in> set rows" "k = to_detail r"
      "row_hash r = code_hash env (cr_code q)"
      "row_id r = str_or (cr_id q) uuid \<or>
        row_family r = Some (str_or (cr_family q) (str_or (cr_id q) uuid)) \<and> row_version r = cr_version q"
  | (added) i f where "i = str_or (cr_id q) uuid" "f = str_or (cr_family q) i"
      "rows' = rows @ [new_row env i f now q]" "k = to_detail (new_row env i f now q)"
      "find_row rows i = None"
proof -
  let ?i = "str_or (cr_id q) uuid" and ?f = "str_or (cr_family q) (str_or (cr_id q) uuid)"
  have dist: "distinct (map row_id rows)" using inv by (simp add: reg_inv_def)
  show thesis
  proof (cases "find_row rows ?i")
    case (Some r)
    with assms(1) find_row_Some [OF Some] show thesis
      by (intro known [of r]) (auto simp: register_def Let_def split: if_splits)
  next
    case None
    note new = this
    show thesis
    proof (cases "find_version rows ?f (cr_version q)")
      case (Some r)
      with new assms(1) have "row_hash r = code_hash env (cr_code q)" "get rows (row_id r) = Inr k" "rows' = rows"
        by (auto simp: register_def Let_def split: if_splits)
      with find_version_Some [OF Some] find_row_distinct [OF dist, of r] show thesis
        by (intro known [of r]) (simp_all add: get_def)
    next
      case None
      with new assms(1) show thesis
        by (intro added [of ?i ?f]) (auto simp: register_def Let_def get_def find_row_append split: option.splits)
    qed
  qed
qed

lemma register_found:
  assumes "register env uuid now q rows = (Inr k, rows')" "reg_inv env rows"
  shows "find_row rows' (sk_id k) \<noteq> None \<and> get rows' (sk_id k) = Inr k \<and> sk_hash k = code_hash env (cr_code q)"
  using assms
proof (cases rule: register_Inr)
  case (known r)
  with assms(2) find_row_distinct [of rows r] show ?thesis by (simp add: reg_inv_def get_def)
qed (simp add: get_def find_row_append)

lemma sk_version_to_detail: "sk_version (to_detail r) = str_or (Some (row_version r)) ''1.0.0''"
  by (simp add: to_detail_def to_record_def skill_record.defs skill_detail.defs)

text \<open>C11. Registration is idempotent and final. Once a skill has been registered, then whatever
  happened since, registering under its id again changes nothing: with the same code it returns the
  stored skill as it then is, with other code it is refused.\<close>

theorem registration_is_final:
  assumes "(reg_step env (\<lambda>_. True))\<^sup>*\<^sup>* [] rows" and "register env uuid now q rows = (Inr k, rows1)"
    and "uuid \<noteq> []" "create_request_ok q"
    and "(reg_step env (\<lambda>_. True))\<^sup>*\<^sup>* rows1 rows2" and "cr_id q' = Some (sk_id k)" "sk_id k \<noteq> []"
  shows "\<exists>k2. get rows2 (sk_id k) = Inr k2 \<and> sk_hash k2 = code_hash env (cr_code q) \<and>
    register env uuid' now' q' rows2 =
      (if code_hash env (cr_code q') = code_hash env (cr_code q) then Inr k2
       else Inl (ValueError ''immutable_skill_id_code_hash_mismatch''), rows2)"
proof -
  have inv: "reg_inv env rows" by (rule reg.run_inv [OF assms(1) reg_inv_empty])
  have inv1: "reg_inv env rows1"
    using reg_inv_register [OF inv assms(3), of now q] assms(2) by simp
  from register_found [OF assms(2) inv] obtain r1 where r1: "find_row rows1 (sk_id k) = Some r1"
      "k = to_detail r1" "sk_hash k = code_hash env (cr_code q)" by (auto simp: get_Inr)
  from reg_mono.run_le [OF assms(5) inv1] r1(1) obtain r2 where
      r2: "find_row rows2 (sk_id k) = Some r2" "row_le r1 r2" by (auto simp: reg_le_def)
  then have "row_hash r2 = row_hash r1" unfolding row_le_def frozen_def by (cases r1; cases r2) simp
  with r1 have hash: "row_hash r2 = code_hash env (cr_code q)" by simp
  with r2(1) register_existing [OF assms(6,7) r2(1), of env uuid' now'] show ?thesis
    by (auto simp: get_def)
qed

theorem registration_is_final_witness:
  "\<exists>k2. get demo_promoted ''a'' = Inr k2 \<and>
     register demo_env ''v'' 9 (demo_request ''a'' ''2'') demo_promoted = (Inr k2, demo_promoted)"
proof -
  have reg: "register demo_env ''u'' 0 (demo_request ''a'' ''1'') [] =
      (Inr (to_detail (demo_row Draft Candidate False [] 0)), demo_registered)"
    by code_simp
  have "reg_step demo_env (\<lambda>_. True) demo_registered demo_approved"
    unfolding demo_approved_def by (rule approve_step)
  then have "(reg_step demo_env (\<lambda>_. True))\<^sup>*\<^sup>* demo_registered demo_promoted"
    by (meson demo_step rtranclp.rtrancl_into_rtrancl rtranclp.rtrancl_refl)
  from registration_is_final [OF rtranclp.rtrancl_refl reg _ demo_request_ok this,
      of "demo_request ''a'' ''2''" "''v''" 9]
  show ?thesis by (simp add: demo_request_def) blast
qed

text \<open>C12. A version created from a skill belongs to the family of that skill, with the asked
  version and code; unless that very version was there already, it is a new draft candidate whose
  parent is the skill, appended to a table that is otherwise unchanged.\<close>

theorem version_lineage:
  assumes "(reg_step env (\<lambda>_. True))\<^sup>*\<^sup>* [] rows" and "get rows p = Inr parent" and "version_request_ok q"
    and "create_version env uuid now p q rows = (Inr k, rows')" and "find_row rows uuid = None" "uuid \<noteq> []"
  shows "sk_family k = sk_family parent \<and> sk_version k = vq_version q \<and>
    sk_hash k = code_hash env (vq_code q) \<and>
    (rows' = rows \<or> (\<exists>r. rows' = rows @ [r] \<and> k = to_detail r \<and> sk_id k = uuid \<and> sk_code k = vq_code q \<and>
       sk_parent k = Some p \<and> sk_approval k = Draft \<and> sk_stage k = Candidate \<and> \<not> sk_immutable k))"
proof -
  have inv: "reg_inv env rows" by (rule reg.run_inv [OF assms(1) reg_inv_empty])
  let ?c = "version_create_request parent q"
  have reg: "register env uuid now ?c rows = (Inr k, rows')"
    using assms(2,4) by (auto simp: create_version_def Let_def split: if_splits)
  from assms(2) obtain rp where rp: "find_row rows p = Some rp" "parent = to_detail rp" by (auto simp: get_Inr)
  then have pid: "sk_id parent = p" by (auto dest: find_row_Some)
  have "row_ok env rp" using inv rp(1) by (auto simp: reg_inv_def dest: find_row_Some)
  then have fam: "sk_family parent \<noteq> []" using rp(2) by (auto simp: row_ok_def str_true_def str_or_def)
  have c: "cr_id ?c = None" "cr_family ?c = Some (sk_family parent)" "cr_version ?c = vq_version q"
      "cr_code ?c = vq_code q" "cr_parent ?c = Some p" "cr_stage ?c = Candidate"
    by (simp_all add: version_create_request_def pid)
  have ver: "vq_version q \<noteq> []" using assms(3) by (auto simp: version_request_ok_def len_in_def)
  from reg inv show ?thesis
  proof (cases rule: register_Inr)
    case (known r)
    then have "row_family r = Some (sk_family parent)" "row_version r = vq_version q"
      using assms(5) find_row_distinct [of rows r] inv fam by (auto simp: c str_or_def reg_inv_def)
    with known fam ver show ?thesis by (simp add: c str_or_def sk_version_to_detail)
  next
    case (added i f)
    then show ?thesis using fam ver assms(6) by (auto simp: c str_or_def sk_version_to_detail)
  qed
qed

theorem version_lineage_witness:
  "sk_family (to_detail demo_child) = ''fam'' \<and> sk_hash (to_detail demo_child) = ''def f(): return 1''"
  using version_lineage [OF demo_run [of "\<lambda>_. True"] demo_get(2) _ demo_version_run]
  by (simp add: demo_promoted_eq find_row_def demo_version_def version_request_ok_def len_in_def
      opt_len_in_def code_hash_def demo_env_def demo_child_def str_or_def)

section \<open>Listing and searching\<close>


section \<open>Opening a table of an older version\<close>

lemma open_table_current: "open_table added_columns rows = init_db rows"
proof -
  have "ensure_columns added_columns x = x" for x by (simp add: ensure_columns_def added_columns_def)
  then show ?thesis by (simp add: open_table_def map_idI)
qed

text \<open>C14. A table from before the families opens. Whatever other columns it lacks, if its ids are unique
  it opens with the same skills in the same order, each the only member of a family of its own name and
  frozen if it was approved or deprecated; opening it again changes nothing.\<close>

theorem old_table_opens:
  assumes "distinct (map row_id rows)" and "''skill_family_id'' \<notin> set cols"
  shows "\<exists>rows'. open_table cols rows = Inr rows' \<and>
    map row_id rows' = map row_id rows \<and> map row_code rows' = map row_code rows \<and>
    (\<forall>r \<in> set rows'. row_family r = Some (row_id r) \<and> (row_approval r = Draft \<or> row_immutable r)) \<and>
    open_table added_columns rows' = Inr rows'"
proof -
  let ?f = "backfill_row \<circ> ensure_columns cols"
  have ens: "row_family (ensure_columns cols r) = None" "row_id (ensure_columns cols r) = row_id r"
    "row_code (ensure_columns cols r) = row_code r" for r
    using assms(2) by (simp_all add: ensure_columns_def)
  have f: "row_id (?f r) = row_id r" "row_code (?f r) = row_code r" "row_family (?f r) = Some (row_id r)"
    "row_approval (?f r) = Draft \<or> row_immutable (?f r)" for r
    by (cases "row_approval (ensure_columns cols r)"; simp add: backfill_row_def ens str_true_def Let_def)+
  have "ensure_columns added_columns x = x" for x by (simp add: ensure_columns_def added_columns_def)
  moreover have "backfill_row (?f r) = ?f r" for r
    by (cases "row_approval (ensure_columns cols r)"; cases "row_id r")
      (simp_all add: backfill_row_def ens str_true_def Let_def)
  ultimately have id: "backfill_row (ensure_columns added_columns (?f r)) = ?f r" for r by simp
  have "map fst (version_keys (map ?f rows)) = map Some (map row_id rows)"
    using f(3) by (simp add: version_keys_def)
  then have "distinct (map fst (version_keys (map ?f rows)))"
    using assms(1) by (simp only: distinct_map [of Some]) simp
  then have keys: "distinct (version_keys (map ?f rows))"
    unfolding distinct_map [of fst] by (rule conjunct1)
  have "open_table cols rows = Inr (map ?f rows)" using keys by (simp add: open_table_def init_db_def comp_def)
  moreover have "open_table added_columns (map ?f rows) = Inr (map ?f rows)"
    using keys id by (simp add: open_table_def init_db_def comp_def Let_def)
  ultimately show ?thesis using f by (intro exI [of _ "map ?f rows"]) simp
qed

theorem old_table_opens_witness:
  "\<exists>rows'. open_table [] demo_promoted = Inr rows' \<and> open_table added_columns rows' = Inr rows'"
  using old_table_opens [of demo_promoted "[]"] by (auto simp: demo_promoted_eq)

end
