(* ===== verification/Registry_Refine.thy ===== *)
theory Registry_Refine
  imports Registry_Spec
begin

text \<open>
  An abstract specification of the registry and its refinement. The specification keeps, for every
  skill id, only what the lifecycle is about: family, version, hash, validity, approval and stage.
  It knows no order of rows, no notes, no time stamps and no loops: a promotion is one simultaneous
  update of the family. Every operation of \<open>app/registry.py\<close> on a reachable table computes exactly
  what its specification says, and refuses, leaving the table alone, exactly when it does.
\<close>

section \<open>The specification\<close>

record life =
  lf_family :: string
  lf_version :: string
  lf_hash :: string
  lf_valid :: bool
  lf_approval :: approval
  lf_stage :: stage

type_synonym lives = "string \<Rightarrow> life option"

text \<open>An operation gives the new state, or \<open>None\<close> where it refuses.\<close>

definition spec_approve :: "string \<Rightarrow> lives \<Rightarrow> lives option" where
  "spec_approve i m = (case m i of
       Some x \<Rightarrow> if lf_valid x then Some (m(i \<mapsto> x\<lparr>lf_approval := Approved\<rparr>)) else None
     | None \<Rightarrow> None)"

definition spec_deprecate :: "string \<Rightarrow> lives \<Rightarrow> lives option" where
  "spec_deprecate i m =
     map_option (\<lambda>x. m(i \<mapsto> x\<lparr>lf_approval := Deprecated, lf_stage := Retired\<rparr>)) (m i)"

definition dethroned :: "string \<Rightarrow> life \<Rightarrow> life" where
  "dethroned family x =
     (if lf_family x = family \<and> lf_stage x = Champion then x\<lparr>lf_stage := Retired\<rparr> else x)"

definition spec_promote :: "string \<Rightarrow> string \<Rightarrow> lives \<Rightarrow> lives option" where
  "spec_promote i target m = (case (parse_stage target, m i) of
       (Some g, Some x) \<Rightarrow>
         if g \<in> {Candidate, Retired} \<or> lf_valid x \<and> lf_approval x = Approved then
           Some ((if g = Champion then (\<lambda>j. map_option (dethroned (lf_family x)) (m j)) else m)
             (i \<mapsto> x\<lparr>lf_stage := g\<rparr>))
         else None
     | _ \<Rightarrow> None)"

definition taken :: "lives \<Rightarrow> string \<Rightarrow> string \<Rightarrow> life \<Rightarrow> bool" where
  "taken m family ver x \<longleftrightarrow> x \<in> ran m \<and> lf_family x = family \<and> lf_version x = ver"

definition parent_in :: "lives \<Rightarrow> string option \<Rightarrow> string \<Rightarrow> bool" where
  "parent_in m p family \<longleftrightarrow>
     (str_true p \<longrightarrow> (case m (the p) of None \<Rightarrow> False | Some x \<Rightarrow> lf_family x = family))"

definition spec_register :: "reg_env \<Rightarrow> string \<Rightarrow> create_request \<Rightarrow> lives \<Rightarrow> lives option" where
  "spec_register env i q m =
     (let family = str_or (cr_family q) i; h = code_hash env (cr_code q) in
      case m i of
        Some x \<Rightarrow> if lf_hash x = h then Some m else None
      | None \<Rightarrow>
          if \<exists>x. taken m family (cr_version q) x
          then (if \<exists>x. taken m family (cr_version q) x \<and> lf_hash x = h then Some m else None)
          else if parent_in m (cr_parent q) family
          then Some (m(i \<mapsto> \<lparr>lf_family = family, lf_version = cr_version q, lf_hash = h,
            lf_valid = statically_safe (env_parse env) (cr_code q), lf_approval = Draft,
            lf_stage = cr_stage q\<rparr>))
          else None)"

section \<open>The abstraction\<close>

definition life_of :: "skill_row \<Rightarrow> life" where
  "life_of r = \<lparr>lf_family = the (row_family r), lf_version = row_version r, lf_hash = row_hash r,
     lf_valid = (row_validation r = Validated), lf_approval = row_approval r, lf_stage = row_stage r\<rparr>"

definition lives_of :: "registry \<Rightarrow> lives" where
  "lives_of rows i = map_option life_of (find_row rows i)"

text \<open>An outcome of the code agrees with an outcome of the specification.\<close>

definition agrees :: "registry \<Rightarrow> 'a res \<times> registry \<Rightarrow> lives option \<Rightarrow> bool" where
  "agrees rows out m \<longleftrightarrow> (case out of
       (Inr _, rows') \<Rightarrow> m = Some (lives_of rows')
     | (Inl _, rows') \<Rightarrow> m = None \<and> rows' = rows)"

lemma lives_of_update:
  assumes "find_row rows i = Some r"
  shows "lives_of (update_where i (update_row c n t) rows) =
    (lives_of rows)(i \<mapsto> life_of (update_row c n t r))"
proof
  fix j
  show "lives_of (update_where i (update_row c n t) rows) j =
      ((lives_of rows)(i \<mapsto> life_of (update_row c n t r))) j"
    using assms find_row_Some [of rows j]
    by (cases "find_row rows j") (auto simp: lives_of_def find_row_update_where)
qed

lemma life_of_update:
  "life_of (update_row c n t r) = (life_of r)
     \<lparr>lf_approval := (case ch_approval c of None \<Rightarrow> row_approval r | Some a \<Rightarrow> a),
      lf_stage := (case ch_stage c of None \<Rightarrow> row_stage r | Some g \<Rightarrow> g)\<rparr>"
  by (simp add: life_of_def update_row_def)

lemma life_of_simps [simp]:
  "lf_valid (life_of r) \<longleftrightarrow> row_validation r = Validated" "lf_approval (life_of r) = row_approval r"
  "lf_stage (life_of r) = row_stage r" "lf_version (life_of r) = row_version r"
  "lf_hash (life_of r) = row_hash r" "lf_family (life_of r) = the (row_family r)"
  by (simp_all add: life_of_def)

lemma life_keep: "(life_of r)\<lparr>lf_approval := row_approval r\<rparr> = life_of r"
  "(life_of r)\<lparr>lf_stage := row_stage r\<rparr> = life_of r"
  "(life_of r)\<lparr>lf_approval := a, lf_stage := row_stage r\<rparr> = (life_of r)\<lparr>lf_approval := a\<rparr>"
  "(life_of r)\<lparr>lf_approval := row_approval r, lf_stage := g\<rparr> = (life_of r)\<lparr>lf_stage := g\<rparr>"
  by (simp_all add: life_of_def)

section \<open>The refinement, operation by operation\<close>

lemma approve_refines: "agrees rows (approve i actor reason clk rows) (spec_approve i (lives_of rows))"
proof (cases "find_row rows i")
  case (Some r)
  then show ?thesis unfolding approve_eq
    by (simp add: agrees_def spec_approve_def transition_eq lives_of_update life_of_update life_keep
        no_change_def lives_of_def)
qed (simp add: approve_eq agrees_def spec_approve_def lives_of_def)

lemma deprecate_refines: "agrees rows (deprecate i actor reason clk rows) (spec_deprecate i (lives_of rows))"
proof (cases "find_row rows i")
  case (Some r)
  then show ?thesis unfolding deprecate_eq
    by (simp add: agrees_def spec_deprecate_def transition_eq lives_of_update life_of_update lives_of_def)
qed (simp add: deprecate_eq agrees_def spec_deprecate_def lives_of_def transition_eq)

text \<open>The loop over the champions is one update of the family.\<close>

lemma lives_of_stage:
  assumes "find_row rows k = Some r" "c = no_change\<lparr>ch_stage := Some g\<rparr>"
  shows "lives_of (update_where k (update_row c n t) rows) j =
    (if j = k then map_option (\<lambda>x. x\<lparr>lf_stage := g\<rparr>) (lives_of rows j) else lives_of rows j)"
proof -
  have "life_of (update_row c n t r) = (life_of r)\<lparr>lf_stage := g\<rparr>"
    unfolding assms(2) by (simp add: life_of_update life_keep no_change_def)
  moreover have "lives_of rows k = Some (life_of r)" using assms(1) by (simp add: lives_of_def)
  ultimately show ?thesis unfolding lives_of_update [OF assms(1)] by simp
qed

lemma retire_all_lives:
  "fst (retire_all i actor reason clk t js rows) = None \<Longrightarrow>
     lives_of (snd (retire_all i actor reason clk t js rows)) j =
       (if j \<in> set js then map_option (\<lambda>x. x\<lparr>lf_stage := Retired\<rparr>) (lives_of rows j)
        else lives_of rows j)"
proof (induction js arbitrary: t rows)
  case (Cons k js)
  let ?rows' = "update_where k (update_row (no_change\<lparr>ch_stage := Some Retired\<rparr>)
      (replaced_note i actor reason (clk t)) (clk (t + 1))) rows"
  obtain r where r: "find_row rows k = Some r"
    using Cons.prems by (cases "find_row rows k") (simp_all add: transition_eq)
  have step: "retire_all i actor reason clk t (k # js) rows = retire_all i actor reason clk (t + 2) js ?rows'"
    using r by (simp add: transition_eq)
  have none: "fst (retire_all i actor reason clk (t + 2) js ?rows') = None"
    using Cons.prems by (simp only: step)
  have twice: "map_option (\<lambda>x. x\<lparr>lf_stage := Retired\<rparr>) (map_option (\<lambda>x. x\<lparr>lf_stage := Retired\<rparr>) y) =
      map_option (\<lambda>x. x\<lparr>lf_stage := Retired\<rparr>) y" for y by (cases y) simp_all
  show ?case
    unfolding step Cons.IH [OF none] lives_of_stage [OF r refl] by (simp add: twice)
qed simp

lemma other_champions_lives:
  assumes "reg_inv env rows" "j \<noteq> i"
  shows "(if j \<in> set (other_champions rows family i)
     then map_option (\<lambda>x. x\<lparr>lf_stage := Retired\<rparr>) (lives_of rows j) else lives_of rows j) =
   map_option (dethroned family) (lives_of rows j)"
proof (cases "find_row rows j")
  case (Some r)
  then have r: "r \<in> set rows" "row_id r = j" using find_row_Some by auto
  then obtain f where fam: "row_family r = Some f"
    using assms(1) by (auto simp: reg_inv_def row_ok_def str_true_def)
  have "j \<in> set (other_champions rows family i) \<longleftrightarrow> f = family \<and> row_stage r = Champion"
  proof
    assume "j \<in> set (other_champions rows family i)"
    then obtain s where s: "s \<in> set rows" "row_id s = j" "row_family s = Some family" "row_stage s = Champion"
      by (auto simp: other_champions_def)
    have "distinct (map row_id rows)" using assms(1) by (simp add: reg_inv_def)
    from find_row_distinct [OF this s(1)] have "s = r" using Some s(2) by simp
    with s fam show "f = family \<and> row_stage r = Champion" by simp
  next
    assume "f = family \<and> row_stage r = Champion"
    then show "j \<in> set (other_champions rows family i)"
      using r fam assms(2) by (auto simp: other_champions_def)
  qed
  then show ?thesis using Some fam by (simp add: lives_of_def dethroned_def)
next
  case None
  then show ?thesis by (simp add: lives_of_def)
qed

lemma promote_refines:
  assumes "reg_inv env rows"
  shows "agrees rows (promote i target actor reason clk rows) (spec_promote i target (lives_of rows))"
proof (cases "parse_stage target")
  case g: (Some g)
  show ?thesis
  proof (cases "find_row rows i")
    case r: (Some r)
    then have get: "get rows i = Inr (to_detail r)" by (simp add: get_Inr)
    have ok: "row_ok env r" using assms r find_row_Some by (auto simp: reg_inv_def)
    have "the (row_family r) = sk_family (to_detail r)"
      by (subst sk_family_row_ok [OF ok]) (rule option.sel)
    then have fam: "str_or (row_family r) (row_id r) = the (row_family r)" by simp
    have dep: "deployable g (to_detail r) \<longleftrightarrow>
        g \<in> {Candidate, Retired} \<or> lf_valid (life_of r) \<and> lf_approval (life_of r) = Approved"
      by (simp add: deployable_def)
    let ?js = "if g = Champion then other_champions rows (sk_family (to_detail r)) i else []"
    have none: "fst (retire_all i actor reason clk 0 ?js rows) = None"
      using retire_champions_ok by simp
    define rows' where "rows' = snd (retire_all i actor reason clk 0 ?js rows)"
    have r': "find_row rows' i = Some r"
      unfolding rows'_def using r other_champions_self by (subst retire_all_find) auto
    have lives': "(lives_of rows')(i \<mapsto> x) = (if g = Champion
        then (\<lambda>j. map_option (dethroned (lf_family (life_of r))) (lives_of rows j)) else lives_of rows)(i \<mapsto> x)" for x
    proof
      fix j
      show "((lives_of rows')(i \<mapsto> x)) j = ((if g = Champion
        then (\<lambda>j. map_option (dethroned (lf_family (life_of r))) (lives_of rows j)) else lives_of rows)(i \<mapsto> x)) j"
        unfolding rows'_def retire_all_lives [OF none]
        using other_champions_lives [OF assms, of j i "lf_family (life_of r)"] by (simp add: fam)
    qed
    show ?thesis
    proof (cases "deployable g (to_detail r)")
      case False
      then show ?thesis using dep by (auto simp: promote_def g get agrees_def spec_promote_def lives_of_def r)
    next
      case True
      let ?c = "no_change\<lparr>ch_stage := Some g,
          ch_immutable := Some (sk_immutable (to_detail r) \<or> g \<noteq> Candidate)\<rparr>"
      have p: "\<exists>n t. promote i target actor reason clk rows = transition i ?c n t rows'"
        using none True by (cases "retire_all i actor reason clk 0 ?js rows")
          (simp add: promote_def g get rows'_def Let_def, blast)
      have "life_of (update_row ?c n t r) = (life_of r)\<lparr>lf_stage := g\<rparr>" for n t
        by (simp add: life_of_update life_keep no_change_def)
      then show ?thesis using p True dep
        by (auto simp: agrees_def spec_promote_def g transition_eq r' lives_of_update lives' lives_of_def r)
    qed
  qed (simp add: promote_def g agrees_def spec_promote_def lives_of_def get_def)
qed (simp add: promote_def agrees_def spec_promote_def)

lemma row_family_Some: "reg_inv env rows \<Longrightarrow> r \<in> set rows \<Longrightarrow> \<exists>f. row_family r = Some f"
  by (auto simp: reg_inv_def row_ok_def str_true_def)

lemma ran_lives:
  assumes "reg_inv env rows"
  shows "x \<in> ran (lives_of rows) \<longleftrightarrow> (\<exists>r \<in> set rows. x = life_of r)"
proof
  assume "x \<in> ran (lives_of rows)"
  then obtain j r where "find_row rows j = Some r" "x = life_of r"
    by (auto simp: ran_def lives_of_def)
  then show "\<exists>r \<in> set rows. x = life_of r" using find_row_Some by blast
next
  assume "\<exists>r \<in> set rows. x = life_of r"
  then obtain r where r: "r \<in> set rows" "x = life_of r" by blast
  have "find_row rows (row_id r) = Some r"
    using assms by (intro find_row_distinct r) (simp add: reg_inv_def)
  then have "lives_of rows (row_id r) = Some x" by (simp add: lives_of_def r)
  then show "x \<in> ran (lives_of rows)" by (rule ranI)
qed

lemma find_version_unique:
  assumes "distinct (version_keys rows)" "r \<in> set rows" "row_family r = Some f" "row_version r = v"
  shows "find_version rows f v = Some r"
  using assms
  by (induction rows) (auto simp: find_version_def version_keys_def rev_image_eqI)

lemma taken_iff:
  assumes inv: "reg_inv env rows"
  shows "taken (lives_of rows) f v x \<longleftrightarrow> (\<exists>r. find_version rows f v = Some r \<and> x = life_of r)"
proof
  assume "taken (lives_of rows) f v x"
  then obtain r where r: "r \<in> set rows" "x = life_of r" "the (row_family r) = f" "row_version r = v"
    by (auto simp: taken_def ran_lives [OF inv])
  with row_family_Some [OF inv r(1)] have "row_family r = Some f" by auto
  then have "find_version rows f v = Some r"
    using r inv by (intro find_version_unique) (simp_all add: reg_inv_def)
  with r(2) show "\<exists>r. find_version rows f v = Some r \<and> x = life_of r" by blast
next
  assume "\<exists>r. find_version rows f v = Some r \<and> x = life_of r"
  then obtain r where "r \<in> set rows" "row_family r = Some f" "row_version r = v" "x = life_of r"
    using find_version_Some by blast
  then show "taken (lives_of rows) f v x" by (auto simp: taken_def ran_lives [OF inv])
qed

lemma parent_in_iff:
  assumes inv: "reg_inv env rows"
  shows "parent_in (lives_of rows) p f \<longleftrightarrow> parent_error rows p f = None"
proof (cases "str_true p")
  case True
  show ?thesis
  proof (cases "find_row rows (the p)")
    case (Some r)
    then obtain g where "row_family r = Some g" using row_family_Some [OF inv] find_row_Some by blast
    then show ?thesis using True Some by (simp add: parent_in_def parent_error_def lives_of_def)
  qed (use True in \<open>simp add: parent_in_def parent_error_def lives_of_def\<close>)
qed (simp add: parent_in_def parent_error_def)

lemma lives_of_append:
  "find_row rows (row_id r) = None \<Longrightarrow> lives_of (rows @ [r]) = (lives_of rows)(row_id r \<mapsto> life_of r)"
  by (auto simp: lives_of_def find_row_append fun_eq_iff split: option.split)

lemma life_of_new: "life_of (new_row env i f now q) =
    \<lparr>lf_family = f, lf_version = cr_version q, lf_hash = code_hash env (cr_code q),
     lf_valid = statically_safe (env_parse env) (cr_code q), lf_approval = Draft, lf_stage = cr_stage q\<rparr>"
  by (simp add: life_of_def new_row_def Let_def vr_approved_iff)

lemma register_refines:
  assumes inv: "reg_inv env rows"
  shows "agrees rows (register env uuid now q rows)
    (spec_register env (str_or (cr_id q) uuid) q (lives_of rows))"
proof -
  let ?i = "str_or (cr_id q) uuid"
  let ?f = "str_or (cr_family q) ?i"
  let ?r = "new_row env ?i ?f now q"
  show ?thesis
  proof (cases "find_row rows ?i")
    case (Some r)
    then show ?thesis by (simp add: register_def spec_register_def agrees_def lives_of_def Let_def)
  next
    case none: None
    then have m: "lives_of rows ?i = None" by (simp add: lives_of_def)
    show ?thesis
    proof (cases "find_version rows ?f (cr_version q)")
      case (Some r)
      have "get rows (row_id r) = Inr (to_detail r)"
        using inv find_version_Some [OF Some] find_row_distinct [of rows r]
        by (auto simp: get_Inr reg_inv_def)
      then show ?thesis using none m Some
        by (simp add: register_def spec_register_def agrees_def Let_def taken_iff [OF inv])
    next
      case free: None
      have "get (rows @ [?r]) ?i = Inr (to_detail ?r)"
        using none by (simp add: get_Inr find_row_append)
      moreover have "lives_of (rows @ [?r]) = (lives_of rows)(?i \<mapsto> life_of ?r)"
        using lives_of_append [of rows ?r] none by simp
      ultimately show ?thesis using none m free parent_in_iff [OF inv, of "cr_parent q" ?f]
        by (cases "parent_error rows (cr_parent q) ?f")
          (simp_all add: register_def spec_register_def agrees_def Let_def taken_iff [OF inv] life_of_new)
    qed
  qed
qed

section \<open>The refinement\<close>



end
