(* ===== verification/Py_Json_Text.thy ===== *)
theory Py_Json_Text
  imports Py_Json
begin

text \<open>
  \<open>json.loads\<close>: a recursive-descent reader of JSON text as Python's scanner does it, with
  Python's extensions \<open>NaN\<close> and \<open>Infinity\<close>. It raises \<open>JSONDecodeError\<close> on malformed text and
  a plain \<open>ValueError\<close> on an integer of more than 4300 digits. Escapes beyond code point 255
  have no character in the model and are refused.
\<close>

definition json_space :: "char \<Rightarrow> bool" where
  "json_space c \<longleftrightarrow> (let n = of_char c :: int in n = 32 \<or> n = 9 \<or> n = 10 \<or> n = 13)"

definition skip_ws :: "string \<Rightarrow> string" where
  "skip_ws s = dropWhile json_space s"

section \<open>Strings\<close>

definition escape_char :: "char \<Rightarrow> char option" where
  "escape_char c = (let n = of_char c :: int in
     if n = 34 \<or> n = 92 \<or> n = 47 then Some c
     else if c = CHR ''b'' then Some (char_of (8::int))
     else if c = CHR ''f'' then Some (char_of (12::int))
     else if c = CHR ''n'' then Some (char_of (10::int))
     else if c = CHR ''r'' then Some (char_of (13::int))
     else if c = CHR ''t'' then Some (char_of (9::int))
     else None)"

definition hex_val :: "char \<Rightarrow> int option" where
  "hex_val c = (let n = of_char c :: int in
     if 48 \<le> n \<and> n \<le> 57 then Some (n - 48)
     else if 97 \<le> n \<and> n \<le> 102 then Some (n - 87)
     else if 65 \<le> n \<and> n \<le> 70 then Some (n - 55)
     else None)"

definition hex4 :: "char \<Rightarrow> char \<Rightarrow> char \<Rightarrow> char \<Rightarrow> char option" where
  "hex4 a b c d = (case (hex_val a, hex_val b, hex_val c, hex_val d) of
       (Some x, Some y, Some z, Some w) \<Rightarrow>
         (if x = 0 \<and> y = 0 then Some (char_of (16 * z + w)) else None)
     | _ \<Rightarrow> None)"

text \<open>The rest of a string literal after its opening quote, and what follows it.\<close>

definition cons_fst :: "char \<Rightarrow> (string \<times> string) option \<Rightarrow> (string \<times> string) option" where
  "cons_fst c r = map_option (\<lambda>(x, rest). (c # x, rest)) r"

fun scan_string :: "string \<Rightarrow> (string \<times> string) option" where
  "scan_string [] = None"
| "scan_string (c # cs) =
     (if (of_char c :: int) = 34 then Some ([], cs)
      else if (of_char c :: int) = 92 then (case cs of
          [] \<Rightarrow> None
        | e # es \<Rightarrow>
            if e = CHR ''u'' then (case es of
                w # x # y # z # rest \<Rightarrow> (case hex4 w x y z of
                    Some u \<Rightarrow> cons_fst u (scan_string rest) | None \<Rightarrow> None)
              | _ \<Rightarrow> None)
            else (case escape_char e of Some u \<Rightarrow> cons_fst u (scan_string es) | None \<Rightarrow> None))
      else if (of_char c :: int) < 32 then None
      else cons_fst c (scan_string cs))"

section \<open>Numbers\<close>

text \<open>\<open>(-?(?:0|[1-9][0-9]*))(\.[0-9]+)?([eE][-+]?[0-9]+)?\<close>: the three parts and the rest.\<close>

definition scan_int_part :: "string \<Rightarrow> string \<times> string" where
  "scan_int_part s = (case s of
       [] \<Rightarrow> ([], [])
     | c # cs \<Rightarrow> if c = CHR ''0'' then ([c], cs)
         else (takeWhile is_digit s, dropWhile is_digit s))"

definition scan_fraction :: "string \<Rightarrow> string \<times> string" where
  "scan_fraction s = (case s of
       [] \<Rightarrow> ([], [])
     | c # cs \<Rightarrow> if c = CHR ''.'' \<and> takeWhile is_digit cs \<noteq> []
         then (c # takeWhile is_digit cs, dropWhile is_digit cs) else ([], s))"

definition scan_exponent :: "string \<Rightarrow> string \<times> string" where
  "scan_exponent s = (case s of
       [] \<Rightarrow> ([], [])
     | c # cs \<Rightarrow> if c = CHR ''e'' \<or> c = CHR ''E'' then
           (case cs of
              [] \<Rightarrow> ([], s)
            | g # ds \<Rightarrow>
                if (g = CHR ''-'' \<or> g = CHR ''+'') \<and> takeWhile is_digit ds \<noteq> []
                then (c # g # takeWhile is_digit ds, dropWhile is_digit ds)
                else if takeWhile is_digit cs \<noteq> []
                then (c # takeWhile is_digit cs, dropWhile is_digit cs)
                else ([], s))
         else ([], s))"

definition decode_error :: exn where
  "decode_error = JSONDecodeError ''Expecting value''"

definition scan_number :: "string \<Rightarrow> (json \<times> string) res" where
  "scan_number s = (
     let neg = (case s of c # _ \<Rightarrow> c = CHR ''-'' | [] \<Rightarrow> False);
         sign = (if neg then take 1 s else []);
         (ip, s1) = scan_int_part (if neg then drop 1 s else s);
         (fp, s2) = scan_fraction s1;
         (ep, s3) = scan_exponent s2
     in if ip = [] then Inl decode_error
        else if fp = [] \<and> ep = [] then
          (case parse_int (sign @ ip) of
              Some n \<Rightarrow> Inr (JInt n, s1)
            | None \<Rightarrow> Inl (ValueError ''Exceeds the limit (4300 digits) for integer string conversion''))
        else (case parse_float (sign @ ip @ fp @ ep) of
              Some x \<Rightarrow> Inr (JFloat x, s3)
            | None \<Rightarrow> Inl decode_error))"

section \<open>Values\<close>

definition literals :: "(string \<times> json) list" where
  "literals = [(''null'', JNull), (''true'', JBool True), (''false'', JBool False),
     (''NaN'', JFloat NaN), (''Infinity'', JFloat PInf), (''-Infinity'', JFloat NInf)]"

definition scan_literal :: "string \<Rightarrow> (json \<times> string) option" where
  "scan_literal s = map_option (\<lambda>(t, v). (v, drop (length t) s))
     (List.find (\<lambda>(t, v). startswith s t) literals)"

text \<open>
  The first argument bounds the depth of the recursion. Every second call at least reads a
  character more than its caller, so twice the length of the text is enough
  (\<open>json_loads_fuel\<close> below).
\<close>

definition no_fuel :: exn where
  "no_fuel = RuntimeError ''recursion''"

fun scan_value :: "nat \<Rightarrow> string \<Rightarrow> (json \<times> string) res"
  and scan_items :: "nat \<Rightarrow> string \<Rightarrow> (json list \<times> string) res"
  and scan_members :: "nat \<Rightarrow> string \<Rightarrow> ((string \<times> json) list \<times> string) res" where
  "scan_value 0 s = Inl no_fuel"
| "scan_value (Suc n) s = (case s of
       [] \<Rightarrow> Inl decode_error
     | c # cs \<Rightarrow>
         if (of_char c :: int) = 34 then (case scan_string cs of
             Some (t, rest) \<Rightarrow> Inr (JStr t, rest) | None \<Rightarrow> Inl decode_error)
         else if c = CHR ''{'' then
           (case skip_ws cs of
              [] \<Rightarrow> Inl decode_error
            | d # ds \<Rightarrow> if d = CHR ''}'' then Inr (JObj [], ds)
                else res_map (\<lambda>(m, rest). (JObj (dmerge [] m), rest)) (scan_members n (d # ds)))
         else if c = CHR ''['' then
           (case skip_ws cs of
              [] \<Rightarrow> Inl decode_error
            | d # ds \<Rightarrow> if d = CHR '']'' then Inr (JArr [], ds)
                else res_map (\<lambda>(xs, rest). (JArr xs, rest)) (scan_items n (d # ds)))
         else (case scan_literal s of Some r \<Rightarrow> Inr r | None \<Rightarrow> scan_number s))"
| "scan_items 0 s = Inl no_fuel"
| "scan_items (Suc n) s = res_bind (scan_value n s) (\<lambda>(x, r).
     (case skip_ws r of
        [] \<Rightarrow> Inl decode_error
      | c # cs \<Rightarrow>
          if c = CHR '']'' then Inr ([x], cs)
          else if c = CHR '','' then
            res_map (\<lambda>(xs, rest). (x # xs, rest)) (scan_items n (skip_ws cs))
          else Inl decode_error))"
| "scan_members 0 s = Inl no_fuel"
| "scan_members (Suc n) s = (case s of
       [] \<Rightarrow> Inl decode_error
     | q # qs \<Rightarrow>
         if (of_char q :: int) \<noteq> 34 then Inl decode_error
         else (case scan_string qs of
             None \<Rightarrow> Inl decode_error
           | Some (k, r) \<Rightarrow> (case skip_ws r of
               [] \<Rightarrow> Inl decode_error
             | c # cs \<Rightarrow>
                 if c \<noteq> CHR '':'' then Inl decode_error
                 else res_bind (scan_value n (skip_ws cs)) (\<lambda>(x, r').
                   (case skip_ws r' of
                      [] \<Rightarrow> Inl decode_error
                    | d # ds \<Rightarrow>
                        if d = CHR ''}'' then Inr ([(k, x)], ds)
                        else if d = CHR '','' then
                          res_map (\<lambda>(m, rest). ((k, x) # m, rest)) (scan_members n (skip_ws ds))
                        else Inl decode_error)))))"

text \<open>\<open>json.loads(s)\<close>.\<close>

definition json_loads :: "string \<Rightarrow> json res" where
  "json_loads s = res_bind (scan_value (2 * length s + 2) (skip_ws s)) (\<lambda>(x, rest).
     if skip_ws rest = [] then Inr x else Inl (JSONDecodeError ''Extra data''))"

section \<open>The bound is enough\<close>

lemma length_skip_ws: "length (skip_ws s) \<le> length s"
  by (simp add: skip_ws_def length_dropWhile_le)

lemma cons_fst_Some: "cons_fst c r = Some (x, rest) \<longleftrightarrow> (\<exists>y. r = Some (y, rest) \<and> x = c # y)"
  by (auto simp: cons_fst_def)

lemma scan_string_shorter: "scan_string s = Some (x, rest) \<Longrightarrow> length rest < length s"
proof (induction s arbitrary: x rest rule: scan_string.induct)
  case (2 c cs)
  consider (quote) "(of_char c :: int) = 34" | (escape) "(of_char c :: int) = 92"
    | (plain) "(of_char c :: int) \<noteq> 34" "(of_char c :: int) \<noteq> 92" by blast
  then show ?case
  proof cases
    case escape
    then obtain e es where cs: "cs = e # es" using "2.prems" by (cases cs) auto
    show ?thesis
    proof (cases "e = CHR ''u''")
      case True
      with "2.prems" escape cs obtain w x' y z r u where
        es: "es = w # x' # y # z # r" and u: "hex4 w x' y z = Some u" "cons_fst u (scan_string r) = Some (x, rest)"
        by (auto split: list.splits option.splits)
      then obtain t where "scan_string r = Some (t, rest)" by (auto simp: cons_fst_Some)
      then have "length rest < length r" using "2.IH"(1) escape cs True es u by simp
      then show ?thesis using cs es by simp
    next
      case False
      with "2.prems" escape cs obtain u where
        u: "escape_char e = Some u" "cons_fst u (scan_string es) = Some (x, rest)"
        by (auto split: option.splits)
      then obtain t where "scan_string es = Some (t, rest)" by (auto simp: cons_fst_Some)
      then have "length rest < length es" using "2.IH"(2) escape cs False u by simp
      then show ?thesis using cs by simp
    qed
  next
    case plain
    with "2.prems" obtain t where "\<not> (of_char c :: int) < 32" "scan_string cs = Some (t, rest)"
      by (auto simp: cons_fst_Some split: if_splits)
    with "2.IH"(3) plain show ?thesis by fastforce
  qed (use "2.prems" in auto)
qed simp

lemma length_scan_parts:
  "scan_int_part s = (a, r) \<Longrightarrow> length s = length a + length r"
  "scan_fraction s = (a, r) \<Longrightarrow> length s = length a + length r"
  "scan_exponent s = (a, r) \<Longrightarrow> length s = length a + length r"
proof -
  have td: "length (takeWhile P xs) + length (dropWhile P xs) = length xs" for P and xs :: string
    by (metis length_append takeWhile_dropWhile_id)
  show "scan_int_part s = (a, r) \<Longrightarrow> length s = length a + length r"
    using td [of is_digit s] by (auto simp: scan_int_part_def split: list.splits if_splits)
  show "scan_fraction s = (a, r) \<Longrightarrow> length s = length a + length r"
    using td [of is_digit "tl s"] by (auto simp: scan_fraction_def split: list.splits if_splits)
  show "scan_exponent s = (a, r) \<Longrightarrow> length s = length a + length r"
    using td [of is_digit "tl s"] td [of is_digit "tl (tl s)"]
    by (auto simp: scan_exponent_def split: list.splits if_splits)
qed

lemma scan_number_shorter: "scan_number s = Inr (x, rest) \<Longrightarrow> length rest < length s"
proof -
  assume h: "scan_number s = Inr (x, rest)"
  define s0 where "s0 = (if (case s of c # _ \<Rightarrow> c = CHR ''-'' | [] \<Rightarrow> False) then drop 1 s else s)"
  obtain ip s1 where 1: "scan_int_part s0 = (ip, s1)" by fastforce
  obtain fp s2 where 2: "scan_fraction s1 = (fp, s2)" by fastforce
  obtain ep s3 where 3: "scan_exponent s2 = (ep, s3)" by fastforce
  have "ip \<noteq> [] \<and> (rest = s1 \<or> rest = s3)"
    using h 1 2 3 unfolding scan_number_def Let_def s0_def [symmetric]
    by (auto split: if_splits option.splits)
  moreover have "length s0 \<le> length s" by (simp add: s0_def)
  ultimately show ?thesis
    using length_scan_parts(1) [OF 1] length_scan_parts(2) [OF 2] length_scan_parts(3) [OF 3]
    by (cases ip) auto
qed

lemma scan_number_fuel: "scan_number s \<noteq> Inl no_fuel"
  by (auto simp: scan_number_def Let_def decode_error_def no_fuel_def split: prod.splits option.splits)

lemma scan_literal_shorter: "scan_literal s = Some (x, rest) \<Longrightarrow> length rest < length s"
  by (cases s) (auto simp: scan_literal_def literals_def startswith_def split: if_splits)

text \<open>What the bound gives each of the three readers.\<close>

definition reads :: "string \<Rightarrow> ('a \<times> string) res \<Rightarrow> bool" where
  "reads s r \<longleftrightarrow> (case r of Inl e \<Rightarrow> e \<noteq> no_fuel | Inr (_, rest) \<Rightarrow> length rest < length s)"

lemma reads_error [simp]: "reads s (Inl decode_error)"
  by (simp add: reads_def decode_error_def no_fuel_def)

lemma reads_Inr [simp]: "reads s (Inr (x, rest)) \<longleftrightarrow> length rest < length s"
  by (simp add: reads_def)

lemma reads_map:
  "reads s r \<Longrightarrow> length s \<le> length s' \<Longrightarrow> reads s' (res_map (\<lambda>(x, rest). (f x, rest)) r)"
  by (cases r) (auto simp: reads_def)

lemma reads_bind:
  "reads s r \<Longrightarrow> (\<And>x rest. r = Inr (x, rest) \<Longrightarrow> length rest < length s \<Longrightarrow> reads s' (f x rest)) \<Longrightarrow>
     reads s' (res_bind r (\<lambda>(x, rest). f x rest))"
  by (cases r) (auto simp: reads_def)

lemma reads_number: "reads s (scan_number s)"
  using scan_number_shorter [of s] scan_number_fuel [of s]
  by (auto simp: reads_def split: sum.split)

lemma skip_ws_Cons: "skip_ws r = c # cs \<Longrightarrow> length cs < length r"
  using length_skip_ws [of r] by simp

lemma scan_reads:
  "2 * length s + 1 \<le> n \<Longrightarrow> reads s (scan_value n s)"
  "2 * length s + 2 \<le> n \<Longrightarrow> reads s (scan_items n s)"
  "2 * length s + 2 \<le> n \<Longrightarrow> reads s (scan_members n s)"
proof (induction n s and n s and n s rule: scan_value_scan_items_scan_members.induct)
  case (2 n s)
  show ?case
  proof (cases s)
    case (Cons c cs)
    have obj: "reads s (res_map (\<lambda>(m, rest). (JObj (dmerge [] m), rest)) (scan_members n (d # ds)))"
      if "skip_ws cs = d # ds" "c = CHR ''{''" "d \<noteq> CHR ''}''" for d ds
      using that "2.IH"(1) [OF Cons _ that(2)] "2.prems" Cons length_skip_ws [of cs]
      by (intro reads_map [of "d # ds"]) (auto simp: of_char_eq_iff)
    have arr: "reads s (res_map (\<lambda>(xs, rest). (JArr xs, rest)) (scan_items n (d # ds)))"
      if "skip_ws cs = d # ds" "c = CHR ''[''" "d \<noteq> CHR '']''" for d ds
      using that "2.IH"(2) [OF Cons _ _ that(2)] "2.prems" Cons length_skip_ws [of cs]
      by (intro reads_map [of "d # ds"]) (auto simp: of_char_eq_iff)
    show ?thesis
      using obj arr reads_number [of s] scan_string_shorter [of cs] scan_literal_shorter [of s]
        skip_ws_Cons [of cs]
      by (auto simp: Cons split: list.split option.split intro: less_SucI)
  qed simp
next
  case (4 n s)
  have rest: "reads s (case skip_ws r of [] \<Rightarrow> Inl decode_error
      | c # cs \<Rightarrow> if c = CHR '']'' then Inr ([x], cs)
          else if c = CHR '','' then res_map (\<lambda>(xs, rest). (x # xs, rest)) (scan_items n (skip_ws cs))
          else Inl decode_error)"
    if v: "scan_value n s = Inr (x, r)" and r: "length r < length s" for x r
  proof (cases "skip_ws r")
    case (Cons c cs)
    have len: "length cs + 1 < length s" using skip_ws_Cons [OF Cons] r by simp
    have "reads s (res_map (\<lambda>(xs, rest). (x # xs, rest)) (scan_items n (skip_ws cs)))"
      if c: "c = CHR '',''"
    proof (rule reads_map)
      show "reads (skip_ws cs) (scan_items n (skip_ws cs))"
        using "4.IH"(2) [OF Cons _ c] c "4.prems" len length_skip_ws [of cs] by simp
      show "length (skip_ws cs) \<le> length s" using len length_skip_ws [of cs] by simp
    qed
    then show ?thesis using len by (auto simp: Cons)
  qed simp
  have "reads s (scan_value n s)" using "4.IH"(1) "4.prems" by simp
  then show ?case unfolding scan_items.simps by (rule reads_bind) (rule rest)
next
  case (6 n s)
  show ?case
  proof (cases s)
    case (Cons q qs)
    show ?thesis
    proof (cases "(of_char q :: int) = 34 \<and> scan_string qs \<noteq> None")
      case True
      then obtain k r where k: "scan_string qs = Some (k, r)" by fastforce
      then have r: "length r + 1 < length s" using scan_string_shorter Cons by fastforce
      show ?thesis
      proof (cases "skip_ws r")
        case (Cons c cs)
        note r_eq = Cons
        show ?thesis
        proof (cases "c = CHR '':''")
          case c: True
          have len: "length (skip_ws cs) + 2 < length s"
            using skip_ws_Cons [OF r_eq] r length_skip_ws [of cs] by simp
          have q34: "\<not> (of_char q :: int) \<noteq> 34" using True by simp
          note IH = "6.IH" [OF \<open>s = q # qs\<close> q34 k refl r_eq]
          have "reads s (case skip_ws r' of [] \<Rightarrow> Inl decode_error
              | d # ds \<Rightarrow> if d = CHR ''}'' then Inr ([(k, x)], ds)
                  else if d = CHR '','' then
                    res_map (\<lambda>(m, rest). ((k, x) # m, rest)) (scan_members n (skip_ws ds))
                  else Inl decode_error)"
            if v: "scan_value n (skip_ws cs) = Inr (x, r')" and r': "length r' < length (skip_ws cs)"
            for x r'
          proof (cases "skip_ws r'")
            case (Cons d ds)
            have len': "length (skip_ws ds) + 2 < length s"
              using skip_ws_Cons [OF Cons] r' len length_skip_ws [of ds] by simp
            have "reads s (res_map (\<lambda>(m, rest). ((k, x) # m, rest)) (scan_members n (skip_ws ds)))"
              if d: "d = CHR '',''"
              using IH(2) [OF _ Cons _ d] c d len' "6.prems"
              by (intro reads_map [of "skip_ws ds"]) auto
            then show ?thesis using skip_ws_Cons [OF Cons] r' len by (auto simp: Cons)
          qed simp
          moreover have "reads (skip_ws cs) (scan_value n (skip_ws cs))"
            using IH(1) c len "6.prems" by simp
          ultimately have "reads s (res_bind (scan_value n (skip_ws cs)) (\<lambda>(x, r').
              case skip_ws r' of [] \<Rightarrow> Inl decode_error
              | d # ds \<Rightarrow> if d = CHR ''}'' then Inr ([(k, x)], ds)
                  else if d = CHR '','' then
                    res_map (\<lambda>(m, rest). ((k, x) # m, rest)) (scan_members n (skip_ws ds))
                  else Inl decode_error))"
            by (intro reads_bind)
          then show ?thesis using True k c by (simp add: \<open>s = q # qs\<close> r_eq)
        qed (use True k in \<open>simp add: \<open>s = q # qs\<close> r_eq\<close>)
      qed (use True k in \<open>simp add: \<open>s = q # qs\<close>\<close>)
    qed (cases "scan_string qs"; simp add: Cons)
  qed simp
qed simp_all

lemma json_loads_fuel: "json_loads s \<noteq> Inl no_fuel"
proof -
  have "reads (skip_ws s) (scan_value (2 * length s + 2) (skip_ws s))"
    using length_skip_ws [of s] by (intro scan_reads) simp
  then show ?thesis
    by (auto simp: json_loads_def reads_def res_bind_eq_Inl no_fuel_def split: sum.splits if_splits)
qed

section \<open>What is read is well formed\<close>

lemma list_all_dset: "P (k, v) \<Longrightarrow> list_all P d \<Longrightarrow> list_all P (dset k v d)"
  by (induction d) (auto simp: dict_simps)

lemma list_all_dmerge: "list_all P e \<Longrightarrow> list_all P d \<Longrightarrow> list_all P (dmerge d e)"
  by (induction e arbitrary: d) (auto simp: dict_simps list_all_dset)

lemma wf_json_dmerge: "list_all (\<lambda>(k, v). wf_json v) m \<Longrightarrow> wf_json (JObj (dmerge [] m))"
  by (simp add: list_all_dmerge)

lemma scan_leaf_wf:
  "scan_literal s = Some (x, r) \<Longrightarrow> wf_json x"
  "scan_number s = Inr (x, r) \<Longrightarrow> wf_json x"
  by (auto simp: scan_literal_def literals_def split: if_splits)
    (auto simp: scan_number_def Let_def split: prod.splits option.splits if_splits)

lemma scan_wf:
  "scan_value n s = Inr (x, r) \<Longrightarrow> wf_json x"
  "scan_items n s = Inr (xs, r) \<Longrightarrow> list_all wf_json xs"
  "scan_members n s = Inr (m, r) \<Longrightarrow> list_all (\<lambda>(k, v). wf_json v) m"
proof (induction n s and n s and n s arbitrary: x r and xs r and m r
    rule: scan_value_scan_items_scan_members.induct)
  case (2 n s)
  show ?case
  proof (cases s)
    case (Cons c cs)
    show ?thesis
    proof (cases "scan_literal s = Some (x, r) \<or> scan_number s = Inr (x, r)")
      case True
      then show ?thesis using scan_leaf_wf by blast
    next
      case False
      then show ?thesis
        using "2.prems" "2.IH"(1) [OF Cons] "2.IH"(2) [OF Cons]
        by (auto simp: Cons res_map_eq_Inr split: list.splits if_splits option.splits
            simp del: wf_json.simps intro!: wf_json_dmerge) (simp_all)
    qed
  qed (use "2.prems" in simp)
next
  case (4 n s)
  obtain y r1 where v: "scan_value n s = Inr (y, r1)" using "4.prems" by auto
  then obtain c cs where r1: "skip_ws r1 = c # cs" using "4.prems" by (cases "skip_ws r1") auto
  have "wf_json y" using "4.IH"(1) v by blast
  moreover have "list_all wf_json ys" if "scan_items n (skip_ws cs) = Inr (ys, r)" "c = CHR '',''" for ys
    using "4.IH"(2) [OF r1 _ that(2) that(1)] that(2) by simp
  ultimately show ?case
    using "4.prems" v r1 by (auto simp: res_map_eq_Inr split: if_splits)
next
  case (6 n s)
  obtain q qs where s: "s = q # qs" using "6.prems" by (cases s) auto
  have q: "\<not> (of_char q :: int) \<noteq> 34" using "6.prems" by (auto simp: s split: if_splits)
  obtain k r1 where k: "scan_string qs = Some (k, r1)"
    using "6.prems" q by (auto simp: s split: option.splits)
  obtain c cs where c: "skip_ws r1 = c # cs" using "6.prems" q k by (cases "skip_ws r1") (auto simp: s)
  have col: "\<not> c \<noteq> CHR '':''" using "6.prems" q k c by (auto simp: s split: if_splits)
  obtain y r2 where v: "scan_value n (skip_ws cs) = Inr (y, r2)"
    using "6.prems" q k c col by (auto simp: s)
  obtain d ds where d: "skip_ws r2 = d # ds"
    using "6.prems" q k c col v by (cases "skip_ws r2") (auto simp: s)
  note IH = "6.IH" [OF s q k refl c col]
  have "wf_json y" using IH(1) v by blast
  moreover have "list_all (\<lambda>(k, v). wf_json v) ms"
    if "scan_members n (skip_ws ds) = Inr (ms, r)" "d = CHR '',''" for ms
    using IH(2) [OF d _ that(2) that(1)] that(2) by simp
  ultimately show ?case
    using "6.prems" q k c col v d by (auto simp: s res_map_eq_Inr split: if_splits)
qed simp_all

lemma json_loads_wf:
  assumes "json_loads s = Inr x"
  shows "wf_json x"
proof -
  obtain n rest where "scan_value n (skip_ws s) = Inr (x, rest)"
    using assms unfolding json_loads_def
    by (cases "scan_value (2 * length s + 2) (skip_ws s)") (auto simp del: scan_value.simps split: if_splits)
  then show ?thesis by (rule scan_wf)
qed

end
