(* ===== verification/Py_Json_Round.thy ===== *)
theory Py_Json_Round
  imports Py_Json_Text
begin

text \<open>
  JSON text there and back: what \<open>json.dumps\<close> prints, \<open>json.loads\<close> reads as the same value, with
  either pair of separators the program uses; and whatever text is read, \<open>json.loads\<close> returns a well
  formed value or raises one of its two exceptions. The registry keeps its JSON columns, the
  executors their documents and the worker its requests on the strength of it.
\<close>

section \<open>Integers\<close>

lemma parse_int_signed:
  assumes "0 \<le> n" "length (dec_str n) \<le> 4300"
  shows "parse_int (dec_str n) = Some n" "parse_int (CHR ''-'' # dec_str n) = Some (- n)"
proof -
  have dig: "is_digit c" if "c \<in> set (dec_str n)" for c using dec_str_digits [OF assms(1) that] .
  have minus: "\<not> is_space (CHR ''-'')" "\<not> is_digit (CHR ''-'')" by (simp_all add: is_space_def is_digit_def)
  have strips: "strip (dec_str n) = dec_str n" "strip (CHR ''-'' # dec_str n) = CHR ''-'' # dec_str n"
    using minus(1) digit_not_space [OF dig] by (auto intro!: strip_none)
  obtain c cs where c: "dec_str n = c # cs" using dec_str_nonempty [of n] by (cases "dec_str n") auto
  then have "is_digit c" using dig by simp
  then have "c \<noteq> CHR ''-''" "c \<noteq> CHR ''+''" by (auto simp: is_digit_def)
  then have signs: "split_sign (dec_str n) = (False, dec_str n)"
    "split_sign (CHR ''-'' # dec_str n) = (True, dec_str n)" by (simp_all add: split_sign_def c)
  have "filter is_digit (dec_str n) = dec_str n" using dig by (simp add: filter_id_conv)
  then show "parse_int (dec_str n) = Some n" "parse_int (CHR ''-'' # dec_str n) = Some (- n)"
    using assms digits_val_dec_str [OF assms(1)] by (simp_all add: parse_int_def strips signs)
qed

text \<open>What may follow a value: the end, a separator or a closing bracket.\<close>

definition stops :: "string \<Rightarrow> bool" where
  "stops s \<longleftrightarrow> (case s of [] \<Rightarrow> True | c # _ \<Rightarrow> c \<in> {CHR '','', CHR '']'', CHR ''}''})"

lemma stops_number:
  assumes "stops rest"
  shows "scan_fraction rest = ([], rest)" "scan_exponent rest = ([], rest)"
    "takeWhile is_digit rest = []" "dropWhile is_digit rest = rest"
proof -
  have "\<not> is_digit c" if "c \<in> {CHR '','', CHR '']'', CHR ''}''}" for c
    using that by (auto simp: is_digit_def)
  with assms show "takeWhile is_digit rest = []" "dropWhile is_digit rest = rest"
    by (auto simp: stops_def split: list.splits)
  show "scan_fraction rest = ([], rest)" "scan_exponent rest = ([], rest)"
    using assms by (auto simp: stops_def scan_fraction_def scan_exponent_def split: list.splits)
qed

lemma dec_str_zero_head: "0 < n \<Longrightarrow> hd (dec_str n) \<noteq> CHR ''0''"
proof (induction n rule: dec_str.induct)
  case (1 n)
  have "digit_char n \<noteq> CHR ''0''" if "n < 10" "0 < n"
  proof
    assume "digit_char n = CHR ''0''"
    then have "(of_char (digit_char n) :: int) = of_char (CHR ''0'')" by simp
    then show False using that of_char_digit [of n] by simp
  qed
  moreover have "hd (dec_str (n div 10)) \<noteq> CHR ''0''" if "\<not> n < 10" using 1 that by simp
  ultimately show ?case using 1(2) dec_str_nonempty [of "n div 10"]
    by (subst dec_str.simps) (simp add: hd_append)
qed

lemma scan_int_part_dec:
  assumes "0 \<le> n" "stops rest"
  shows "scan_int_part (dec_str n @ rest) = (dec_str n, rest)"
proof (cases "n = 0")
  case True
  have "dec_str 0 = [CHR ''0'']" by code_simp
  with True show ?thesis by (simp add: scan_int_part_def)
next
  case False
  obtain c cs where c: "dec_str n = c # cs" using dec_str_nonempty [of n] by (cases "dec_str n") auto
  have "c \<noteq> CHR ''0''" using dec_str_zero_head [of n] False assms(1) c by simp
  moreover have "takeWhile is_digit (dec_str n @ rest) = dec_str n"
    "dropWhile is_digit (dec_str n @ rest) = rest"
    using dec_str_digits [OF assms(1)] stops_number(3,4) [OF assms(2)]
    by (simp_all add: takeWhile_append2 dropWhile_append2)
  ultimately show ?thesis using c by (simp add: scan_int_part_def)
qed

lemma scan_number_int:
  assumes "length (dec_str \<bar>n\<bar>) \<le> 4300" "stops rest"
  shows "scan_number (int_str n @ rest) = Inr (JInt n, rest)"
proof (cases "n < 0")
  case True
  then have n: "0 \<le> - n" "length (dec_str (- n)) \<le> 4300" using assms(1) by simp_all
  show ?thesis
    using parse_int_signed(2) [OF n] True
    by (simp add: scan_number_def int_str_def scan_int_part_dec [OF n(1) assms(2)] stops_number [OF assms(2)]
        dec_str_nonempty)
next
  case False
  then have n: "0 \<le> n" "length (dec_str n) \<le> 4300" using assms(1) by simp_all
  obtain c cs where c: "dec_str n = c # cs" using dec_str_nonempty [of n] by (cases "dec_str n") auto
  have "is_digit c" using dec_str_digits [OF n(1)] c by simp
  then have "c \<noteq> CHR ''-''" by (auto simp: is_digit_def)
  then have "(case dec_str n @ rest of c # _ \<Rightarrow> c = CHR ''-'' | [] \<Rightarrow> False) = False" by (simp add: c)
  then show ?thesis
    using parse_int_signed(1) [OF n] False
    by (simp add: scan_number_def int_str_def scan_int_part_dec [OF n(1) assms(2)] stops_number [OF assms(2)]
        dec_str_nonempty Let_def)
qed

lemma int_str_start:
  "\<exists>c cs. int_str n = c # cs \<and> (c = CHR ''-'' \<and> (\<exists>d ds. cs = d # ds \<and> is_digit d) \<or> is_digit c)"
proof -
  have "\<exists>d ds. dec_str m = d # ds \<and> is_digit d" if "0 \<le> m" for m
    using dec_str_digits [OF that] dec_str_nonempty [of m] by (cases "dec_str m") auto
  from this [of "- n"] this [of n] show ?thesis by (cases "n < 0") (auto simp: int_str_def)
qed

lemma digit_no_literal:
  assumes "is_digit d"
  shows "scan_literal (d # s) = None" "scan_literal (CHR ''-'' # d # s) = None"
proof -
  have "d \<noteq> CHR ''n''" "d \<noteq> CHR ''t''" "d \<noteq> CHR ''f''" "d \<noteq> CHR ''N''" "d \<noteq> CHR ''I''" "d \<noteq> CHR ''-''"
    using assms by (auto simp: is_digit_def)
  then show "scan_literal (d # s) = None" "scan_literal (CHR ''-'' # d # s) = None"
    by (simp_all add: scan_literal_def literals_def startswith_def)
qed

text \<open>A number that is read to its end is read alike when a stop follows.\<close>

lemma while_stops:
  assumes "stops rest"
  shows "takeWhile is_digit (s @ rest) = takeWhile is_digit s"
    "dropWhile is_digit (s @ rest) = dropWhile is_digit s @ rest"
  using stops_number(3,4) [OF assms] by (induction s) auto

lemma scan_parts_stops:
  assumes "stops rest"
  shows "scan_int_part (s @ rest) = map_prod id (\<lambda>r. r @ rest) (scan_int_part s)"
    "scan_fraction (s @ rest) = map_prod id (\<lambda>r. r @ rest) (scan_fraction s)"
    "scan_exponent (s @ rest) = map_prod id (\<lambda>r. r @ rest) (scan_exponent s)"
proof -
  note w = while_stops [OF assms] and n = stops_number [OF assms]
  have "scan_int_part rest = ([], rest)"
    using n(3,4) assms by (auto simp: scan_int_part_def stops_def split: list.splits)
  then show "scan_int_part (s @ rest) = map_prod id (\<lambda>r. r @ rest) (scan_int_part s)"
    using w [of s] by (cases s) (simp_all add: scan_int_part_def del: takeWhile.simps dropWhile.simps)
  show "scan_fraction (s @ rest) = map_prod id (\<lambda>r. r @ rest) (scan_fraction s)"
    using n(1) w [of "tl s"] by (cases s) (simp_all add: scan_fraction_def)
  show "scan_exponent (s @ rest) = map_prod id (\<lambda>r. r @ rest) (scan_exponent s)"
  proof (cases s)
    case Nil
    then show ?thesis using n(2) by (simp add: scan_exponent_def)
  next
    case (Cons c cs)
    show ?thesis
    proof (cases cs)
      case Nil
      have "g \<noteq> CHR ''-'' \<and> g \<noteq> CHR ''+''" if "rest = g # ds" for g ds
        using assms that by (auto simp: stops_def)
      then show ?thesis using Cons Nil n(3) by (auto simp: scan_exponent_def split: list.split)
    next
      case (Cons g ds)
      then show ?thesis using \<open>s = c # cs\<close> w [of ds] w [of "g # ds"]
        by (simp add: scan_exponent_def del: takeWhile.simps dropWhile.simps)
    qed
  qed
qed

lemma scan_number_start:
  assumes "scan_number s = Inr (x, rest)"
  shows "\<exists>c cs. s = c # cs \<and> (c = CHR ''-'' \<and> (\<exists>d ds. cs = d # ds \<and> is_digit d) \<or> is_digit c)"
proof -
  define neg where "neg = (case s of c # _ \<Rightarrow> c = CHR ''-'' | [] \<Rightarrow> False)"
  have ip: "fst (scan_int_part (if neg then drop 1 s else s)) \<noteq> []"
    using assms by (auto simp: scan_number_def Let_def neg_def [symmetric] split: prod.splits if_splits)
  have dig: "\<exists>d ds. u = d # ds \<and> is_digit d" if "fst (scan_int_part u) \<noteq> []" for u
  proof (cases u)
    case (Cons d ds)
    have "is_digit (CHR ''0'')" by (simp add: is_digit_def)
    then show ?thesis using that Cons by (auto simp: scan_int_part_def split: if_splits)
  qed (use that in \<open>simp add: scan_int_part_def\<close>)
  show ?thesis
  proof (cases s)
    case Nil
    then show ?thesis using ip by (simp add: neg_def scan_int_part_def)
  next
    case (Cons c cs)
    then show ?thesis using dig [OF ip] by (auto simp: neg_def split: if_splits)
  qed
qed

lemma scan_number_stops:
  assumes s: "scan_number s = Inr (x, [])" and r: "stops rest"
  shows "scan_number (s @ rest) = Inr (x, rest)"
proof -
  obtain c cs where c: "s = c # cs" using scan_number_start [OF s] by blast
  define neg where "neg = (c = CHR ''-'')"
  define u where "u = (if neg then cs else c # cs)"
  obtain ip s1 where 1: "scan_int_part u = (ip, s1)" by fastforce
  obtain fp s2 where 2: "scan_fraction s1 = (fp, s2)" by fastforce
  obtain ep s3 where 3: "scan_exponent s2 = (ep, s3)" by fastforce
  have parts: "scan_int_part (u @ rest) = (ip, s1 @ rest)" "scan_fraction (s1 @ rest) = (fp, s2 @ rest)"
    "scan_exponent (s2 @ rest) = (ep, s3 @ rest)"
    using scan_parts_stops [OF r] 1 2 3 by simp_all
  show ?thesis
  proof (cases "c = CHR ''-''")
    case True
    then have "u = cs" by (simp add: u_def neg_def)
    with True s parts 1 2 3 show ?thesis
      by (cases "fp = [] \<and> ep = []") (auto simp: c scan_number_def Let_def split: if_splits option.splits)
  next
    case False
    then have "u = c # cs" by (simp add: u_def neg_def)
    with False s parts 1 2 3 show ?thesis
      by (cases "fp = [] \<and> ep = []") (auto simp: c scan_number_def Let_def split: if_splits option.splits)
  qed
qed

section \<open>Strings\<close>

lemma hex_val_digit: "0 \<le> d \<Longrightarrow> d < 16 \<Longrightarrow> hex_val (hex_digit d) = Some d"
  by (auto simp: hex_val_def hex_digit_def Let_def)

lemma hex4_hex2: "0 \<le> n \<Longrightarrow> n < 256 \<Longrightarrow>
    hex4 (CHR ''0'') (CHR ''0'') (hex_digit (n div 16)) (hex_digit (n mod 16)) = Some (char_of n)"
proof -
  assume n: "0 \<le> n" "n < 256"
  have "hex_val (CHR ''0'') = Some 0" by (simp add: hex_val_def)
  moreover have "hex_val (hex_digit (n div 16)) = Some (n div 16)" using n by (intro hex_val_digit) auto
  moreover have "hex_val (hex_digit (n mod 16)) = Some (n mod 16)" by (intro hex_val_digit) simp_all
  moreover have "16 * (n div 16) + n mod 16 = n" by simp
  ultimately show ?thesis by (simp add: hex4_def)
qed

lemma char_eqI: "(of_char c :: int) = n \<Longrightarrow> char_of n = c"
  by (metis char_of_char)

lemma scan_json_char: "scan_string (json_char c @ s) = cons_fst c (scan_string s)"
proof -
  let ?n = "of_char c :: int"
  have r: "0 \<le> ?n" "?n < 256" using of_char_range [of c] by simp_all
  have bs: "(of_char (char_of (92::int)) :: int) = 92" by simp
  consider (quoted) "?n = 34 \<or> ?n = 92" | (short) "?n \<in> {10, 13, 9, 8, 12}"
    | (long) "?n < 32" "?n \<notin> {10, 13, 9, 8, 12}" | (plain) "?n \<noteq> 34" "?n \<noteq> 92" "32 \<le> ?n"
    by (cases "?n < 32"; cases "?n \<in> {10, 13, 9, 8, 12}"; cases "?n = 34 \<or> ?n = 92") simp_all
  then show ?thesis
  proof cases
    case quoted
    moreover from this have "c \<noteq> CHR ''u''" by auto
    ultimately show ?thesis by (auto simp: json_char_def escape_char_def Let_def)
  next
    case short
    then have c: "c = char_of ?n" by simp
    from short show ?thesis
      by (elim insertE emptyE) (simp_all add: json_char_def escape_char_def Let_def char_eqI)
  next
    case long
    then show ?thesis using hex4_hex2 [OF r]
      by (simp add: json_char_def hex2_def Let_def)
  next
    case plain
    then show ?thesis by (simp add: json_char_def Let_def)
  qed
qed

lemma scan_quoted: "scan_string (concat (map json_char s) @ char_of (34::int) # rest) = Some (s, rest)"
  by (induction s) (simp_all add: scan_json_char cons_fst_def)

section \<open>Values\<close>

text \<open>
  The values whose text is exact: an integer of at most 4300 digits, beyond which \<open>json.dumps\<close> and
  \<open>json.loads\<close> raise, and a float whose \<open>repr\<close> reads back, which is what \<open>repr\<close> promises of
  every float and what evaluation decides of each.
\<close>

fun plain :: "json \<Rightarrow> bool" where
  "plain (JInt n) \<longleftrightarrow> length (dec_str \<bar>n\<bar>) \<le> 4300"
| "plain (JFloat x) \<longleftrightarrow> x \<in> {NaN, PInf, NInf} \<or> scan_number (float_repr x) = Inr (JFloat x, [])"
| "plain (JArr xs) \<longleftrightarrow> list_all plain xs"
| "plain (JObj d) \<longleftrightarrow> list_all (\<lambda>(k, v). plain v) d"
| "plain _ \<longleftrightarrow> True"

definition separators :: "string \<Rightarrow> string \<Rightarrow> bool" where
  "separators isep ksep \<longleftrightarrow> (\<exists>w v. isep = CHR '','' # w \<and> ksep = CHR '':'' # v \<and>
     list_all json_space w \<and> list_all json_space v)"

lemma separators_used: "separators '', '' '': ''" "separators '','' '':''"
  by (simp_all add: separators_def json_space_def)

definition starts :: "string \<Rightarrow> bool" where
  "starts s \<longleftrightarrow> (case s of [] \<Rightarrow> False | c # _ \<Rightarrow> \<not> json_space c \<and> c \<notin> {CHR '','', CHR '']'', CHR ''}''})"

lemma starts_append [simp]: "starts s \<Longrightarrow> starts (s @ t)"
  by (cases s) (auto simp: starts_def)

lemma skip_ws_append: "list_all json_space w \<Longrightarrow> starts s \<Longrightarrow> skip_ws (w @ s) = s"
  by (cases s) (auto simp: skip_ws_def starts_def list_all_iff dropWhile_append2)

lemma skip_ws_starts: "starts s \<Longrightarrow> skip_ws s = s"
  using skip_ws_append [of "[]" s] by simp

lemma skip_ws_mark [simp]:
  "skip_ws (CHR '','' # s) = CHR '','' # s" "skip_ws (CHR '']'' # s) = CHR '']'' # s"
  "skip_ws (CHR ''}'' # s) = CHR ''}'' # s" "skip_ws (CHR '':'' # s) = CHR '':'' # s"
  by (simp_all add: skip_ws_def json_space_def)

lemma starts_quote: "starts (json_quote k)"
  by (simp add: starts_def json_quote_def json_space_def char_eq_iff)

lemma starts_dumps: "starts (dumps isep ksep v)" if "plain v"
proof (cases v)
  case (JInt n)
  then show ?thesis using int_str_start [of n]
    by (auto simp: starts_def json_space_def is_digit_def Let_def)
next
  case (JFloat x)
  have "starts (float_repr x)" if "scan_number (float_repr x) = Inr (JFloat x, [])"
    using scan_number_start [OF that] by (auto simp: starts_def json_space_def is_digit_def Let_def)
  then show ?thesis using JFloat that by (cases x) (auto simp: starts_def json_space_def)
next
  case (JStr s)
  then show ?thesis by (simp add: starts_quote)
qed (auto simp: starts_def json_space_def)

lemma join_start: "\<exists>t. join sep (x # xs) = x @ t"
  by (cases xs) simp_all

lemma starts_join: "xs \<noteq> [] \<Longrightarrow> \<forall>x \<in> set xs. starts (f x) \<Longrightarrow> starts (join sep (map f xs) @ rest)"
  using join_start [of sep "f (hd xs)" "map f (tl xs)"] by (cases xs) auto

lemma dmerge_distinct: "distinct (map fst (d @ e)) \<Longrightarrow> dmerge d e = d @ e"
proof (induction e arbitrary: d)
  case (Cons kv e)
  obtain k v where kv: "kv = (k, v)" by (cases kv)
  have "dset k v d = d @ [(k, v)]" if "k \<notin> fst ` set d" for d
    using that by (induction d) (auto simp: dict_simps)
  then have "dset k v d = d @ [(k, v)]" using Cons.prems by (simp add: kv)
  moreover have "dmerge (d @ [(k, v)]) e = (d @ [(k, v)]) @ e" using Cons.prems by (intro Cons.IH) (simp add: kv)
  ultimately show ?case by (simp add: kv dict_simps)
qed (simp add: dict_simps)

text \<open>What the readers are proved to do on one printed value.\<close>

definition rereads :: "string \<Rightarrow> string \<Rightarrow> json \<Rightarrow> bool" where
  "rereads isep ksep v \<longleftrightarrow> (\<forall>n rest. 2 * length (dumps isep ksep v) + 1 \<le> n \<longrightarrow> stops rest \<longrightarrow>
     scan_value n (dumps isep ksep v @ rest) = Inr (v, rest))"

lemma rereadsD: "rereads isep ksep v \<Longrightarrow> 2 * length (dumps isep ksep v) + 1 \<le> n \<Longrightarrow> stops rest \<Longrightarrow>
    scan_value n (dumps isep ksep v @ rest) = Inr (v, rest)"
  by (simp add: rereads_def)

lemma scan_items_join:
  assumes "separators isep ksep" "xs \<noteq> []" "\<forall>x \<in> set xs. rereads isep ksep x \<and> plain x"
    and "2 * length (join isep (map (dumps isep ksep) xs)) + 2 \<le> n"
  shows "scan_items n (join isep (map (dumps isep ksep) xs) @ CHR '']'' # rest) = Inr (xs, rest)"
  using assms(2-)
proof (induction xs arbitrary: n rule: list_nonempty_induct)
  case (single x)
  then obtain m where m: "n = Suc m" "2 * length (dumps isep ksep x) + 1 \<le> m" by (cases n) auto
  have "scan_value m (dumps isep ksep x @ CHR '']'' # rest) = Inr (x, CHR '']'' # rest)"
    using single m by (intro rereadsD) (simp_all add: stops_def)
  then show ?case by (simp add: m)
next
  case (cons x xs)
  obtain w where w: "isep = CHR '','' # w" "list_all json_space w"
    using assms(1) by (auto simp: separators_def)
  let ?tail = "join isep (map (dumps isep ksep) xs) @ CHR '']'' # rest"
  have j: "join isep (map (dumps isep ksep) (x # xs)) = dumps isep ksep x @ isep @ join isep (map (dumps isep ksep) xs)"
    using cons(1) by (cases xs) simp_all
  obtain m where m: "n = Suc m" "2 * length (dumps isep ksep x) + 1 \<le> m"
    "2 * length (join isep (map (dumps isep ksep) xs)) + 2 \<le> m"
    using cons.prems(2) unfolding j by (cases n) (auto simp: w)
  have "starts ?tail"
    using cons(1) cons.prems(1) by (intro starts_join) (simp_all add: starts_dumps)
  then have skip: "skip_ws (w @ ?tail) = ?tail" using w(2) by (rule skip_ws_append [rotated])
  have "scan_value m (dumps isep ksep x @ CHR '','' # w @ ?tail) = Inr (x, CHR '','' # w @ ?tail)"
    using cons.prems m by (intro rereadsD) (simp_all add: stops_def)
  moreover have "scan_items m ?tail = Inr (xs, rest)" using cons m by simp
  ultimately show ?case unfolding j by (simp add: m w skip [unfolded w])
qed

definition member_text :: "string \<Rightarrow> string \<Rightarrow> string \<times> json \<Rightarrow> string" where
  "member_text isep ksep kv = json_quote (fst kv) @ ksep @ dumps isep ksep (snd kv)"

lemma starts_member: "starts (member_text isep ksep kv)"
  by (simp add: member_text_def starts_quote)

lemma scan_member:
  assumes "separators isep ksep" "rereads isep ksep x" "plain x"
    and "2 * length (member_text isep ksep (k, x)) + 1 \<le> n" "stops (d # r)"
  shows "scan_members (Suc n) (member_text isep ksep (k, x) @ d # r) =
    (if d = CHR ''}'' then Inr ([(k, x)], r)
     else if d = CHR '','' then res_map (\<lambda>(m, rest). ((k, x) # m, rest)) (scan_members n (skip_ws r))
     else Inl decode_error)"
proof -
  obtain w where w: "ksep = CHR '':'' # w" "list_all json_space w"
    using assms(1) by (auto simp: separators_def)
  let ?v = "dumps isep ksep x @ d # r"
  have tx: "member_text isep ksep (k, x) @ d # r =
      char_of (34::int) # concat (map json_char k) @ char_of (34::int) # CHR '':'' # w @ ?v"
    by (simp add: member_text_def json_quote_def w)
  have "scan_value n ?v = Inr (x, d # r)"
    using assms(4) by (intro rereadsD [OF assms(2) _ assms(5)]) (simp add: member_text_def)
  moreover have "skip_ws (w @ ?v) = ?v"
    using w(2) starts_dumps [OF assms(3), of isep ksep] by (intro skip_ws_append) simp_all
  moreover have "skip_ws (d # r) = d # r"
    using assms(5) by (auto simp: stops_def)
  ultimately show ?thesis
    unfolding tx scan_members.simps list.case scan_quoted option.case prod.case skip_ws_mark
    by simp
qed

lemma scan_members_join:
  assumes "separators isep ksep" "d \<noteq> []" "\<forall>(k, x) \<in> set d. rereads isep ksep x \<and> plain x"
    and "2 * length (join isep (map (member_text isep ksep) d)) + 2 \<le> n"
  shows "scan_members n (join isep (map (member_text isep ksep) d) @ CHR ''}'' # rest) = Inr (d, rest)"
  using assms(2-)
proof (induction d arbitrary: n rule: list_nonempty_induct)
  case (single kx)
  obtain k x where kx: "kx = (k, x)" by (cases kx)
  obtain m where m: "n = Suc m" "2 * length (member_text isep ksep (k, x)) + 1 \<le> m"
    using single by (cases n) (auto simp: kx)
  show ?case
    using single(1) scan_member [OF assms(1) _ _ m(2), of "CHR ''}''" rest]
    by (simp add: kx m(1) stops_def del: scan_members.simps)
next
  case (cons kx d)
  obtain k x where kx: "kx = (k, x)" by (cases kx)
  obtain w where w: "isep = CHR '','' # w" "list_all json_space w"
    using assms(1) by (auto simp: separators_def)
  let ?tail = "join isep (map (member_text isep ksep) d) @ CHR ''}'' # rest"
  have j: "join isep (map (member_text isep ksep) (kx # d)) =
      member_text isep ksep (k, x) @ isep @ join isep (map (member_text isep ksep) d)"
    using cons(1) by (cases d) (simp_all add: kx)
  obtain m where m: "n = Suc m" "2 * length (member_text isep ksep (k, x)) + 1 \<le> m"
    "2 * length (join isep (map (member_text isep ksep) d)) + 2 \<le> m"
    using cons.prems(2) unfolding j by (cases n) (auto simp: w)
  have "starts ?tail"
    using cons(1) by (intro starts_join) (simp_all add: starts_member)
  then have skip: "skip_ws (w @ ?tail) = ?tail" using w(2) by (rule skip_ws_append [rotated])
  have "scan_members m ?tail = Inr (d, rest)" using cons m by simp
  moreover have "scan_members n (member_text isep ksep (k, x) @ CHR '','' # w @ ?tail) =
      res_map (\<lambda>(m, rest). ((k, x) # m, rest)) (scan_members m (skip_ws (w @ ?tail)))"
    unfolding m(1) using cons.prems(1)
    by (subst scan_member [OF assms(1) _ _ m(2)]) (simp_all add: kx stops_def)
  ultimately show ?case unfolding j by (simp add: w(1) skip [unfolded w(1)] kx del: scan_members.simps)
qed

lemma scan_leaf:
  "scan_value (Suc n) (''null'' @ rest) = Inr (JNull, rest)"
  "scan_value (Suc n) (''true'' @ rest) = Inr (JBool True, rest)"
  "scan_value (Suc n) (''false'' @ rest) = Inr (JBool False, rest)"
  "scan_value (Suc n) (''NaN'' @ rest) = Inr (JFloat NaN, rest)"
  "scan_value (Suc n) (''Infinity'' @ rest) = Inr (JFloat PInf, rest)"
  "scan_value (Suc n) (''-Infinity'' @ rest) = Inr (JFloat NInf, rest)"
  by (simp_all add: scan_literal_def literals_def startswith_def)

lemma scan_value_number:
  assumes "scan_number s = Inr (x, [])" "stops rest"
  shows "scan_value (Suc n) (s @ rest) = Inr (x, rest)"
proof -
  obtain c cs where c: "s = c # cs"
    and d: "c = CHR ''-'' \<and> (\<exists>d ds. cs = d # ds \<and> is_digit d) \<or> is_digit c"
    using scan_number_start [OF assms(1)] by blast
  have lit: "scan_literal (c # cs @ rest) = None" using d digit_no_literal by auto
  have "(of_char c :: int) \<noteq> 34" "c \<noteq> CHR ''{''" "c \<noteq> CHR ''[''"
    using d by (auto simp: is_digit_def)
  then have "scan_value (Suc n) (c # cs @ rest) = scan_number (c # cs @ rest)" by (simp add: lit)
  then show ?thesis using scan_number_stops [OF assms] by (simp add: c)
qed

lemma scan_int:
  "length (dec_str \<bar>k\<bar>) \<le> 4300 \<Longrightarrow> stops rest \<Longrightarrow>
     scan_value (Suc n) (int_str k @ rest) = Inr (JInt k, rest)"
  using scan_value_number [of "int_str k" "JInt k" rest n] scan_number_int [of k "[]"]
  by (simp add: stops_def del: scan_value.simps)

lemma dumps_obj: "dumps isep ksep (JObj d) = CHR ''{'' # join isep (map (member_text isep ksep) d) @ [CHR ''}'']"
proof -
  have "(\<lambda>(k, v). json_quote k @ ksep @ dumps isep ksep v) = member_text isep ksep"
    by (auto simp: member_text_def)
  then show ?thesis by simp
qed

lemma rereads_leaf:
  assumes "\<And>n rest. stops rest \<Longrightarrow> scan_value (Suc n) (dumps isep ksep v @ rest) = Inr (v, rest)"
  shows "rereads isep ksep v"
  unfolding rereads_def
proof (intro allI impI)
  fix n rest
  assume "2 * length (dumps isep ksep v) + 1 \<le> n" "stops rest"
  then show "scan_value n (dumps isep ksep v @ rest) = Inr (v, rest)"
    using assms by (cases n) simp_all
qed

lemma plain_rereads:
  assumes sep: "separators isep ksep"
  shows "plain v \<Longrightarrow> wf_json v \<Longrightarrow> rereads isep ksep v"
proof (induction v)
  case (JFloat x)
  show ?case
  proof (rule rereads_leaf)
    fix n rest
    assume "stops rest"
    then show "scan_value (Suc n) (dumps isep ksep (JFloat x) @ rest) = Inr (JFloat x, rest)"
      using JFloat scan_value_number [of "float_repr x" "JFloat x" rest n]
      by (cases x) (auto simp del: scan_value.simps simp: scan_leaf [simplified])
  qed
next
  case (JInt k)
  then show ?case by (intro rereads_leaf) (simp del: scan_value.simps add: scan_int)
next
  case (JStr s)
  have "scan_value (Suc n) (json_quote s @ rest) = Inr (JStr s, rest)" for n rest
    using scan_quoted [of s rest] by (simp add: json_quote_def)
  then show ?case by (intro rereads_leaf) (simp del: scan_value.simps)
next
  case (JArr xs)
  have "scan_value n (dumps isep ksep (JArr xs) @ rest) = Inr (JArr xs, rest)"
    if n: "2 * length (dumps isep ksep (JArr xs)) + 1 \<le> n" for n rest
  proof (cases "xs = []")
    case True
    with n show ?thesis by (cases n) simp_all
  next
    case False
    let ?text = "join isep (map (dumps isep ksep) xs)"
    obtain m where m: "n = Suc m" "2 * length ?text + 2 \<le> m" using n by (cases n) auto
    have all: "\<forall>x \<in> set xs. rereads isep ksep x \<and> plain x"
      using JArr by (auto simp: list_all_iff)
    have "scan_items m (?text @ CHR '']'' # rest) = Inr (xs, rest)"
      by (rule scan_items_join [OF sep False all m(2)])
    moreover have s: "starts (?text @ CHR '']'' # rest)"
      using False all by (intro starts_join) (simp_all add: starts_dumps)
    moreover obtain d ds where d: "?text @ CHR '']'' # rest = d # ds" by (cases "?text @ CHR '']'' # rest") auto
    moreover have "d \<noteq> CHR '']''" using s by (simp add: d starts_def)
    ultimately show ?thesis using skip_ws_starts [OF s]
      by (simp add: m(1) d)
  qed
  then show ?case by (simp add: rereads_def)
next
  case (JObj d)
  have "scan_value n (dumps isep ksep (JObj d) @ rest) = Inr (JObj d, rest)"
    if n: "2 * length (dumps isep ksep (JObj d)) + 1 \<le> n" for n rest
  proof (cases "d = []")
    case True
    with n show ?thesis by (cases n) simp_all
  next
    case False
    let ?text = "join isep (map (member_text isep ksep) d)"
    obtain m where m: "n = Suc m" "2 * length ?text + 2 \<le> m" using n unfolding dumps_obj by (cases n) auto
    have all: "\<forall>(k, x) \<in> set d. rereads isep ksep x \<and> plain x"
      using JObj by (fastforce simp: list_all_iff)
    have "scan_members m (?text @ CHR ''}'' # rest) = Inr (d, rest)"
      by (rule scan_members_join [OF sep False all m(2)])
    moreover have s: "starts (?text @ CHR ''}'' # rest)"
      using False by (intro starts_join) (simp_all add: starts_member)
    moreover obtain c cs where c: "?text @ CHR ''}'' # rest = c # cs" by (cases "?text @ CHR ''}'' # rest") auto
    moreover have "c \<noteq> CHR ''}''" using s by (simp add: c starts_def)
    moreover have "dmerge [] d = d" using dmerge_distinct [of "[]" d] JObj.prems(2) by (simp add: wf_dict_def)
    ultimately show ?thesis using skip_ws_starts [OF s]
      unfolding dumps_obj by (simp add: m(1) c)
  qed
  then show ?case by (simp only: rereads_def) blast
next
  case (JBool b)
  then show ?case
    by (intro rereads_leaf) (auto simp del: scan_value.simps simp: scan_leaf [simplified])
next
  case JNull
  then show ?case
    by (intro rereads_leaf) (auto simp del: scan_value.simps simp: scan_leaf [simplified])
qed

section \<open>Errors\<close>

text \<open>The two exceptions of \<open>json.loads\<close>.\<close>

definition read_error :: "exn \<Rightarrow> bool" where
  "read_error e \<longleftrightarrow> (\<exists>m. e = JSONDecodeError m \<or> e = ValueError m)"

definition read_ok :: "'a res \<Rightarrow> bool" where
  "read_ok r \<longleftrightarrow> (case r of Inl e \<Rightarrow> e = no_fuel \<or> read_error e | Inr _ \<Rightarrow> True)"

lemma read_ok_simps [simp]:
  "read_ok (Inr x)" "read_ok (Inl decode_error)" "read_ok (Inl no_fuel)" "read_ok (Inl (ValueError m))"
  "read_ok (Inl (JSONDecodeError m))" "read_ok (res_map f r) \<longleftrightarrow> read_ok r"
  by (simp_all add: read_ok_def read_error_def decode_error_def split: sum.split)

lemma read_ok_bind: "read_ok r \<Longrightarrow> (\<And>x. r = Inr x \<Longrightarrow> read_ok (f x)) \<Longrightarrow> read_ok (res_bind r f)"
  by (cases r) (auto simp: read_ok_def)

lemma scan_number_ok: "read_ok (scan_number s)"
  by (auto simp: scan_number_def Let_def split: prod.split option.split)

lemma scan_ok: "read_ok (scan_value n s)" "read_ok (scan_items n s)" "read_ok (scan_members n s)"
proof (induction n s and n s and n s rule: scan_value_scan_items_scan_members.induct)
  case (2 n s)
  then show ?case by (auto simp: scan_number_ok split: list.split option.split)
next
  case (4 n s)
  show ?case unfolding scan_items.simps
    by (rule read_ok_bind [OF "4.IH"(1)]) (auto split: list.split intro: "4.IH"(2))
next
  case (6 n s)
  then show ?case
    by (auto split: list.split option.split intro!: read_ok_bind)
qed simp_all

section \<open>Text there and back\<close>

text \<open>Reading JSON text always ends, with a value whose objects have distinct keys or with one of
  the two exceptions of \<open>json.loads\<close>: the bound on the depth of the reader is never reached.\<close>

lemma json_loads_total:
  "case json_loads s of Inr v \<Rightarrow> wf_json v | Inl e \<Rightarrow> e \<noteq> no_fuel \<and> read_error e"
proof (cases "json_loads s")
  case (Inl e)
  have "read_ok (json_loads s)"
    unfolding json_loads_def by (intro read_ok_bind scan_ok) (auto split: prod.split)
  with Inl json_loads_fuel [of s] show ?thesis by (simp add: read_ok_def)
qed (simp add: json_loads_wf)

text \<open>
  JSON text is exact: a plain value whose objects have distinct keys is read back from its text as
  itself, with either pair of separators.
\<close>

lemma json_text_roundtrip:
  assumes "separators isep ksep" "wf_json v" "plain v"
  shows "json_loads (dumps isep ksep v) = Inr v"
proof -
  let ?text = "dumps isep ksep v"
  have "scan_value (2 * length ?text + 2) (?text @ []) = Inr (v, [])"
    by (rule rereadsD [OF plain_rereads [OF assms(1,3,2)]]) (simp_all add: stops_def)
  moreover have "skip_ws ?text = ?text" by (rule skip_ws_starts [OF starts_dumps [OF assms(3)]])
  moreover have "skip_ws [] = []" by (simp add: skip_ws_def)
  ultimately show ?thesis by (simp add: json_loads_def del: scan_value.simps)
qed

lemma plain_sort_json: "plain v \<Longrightarrow> plain (sort_json v)"
  by (induction v rule: sort_json.induct) (fastforce simp: list_all_iff)+

lemma dget_sort_json:
  assumes "wf_dict d"
  shows "dget (obj_or_empty (sort_json (JObj d))) k = map_option sort_json (dget d k)"
proof -
  let ?e = "map (\<lambda>(k, v). (k, sort_json v)) d"
  have keys: "map fst ?e = map fst d" by (rule map_fst_sort_json)
  have "map_of (sort_key fst ?e) = map_of ?e"
  proof (rule map_of_eqI)
    show "set (map fst (sort_key fst ?e)) = set (map fst ?e)" by (simp add: image_image)
    have e: "distinct (map fst ?e)" using assms unfolding keys wf_dict_def .
    then have s: "distinct (map fst (sort_key fst ?e))" by (simp only: distinct_map_sort_key)
    show "\<forall>x \<in> set (map fst (sort_key fst ?e)). map_of (sort_key fst ?e) x = map_of ?e x"
    proof
      fix x
      assume "x \<in> set (map fst (sort_key fst ?e))"
      then obtain kv where "kv \<in> set (sort_key fst ?e)" "x = fst kv" unfolding set_map by (rule imageE)
      then have v: "(x, snd kv) \<in> set (sort_key fst ?e)" by simp
      then have "(x, snd kv) \<in> set ?e" unfolding set_sort .
      with e s v show "map_of (sort_key fst ?e) x = map_of ?e x" by (simp only: map_of_is_SomeI)
    qed
  qed
  moreover have "map_of ?e k = map_option sort_json (map_of d k)" by (induction d) auto
  ultimately show ?thesis by (simp add: dget_def)
qed

lemma jget_sort_json: "wf_dict d \<Longrightarrow> jget (obj_or_empty (sort_json (JObj d))) k = sort_json (jget d k)"
  by (auto simp del: sort_json.simps(2) simp: jget_def dget_sort_json split: option.split)

text \<open>The number 1 as a float, whose text is \<open>1.0\<close>.\<close>

lemma shortest_one: "shortest_from 1 1 [1..<18] = (1, 1)"
proof -
  have e: "[1..<18] = 1 # [2..<18]" by (simp add: upt_conv_Cons)
  have c: "short_candidate 1 1 1 = Some 1" by (simp add: short_candidate_def Let_def float_simps)
  show ?thesis unfolding e shortest_from.simps c by simp
qed

lemma float_repr_one: "float_repr (Fin 1) = ''1.0''"
proof -
  have e: "dec_exp 1 = 1" using dec_up.simps(2) [of 399 1] by (simp add: dec_exp_def)
  have d: "dec_str 1 = ''1''" by code_simp
  have "pos_repr 1 = layout (strip_zeros ''1'') (1 + int (length ''1'') - int 1)"
    unfolding pos_repr_def e shortest_one Let_def prod.case d ..
  then show ?thesis by (simp add: float_repr_def layout_def strip_zeros_def text_simps zeros_def)
qed

lemma plain_one: "plain (JFloat (Fin 1))"
proof -
  have "scan_number ''1.0'' = Inr (JFloat (Fin 1), [])"
    by (simp add: scan_number_def scan_int_part_def scan_fraction_def scan_exponent_def is_digit_def
        parse_float_def text_simps split_sign_def parse_decimal_def mantissa_part_def digits_val_def
        parse_exponent_def digit_val_def float_simps Let_def)
  then show ?thesis by (simp add: float_repr_one)
qed

end
