(* ===== verification/Executor.thy ===== *)
theory Executor
  imports Validator Py_Json_Text
begin

text \<open>
  \<open>app/executor.py\<close>: the best-effort process runner. What a skill returns is a Python value;
  the program converts it to JSON, checks it and reports it. Running the skill's code is a
  parameter (\<open>skill_world\<close>): what executing the module defines, what calling the function
  returns, and whether the process was still alive when the parent stopped waiting.
\<close>

section \<open>Requests and Python values\<close>

text \<open>The keyword arguments of every \<open>execute\<close> method.\<close>

record exec_request =
  rq_skill :: string
  rq_code :: string
  rq_inputs :: dict
  rq_function :: "string option"
  rq_timeout :: pyfloat

text \<open>
  What a skill may return. \<open>PObject\<close> is any other object: the name of its type and the text
  \<open>str\<close> gives of it.
\<close>

datatype pyval =
    PNone
  | PBool bool
  | PInt int
  | PFloat pyfloat
  | PStr string
  | PList "pyval list"
  | PTuple "pyval list"
  | PDict "(pyval \<times> pyval) list"
  | PObject string string

fun pv_type :: "pyval \<Rightarrow> string" where
  "pv_type PNone = ''NoneType''"
| "pv_type (PBool _) = ''bool''"
| "pv_type (PInt _) = ''int''"
| "pv_type (PFloat _) = ''float''"
| "pv_type (PStr _) = ''str''"
| "pv_type (PList _) = ''list''"
| "pv_type (PTuple _) = ''tuple''"
| "pv_type (PDict _) = ''dict''"
| "pv_type (PObject t _) = t"

fun pv_repr :: "pyval \<Rightarrow> string" where
  "pv_repr PNone = ''None''"
| "pv_repr (PBool b) = (if b then ''True'' else ''False'')"
| "pv_repr (PInt n) = int_str n"
| "pv_repr (PFloat x) = float_repr x"
| "pv_repr (PStr s) = str_repr s"
| "pv_repr (PList xs) = ''['' @ join '', '' (map pv_repr xs) @ '']''"
| "pv_repr (PTuple xs) =
     ''('' @ join '', '' (map pv_repr xs) @ (if length xs = 1 then '','' else []) @ '')''"
| "pv_repr (PDict d) =
     ''{'' @ join '', '' (map (\<lambda>(k, v). pv_repr k @ '': '' @ pv_repr v) d) @ ''}''"
| "pv_repr (PObject _ s) = s"

definition pv_str :: "pyval \<Rightarrow> string" where
  "pv_str v = (case v of PStr s \<Rightarrow> s | _ \<Rightarrow> pv_repr v)"

text \<open>\<open>str(exc)\<close>.\<close>

fun exn_text :: "exn \<Rightarrow> string" where
  "exn_text (KeyError k) = str_repr k"
| "exn_text (ValueError m) = m"
| "exn_text (JSONDecodeError m) = m"
| "exn_text (TypeError m) = m"
| "exn_text (OverflowError m) = m"
| "exn_text ZeroDivisionError = ''division by zero''"
| "exn_text (AttributeError m) = m"
| "exn_text (RuntimeError m) = m"
| "exn_text (IntegrityError m) = m"
| "exn_text (SkillExecutionError m) = m"
| "exn_text (HTTPException n m) = int_str (int n) @ '': '' @ m"

section \<open>The introspection check\<close>

definition forbidden_introspection :: "string list" where
  "forbidden_introspection =
     [''__bases__'', ''__class__'', ''__closure__'', ''__code__'', ''__func__'', ''__globals__'',
      ''__mro__'', ''__self__'', ''__subclasses__'']"

fun introspection_error :: "pyast \<Rightarrow> string option" where
  "introspection_error (Attribute _ a) =
     (if a \<in> set forbidden_introspection \<or> startswith a ''__'' \<and> endswith a ''__''
      then Some (''forbidden_introspection_attribute: '' @ a) else None)"
| "introspection_error (Name i) =
     (if i \<in> set forbidden_introspection
      then Some (''forbidden_introspection_name: '' @ i) else None)"
| "introspection_error _ = None"

text \<open>\<open>_validate_best_effort_code\<close>: the text of the error it raises, if any.\<close>

definition validate_best_effort_code :: "parser \<Rightarrow> string \<Rightarrow> string option" where
  "validate_best_effort_code parse code = (case parse code of
       Inl (msg, _) \<Rightarrow> Some (''skill_syntax_error: '' @ msg)
     | Inr tree \<Rightarrow> List.find (\<lambda>_. True) (List.map_filter introspection_error (walk tree)))"

lemma find_True: "List.find (\<lambda>_. True) xs = (case xs of [] \<Rightarrow> None | x # _ \<Rightarrow> Some x)"
  by (cases xs) simp_all

lemma map_filter_Nil: "List.map_filter f xs = [] \<longleftrightarrow> (\<forall>x \<in> set xs. f x = None)"
  by (induction xs) (auto simp: List.map_filter_simps split: option.split)

lemma validate_best_effort_code_None:
  "validate_best_effort_code parse code = None \<longleftrightarrow>
     (\<exists>tree. parse code = Inr tree \<and> (\<forall>t \<in> nodes tree. introspection_error t = None))"
proof (cases "parse code")
  case (Inr tree)
  have "validate_best_effort_code parse code = None \<longleftrightarrow>
      List.map_filter introspection_error (walk tree) = []"
    by (simp add: validate_best_effort_code_def Inr find_True split: list.split)
  then show ?thesis by (simp add: map_filter_Nil set_walk Inr)
qed (simp add: validate_best_effort_code_def split: prod.split)

section \<open>The output of a skill\<close>

text \<open>\<open>_json_safe\<close>: two keys with the same text become one, with the later value.\<close>

fun json_safe :: "pyval \<Rightarrow> json res" where
  "json_safe PNone = Inr JNull"
| "json_safe (PBool b) = Inr (JBool b)"
| "json_safe (PInt n) = Inr (JInt n)"
| "json_safe (PFloat x) = Inr (JFloat x)"
| "json_safe (PStr s) = Inr (JStr s)"
| "json_safe (PList xs) = res_map JArr (res_all (map json_safe xs))"
| "json_safe (PTuple xs) = res_map JArr (res_all (map json_safe xs))"
| "json_safe (PDict d) = res_map (\<lambda>kvs. JObj (dmerge [] kvs))
     (res_all (map (\<lambda>(k, v). res_map (Pair (pv_str k)) (json_safe v)) d))"
| "json_safe (PObject t _) = Inl (SkillExecutionError (''non_json_serializable_output: '' @ t))"

definition forbidden_output_keys :: "string list" where
  "forbidden_output_keys =
     [''broker_order_id'', ''client_order_id'', ''order_id'', ''risk_approval_id'', ''secret_key'',
      ''api_key'', ''private_key'']"

definition forbidden_keys_of :: "string list \<Rightarrow> dict \<Rightarrow> string list" where
  "forbidden_keys_of banned d = sort (filter (\<lambda>k. k \<in> lower ` set (dkeys d)) banned)"

text \<open>The confidence of the output; an overflow of \<open>float\<close> is not caught.\<close>

definition check_confidence :: "dict \<Rightarrow> dict res" where
  "check_confidence d = (case dget d ''confidence'' of
       None \<Rightarrow> Inr d
     | Some v \<Rightarrow> (case to_float v of
           Inl e \<Rightarrow> Inl (if is_type_or_value_error e
             then SkillExecutionError ''confidence_must_be_numeric'' else e)
         | Inr x \<Rightarrow> if f_lt x (Fin 0) \<or> f_lt (Fin 1) x
             then Inl (SkillExecutionError ''confidence_must_be_between_0_and_1'')
             else Inr (dset ''confidence'' (JFloat x) d)))"

definition validate_signal_output :: "pyval \<Rightarrow> dict res" where
  "validate_signal_output v = res_bind (json_safe v) (\<lambda>safe.
     case safe of
       JObj d \<Rightarrow>
         (let bad = forbidden_keys_of forbidden_output_keys d in
          if bad \<noteq> [] then Inl (SkillExecutionError (''forbidden_output_keys: '' @ join '', '' bad))
          else check_confidence d)
     | _ \<Rightarrow> Inl (SkillExecutionError ''skill_output_must_be_json_object''))"

section \<open>The child process\<close>

text \<open>
  What running code can do: it returns, raises an exception with a text, or ends the process
  (\<open>SystemExit\<close>, a crash) without a result.
\<close>

datatype 'a run = Returned 'a | Raised string | Died

text \<open>The names a module defines, in order, with whether their value is callable.\<close>

type_synonym namespace = "(string \<times> bool) list"

record skill_world =
  w_exec :: "string \<Rightarrow> namespace run"
  w_call :: "string \<Rightarrow> string \<Rightarrow> dict \<Rightarrow> pyval run"
  w_alive :: bool
  w_elapsed :: pyfloat

definition select_callable :: "namespace \<Rightarrow> string option \<Rightarrow> string res" where
  "select_callable ns fn =
     (if str_true fn then
        (if dget ns (the fn) = Some True then Inr (the fn)
         else Inl (SkillExecutionError (''skill_function_not_found: '' @ the fn)))
      else
        (case sort (map fst (filter (\<lambda>(n, c). c \<and> \<not> startswith n ''_'') ns)) of
           [] \<Rightarrow> Inl (SkillExecutionError ''skill_has_no_callable_function'')
         | n # _ \<Rightarrow> Inr n))"

definition failed_message :: "string \<Rightarrow> dict" where
  "failed_message e = [(''status'', JStr ''failed''), (''error'', JStr e)]"

text \<open>\<open>_execute_in_child\<close>: the message it puts on the queue, if it gets that far.\<close>

definition execute_in_child :: "skill_world \<Rightarrow> exec_request \<Rightarrow> dict option" where
  "execute_in_child w q = (case w_exec w (rq_code q) of
       Died \<Rightarrow> None
     | Raised e \<Rightarrow> Some (failed_message e)
     | Returned ns \<Rightarrow> (case select_callable ns (rq_function q) of
           Inl e \<Rightarrow> Some (failed_message (exn_text e))
         | Inr fn \<Rightarrow> (case w_call w (rq_code q) fn (rq_inputs q) of
               Died \<Rightarrow> None
             | Raised e \<Rightarrow> Some (failed_message e)
             | Returned v \<Rightarrow> (case validate_signal_output v of
                   Inl e \<Rightarrow> Some (failed_message (exn_text e))
                 | Inr out \<Rightarrow>
                     Some [(''status'', JStr ''success''), (''function_name'', JStr fn),
                       (''output'', JObj out)]))))"

section \<open>The parent process\<close>

definition best_effort :: json where
  "best_effort = JStr ''best_effort_not_a_true_sandbox''"

definition signal_safety :: json where
  "signal_safety = JObj [(''broker_access'', JBool False), (''network_access'', JBool False),
     (''file_access'', JBool False), (''order_placement'', JBool False)]"

text \<open>\<open>max(0.1, min(float(timeout_seconds or 1.0), 5.0))\<close>.\<close>

definition process_timeout :: "pyfloat \<Rightarrow> pyfloat" where
  "process_timeout t =
     py_max (to_b64 (1 / 10)) (py_min (if f_eq t (Fin 0) then Fin 1 else t) (Fin 5))"

text \<open>\<open>SafeSkillExecutor.execute\<close>.\<close>

definition process_execute :: "parser \<Rightarrow> skill_world \<Rightarrow> exec_request \<Rightarrow> dict" where
  "process_execute parse w q = (case validate_best_effort_code parse (rq_code q) of
       Some e \<Rightarrow>
         [(''skill_id'', JStr (rq_skill q)), (''execution_status'', JStr ''rejected_unsafe_code''),
          (''error'', JStr e), (''output'', JObj []), (''isolation'', best_effort)]
     | None \<Rightarrow>
         if w_alive w then
           [(''skill_id'', JStr (rq_skill q)), (''execution_status'', JStr ''timeout''),
            (''error'', JStr (''skill_execution_timeout_after_''
               @ float_repr (process_timeout (rq_timeout q)) @ ''_seconds'')),
            (''elapsed_ms'', JFloat (w_elapsed w))]
         else (case execute_in_child w q of
             None \<Rightarrow>
               [(''skill_id'', JStr (rq_skill q)), (''execution_status'', JStr ''failed''),
                (''error'', JStr ''skill_process_exited_without_result''),
                (''elapsed_ms'', JFloat (w_elapsed w))]
           | Some r \<Rightarrow>
               if jget r ''status'' \<noteq> JStr ''success'' then
                 [(''skill_id'', JStr (rq_skill q)), (''execution_status'', JStr ''failed''),
                  (''error'', py_or (jget r ''error'') (JStr ''unknown_skill_execution_error'')),
                  (''elapsed_ms'', JFloat (w_elapsed w))]
               else
                 [(''skill_id'', JStr (rq_skill q)), (''execution_status'', JStr ''success''),
                  (''function_name'', jget r ''function_name''),
                  (''output'', py_or (jget r ''output'') (JObj [])),
                  (''elapsed_ms'', JFloat (w_elapsed w)), (''safety'', signal_safety),
                  (''isolation'', best_effort)]))"

section \<open>What the runner guarantees\<close>

lemma wf_dict_json_safe:
  "json_safe v = Inr (JObj d) \<Longrightarrow> wf_dict d"
  by (cases v) (auto simp: res_map_eq_Inr)

lemma forbidden_keys_Nil:
  "forbidden_keys_of banned d = [] \<longleftrightarrow> (\<forall>k \<in> set (dkeys d). lower k \<notin> set banned)"
proof -
  have "forbidden_keys_of banned d = [] \<longleftrightarrow> filter (\<lambda>k. k \<in> lower ` set (dkeys d)) banned = []"
    unfolding forbidden_keys_of_def by (metis set_empty set_sort)
  then show ?thesis by (auto simp: filter_empty_conv)
qed

lemma dkeys_dset: "set (dkeys (dset k v d)) = insert k (set (dkeys d))"
  by (simp add: dkeys_def dset_def dom_update)

text \<open>The contract of an accepted output.\<close>

definition signal_ok :: "string list \<Rightarrow> dict \<Rightarrow> bool" where
  "signal_ok banned d \<longleftrightarrow>
     wf_dict d \<and> (\<forall>k \<in> set (dkeys d). lower k \<notin> set banned) \<and>
     (\<forall>v. dget d ''confidence'' = Some v \<longrightarrow>
        (\<exists>x. v = JFloat x \<and> \<not> f_lt x (Fin 0) \<and> \<not> f_lt (Fin 1) x))"

lemma lower_confidence: "lower ''confidence'' = ''confidence''"
  by (simp add: text_simps)

lemma signal_ok_validate:
  assumes "validate_signal_output v = Inr d"
  shows "signal_ok forbidden_output_keys d"
proof -
  obtain e where e: "json_safe v = Inr (JObj e)" "forbidden_keys_of forbidden_output_keys e = []"
    "check_confidence e = Inr d"
  proof -
    obtain x where x: "json_safe v = Inr x" using assms by (auto simp: validate_signal_output_def)
    with assms show thesis
      by (cases x) (auto simp: validate_signal_output_def Let_def split: if_splits intro!: that)
  qed
  have wf: "wf_dict e" using e(1) by (rule wf_dict_json_safe)
  have keys: "\<forall>k \<in> set (dkeys e). lower k \<notin> set forbidden_output_keys"
    using e(2) by (simp only: forbidden_keys_Nil)
  show ?thesis
  proof (cases "dget e ''confidence''")
    case None
    then show ?thesis using e(3) wf keys by (simp add: check_confidence_def signal_ok_def)
  next
    case (Some c)
    then obtain x where x: "\<not> f_lt x (Fin 0)" "\<not> f_lt (Fin 1) x" "d = dset ''confidence'' (JFloat x) e"
      using e(3) by (auto simp: check_confidence_def split: sum.splits if_splits)
    have "''confidence'' \<in> set (dkeys e)"
      using Some by (force simp: dget_def dkeys_def dest: map_of_SomeD)
    with x wf keys show ?thesis by (auto simp: signal_ok_def dkeys_dset)
  qed
qed

lemma wf_validate: "validate_signal_output v = Inr d \<Longrightarrow> wf_dict d"
  using signal_ok_validate by (simp add: signal_ok_def)

lemma jget_child:
  assumes "execute_in_child w q = Some r" "jget r ''status'' = JStr ''success''"
  obtains ns fn v out where "w_exec w (rq_code q) = Returned ns"
    "select_callable ns (rq_function q) = Inr fn"
    "w_call w (rq_code q) fn (rq_inputs q) = Returned v" "validate_signal_output v = Inr out"
    "r = [(''status'', JStr ''success''), (''function_name'', JStr fn), (''output'', JObj out)]"
  using assms by (auto simp: execute_in_child_def failed_message_def dict_simps
      split: run.splits sum.splits)

lemma process_execute_wf: "wf_dict (process_execute parse w q)"
  by (simp add: process_execute_def wf_dict_def split: option.split)

text \<open>Success: the code passed the check, the process ended and the output is the checked one.\<close>

definition process_success :: "parser \<Rightarrow> skill_world \<Rightarrow> exec_request \<Rightarrow> string \<Rightarrow> dict \<Rightarrow> bool" where
  "process_success parse w q fn out \<longleftrightarrow>
     validate_best_effort_code parse (rq_code q) = None \<and> \<not> w_alive w \<and>
     (\<exists>ns v. w_exec w (rq_code q) = Returned ns \<and> select_callable ns (rq_function q) = Inr fn \<and>
        w_call w (rq_code q) fn (rq_inputs q) = Returned v \<and> validate_signal_output v = Inr out)"

lemma process_execute_status:
  "jget (process_execute parse w q) ''execution_status'' =
     (if validate_best_effort_code parse (rq_code q) \<noteq> None then JStr ''rejected_unsafe_code''
      else if w_alive w then JStr ''timeout''
      else if (\<exists>fn out. process_success parse w q fn out) then JStr ''success''
      else JStr ''failed'')"
proof (cases "validate_best_effort_code parse (rq_code q) = None \<and> \<not> w_alive w")
  case True
  show ?thesis
  proof (cases "\<exists>fn out. process_success parse w q fn out")
    case True
    then obtain fn out where s: "process_success parse w q fn out" by blast
    then have "execute_in_child w q =
        Some [(''status'', JStr ''success''), (''function_name'', JStr fn), (''output'', JObj out)]"
      by (auto simp: process_success_def execute_in_child_def)
    then have "jget (process_execute parse w q) ''execution_status'' = JStr ''success''"
      using \<open>validate_best_effort_code parse (rq_code q) = None \<and> \<not> w_alive w\<close>
      by (simp add: process_execute_def dict_simps)
    with True \<open>validate_best_effort_code parse (rq_code q) = None \<and> \<not> w_alive w\<close>
    show ?thesis by (simp only: simp_thms if_True if_False not_True_eq_False)
  next
    case False
    then have "jget r ''status'' \<noteq> JStr ''success''" if "execute_in_child w q = Some r" for r
      using that True by (auto simp: process_success_def elim!: jget_child)
    with True False show ?thesis
      by (auto simp: process_execute_def dict_simps split: option.split)
  qed
qed (auto simp: process_execute_def dict_simps split: option.split)

lemma process_execute_success:
  assumes "jget (process_execute parse w q) ''execution_status'' = JStr ''success''"
  obtains fn out where "process_success parse w q fn out"
    "jget (process_execute parse w q) ''output'' = JObj out"
    "jget (process_execute parse w q) ''function_name'' = JStr fn"
proof -
  obtain fn out where s: "process_success parse w q fn out"
    using assms unfolding process_execute_status by (auto split: if_splits)
  then have "execute_in_child w q =
      Some [(''status'', JStr ''success''), (''function_name'', JStr fn), (''output'', JObj out)]"
    by (auto simp: process_success_def execute_in_child_def)
  then have "jget (process_execute parse w q) ''output'' = JObj out"
    "jget (process_execute parse w q) ''function_name'' = JStr fn"
    using s by (simp_all add: process_execute_def process_success_def dict_simps)
  with s show thesis by (rule that)
qed

text \<open>The wait is between the binary64 numbers nearest to 0.1 and 5, whatever is asked for.\<close>

lemma process_timeout_bounds:
  "f_le (to_b64 (1 / 10)) (process_timeout t) \<and> f_le (process_timeout t) (Fin 5)"
proof -
  have b: "to_b64 (1 / 10) = Fin (3602879701896397 / 36028797018963968)"
    by (simp add: float_simps)
  show ?thesis
    by (cases t) (auto simp: process_timeout_def b py_max_def py_min_def f_le_def)
qed

section \<open>Properties\<close>

text \<open>C26. What a success of the best-effort executor means: the code parses and no node of it uses an
  introspection attribute or name, the process ended in time, the selected function returned, and the
  output is an object without a forbidden key whose confidence, if it has one, is a float that is
  neither below 0 nor above 1.\<close>

theorem process_success_contract:
  assumes "jget (process_execute parse w q) ''execution_status'' = JStr ''success''"
  shows "\<exists>tree ns fn v out. parse (rq_code q) = Inr tree \<and>
    (\<forall>t \<in> nodes tree. introspection_error t = None) \<and> \<not> w_alive w \<and>
    w_exec w (rq_code q) = Returned ns \<and> select_callable ns (rq_function q) = Inr fn \<and>
    w_call w (rq_code q) fn (rq_inputs q) = Returned v \<and>
    jget (process_execute parse w q) ''output'' = JObj out \<and>
    (\<forall>k \<in> set (dkeys out). lower k \<notin> set forbidden_output_keys) \<and>
    (\<forall>c. dget out ''confidence'' = Some c \<longrightarrow>
       (\<exists>x. c = JFloat x \<and> \<not> f_lt x (Fin 0) \<and> \<not> f_lt (Fin 1) x))"
  using assms
proof (rule process_execute_success)
  fix fn out
  assume s: "process_success parse w q fn out" and o: "jget (process_execute parse w q) ''output'' = JObj out"
  then have "signal_ok forbidden_output_keys out"
    by (auto simp: process_success_def intro: signal_ok_validate)
  with s o show ?thesis
    by (auto simp: process_success_def validate_best_effort_code_None signal_ok_def)
qed

definition demo_skill_world :: skill_world where
  "demo_skill_world = \<lparr>w_exec = (\<lambda>_. Returned [(''f'', True)]), w_call = (\<lambda>_ _ _. Returned (PDict [])),
     w_alive = False, w_elapsed = Fin 0\<rparr>"

definition demo_process_request :: exec_request where
  "demo_process_request = \<lparr>rq_skill = ''a'', rq_code = ''c'', rq_inputs = [], rq_function = None,
     rq_timeout = Fin 1\<rparr>"

theorem process_success_contract_witness:
  "\<exists>out. jget (process_execute (\<lambda>_. Inr Global) demo_skill_world demo_process_request) ''output'' = JObj out"
proof -
  have "jget (process_execute (\<lambda>_. Inr Global) demo_skill_world demo_process_request) ''execution_status'' =
      JStr ''success''"
    by code_simp
  from process_success_contract [OF this] show ?thesis by blast
qed

text \<open>The time a skill may take is bounded whatever the caller asks for, a NaN and an infinity
  included: the wait lies between the floats nearest to 0.1 and 5 seconds, and a request within
  these bounds is honoured as it is.\<close>

theorem process_timeout_clamped:
  "f_le (to_b64 (1 / 10)) (process_timeout t) \<and> f_le (process_timeout t) (Fin 5) \<and>
   (f_le (to_b64 (1 / 10)) t \<and> f_le t (Fin 5) \<longleftrightarrow> process_timeout t = t)"
proof -
  have "process_timeout t = t" if t: "f_le (to_b64 (1 / 10)) t" "f_le t (Fin 5)"
  proof -
    obtain a where a: "to_b64 (1 / 10) = Fin a" "0 < a"
    proof
      show "to_b64 (1 / 10) = Fin (3602879701896397 / 36028797018963968)" by (simp add: float_simps)
    qed simp
    from t obtain r where r: "t = Fin r" by (cases t) (simp_all add: a f_le_def)
    with t a show ?thesis by (auto simp: process_timeout_def py_max_def py_min_def f_le_def)
  qed
  then show ?thesis using process_timeout_bounds by metis
qed

end
