(* ===== verification/Sandbox_Runner.thy ===== *)
theory Sandbox_Runner
  imports Executor
begin

text \<open>
  \<open>sandbox/runner.py\<close>: the program inside the container. It reads the request from
  \<open>/input.json\<close>, runs the skill, checks its output with rules of its own and prints one JSON
  document.
\<close>

section \<open>The checks\<close>

definition runner_forbidden_keys :: "string list" where
  "runner_forbidden_keys =
     [''order'', ''orders'', ''broker'', ''submit_order'', ''place_order'', ''cancel_order'',
      ''account_id'', ''api_key'', ''secret'']"

text \<open>\<open>_choose_function\<close>; the requested name is whatever JSON value the request holds.\<close>

definition choose_function :: "namespace \<Rightarrow> json \<Rightarrow> string res" where
  "choose_function ns requested =
     (if truthy requested then (case requested of
         JStr s \<Rightarrow> if dget ns s = Some True then Inr s
           else Inl (ValueError ''requested_function_not_found'')
       | JArr _ \<Rightarrow> Inl (TypeError (''unhashable type: '' @ str_repr ''list''))
       | JObj _ \<Rightarrow> Inl (TypeError (''unhashable type: '' @ str_repr ''dict''))
       | _ \<Rightarrow> Inl (ValueError ''requested_function_not_found''))
      else (case filter (\<lambda>(n, c). c \<and> \<not> startswith n ''_'') ns of
         [(n, _)] \<Rightarrow> Inr n
       | _ \<Rightarrow> Inl (ValueError ''skill_must_expose_exactly_one_public_function'')))"

text \<open>\<open>json.dumps(value, allow_nan=False)\<close>: the document it writes, or what it raises.\<close>

definition not_compliant :: exn where
  "not_compliant = ValueError ''Out of range float values are not JSON compliant''"

definition finite_float :: "pyfloat \<Rightarrow> bool" where
  "finite_float x \<longleftrightarrow> (case x of Fin _ \<Rightarrow> True | _ \<Rightarrow> False)"

fun dump_key :: "pyval \<Rightarrow> string res" where
  "dump_key (PStr s) = Inr s"
| "dump_key (PInt n) = Inr (int_str n)"
| "dump_key (PBool b) = Inr (if b then ''true'' else ''false'')"
| "dump_key PNone = Inr ''null''"
| "dump_key (PFloat x) = (if finite_float x then Inr (float_repr x) else Inl not_compliant)"
| "dump_key v = Inl (TypeError (''keys must be str, int, float, bool or None, not '' @ pv_type v))"

fun dump_doc :: "pyval \<Rightarrow> json res" where
  "dump_doc PNone = Inr JNull"
| "dump_doc (PBool b) = Inr (JBool b)"
| "dump_doc (PInt n) = Inr (JInt n)"
| "dump_doc (PFloat x) = (if finite_float x then Inr (JFloat x) else Inl not_compliant)"
| "dump_doc (PStr s) = Inr (JStr s)"
| "dump_doc (PList xs) = res_map JArr (res_all (map dump_doc xs))"
| "dump_doc (PTuple xs) = res_map JArr (res_all (map dump_doc xs))"
| "dump_doc (PDict d) = res_map JObj
     (res_all (map (\<lambda>(k, v). res_bind (dump_key k) (\<lambda>s. res_map (Pair s) (dump_doc v))) d))"
| "dump_doc (PObject t _) = Inl (TypeError (''Object of type '' @ t @ '' is not JSON serializable''))"

text \<open>\<open>_validate_output\<close>, with the document that will be printed.\<close>

definition output_key :: "(pyval \<times> pyval) list \<Rightarrow> string \<Rightarrow> pyval option" where
  "output_key d k = map_option snd (List.find (\<lambda>(k', v). k' = PStr k) d)"

definition confidence_error :: "pyval option \<Rightarrow> exn option" where
  "confidence_error c = (case c of
       None \<Rightarrow> None
     | Some PNone \<Rightarrow> None
     | Some (PInt n) \<Rightarrow> (case float_of_int n of
           Inl e \<Rightarrow> Some e
         | Inr x \<Rightarrow> if f_le (Fin 0) x \<and> f_le x (Fin 1) then None
             else Some (ValueError ''confidence_must_be_between_0_and_1''))
     | Some (PFloat x) \<Rightarrow> if f_le (Fin 0) x \<and> f_le x (Fin 1) then None
         else Some (ValueError ''confidence_must_be_between_0_and_1'')
     | Some _ \<Rightarrow> Some (ValueError ''confidence_must_be_numeric''))"

definition lowered_keys :: "(pyval \<times> pyval) list \<Rightarrow> string set" where
  "lowered_keys d = set (map (\<lambda>(k, v). lower (pv_str k)) d)"

definition validate_output :: "pyval \<Rightarrow> json res" where
  "validate_output v = (case v of
       PDict d \<Rightarrow>
         (let bad = sort (filter (\<lambda>k. k \<in> lowered_keys d) runner_forbidden_keys) in
          if bad \<noteq> [] then Inl (ValueError (''forbidden_output_keys:'' @ join '','' bad))
          else (case confidence_error (output_key d ''confidence'') of
              Some e \<Rightarrow> Inl e
            | None \<Rightarrow> dump_doc v))
     | _ \<Rightarrow> Inl (ValueError ''skill_output_must_be_object''))"

section \<open>The main program\<close>

definition syntax_error_text :: "string \<Rightarrow> int option \<Rightarrow> string" where
  "syntax_error_text msg l = (case l of
       None \<Rightarrow> msg @ '' (<unknown>)''
     | Some n \<Rightarrow> msg @ '' (<unknown>, line '' @ int_str n @ '')'')"

text \<open>The body of the \<open>try\<close>: the document of the output, the text of an exception, or no return.\<close>

definition runner_body :: "parser \<Rightarrow> skill_world \<Rightarrow> string \<Rightarrow> json \<Rightarrow> json \<Rightarrow> json run" where
  "runner_body parse w code inputs fn = (case parse code of
       Inl (msg, l) \<Rightarrow> Raised (syntax_error_text msg l)
     | Inr _ \<Rightarrow> (case w_exec w code of
         Died \<Rightarrow> Died
       | Raised e \<Rightarrow> Raised e
       | Returned ns \<Rightarrow> (case choose_function ns fn of
           Inl e \<Rightarrow> Raised (exn_text e)
         | Inr name \<Rightarrow> (case inputs of
             JObj args \<Rightarrow> (case w_call w code name args of
                 Died \<Rightarrow> Died
               | Raised e \<Rightarrow> Raised e
               | Returned v \<Rightarrow> (case validate_output v of
                   Inl e \<Rightarrow> Raised (exn_text e)
                 | Inr out \<Rightarrow> Returned out))
           | _ \<Rightarrow> Raised ''argument after ** must be a mapping''))))"

text \<open>\<open>main\<close>: what it prints; a payload that is not an object ends it with an exception.\<close>

definition runner_main :: "parser \<Rightarrow> skill_world \<Rightarrow> json \<Rightarrow> dict run" where
  "runner_main parse w payload = (case payload of
       JObj p \<Rightarrow>
         (let skill = JStr (py_str (py_or (jget p ''skill_id'') (JStr ''unknown'')));
              code = py_str (py_or (jget p ''code'') (JStr []));
              inputs = py_or (jget p ''inputs'') (JObj [])
          in case runner_body parse w code inputs (jget p ''function_name'') of
               Died \<Rightarrow> Died
             | Raised e \<Rightarrow> Returned
                 [(''skill_id'', skill), (''execution_status'', JStr ''failed''), (''error'', JStr e),
                  (''output'', JObj []), (''safety'', signal_safety)]
             | Returned out \<Rightarrow> Returned
                 [(''skill_id'', skill), (''execution_status'', JStr ''success''), (''output'', out),
                  (''safety'', signal_safety)])
     | _ \<Rightarrow> Raised (''object has no attribute '' @ str_repr ''get''))"

section \<open>What the runner guarantees\<close>

text \<open>The contract of a document the runner reports as the output.\<close>

fun doc_finite :: "json \<Rightarrow> bool" where
  "doc_finite (JFloat x) \<longleftrightarrow> finite_float x"
| "doc_finite (JArr xs) \<longleftrightarrow> list_all doc_finite xs"
| "doc_finite (JObj d) \<longleftrightarrow> list_all (\<lambda>(k, v). doc_finite v) d"
| "doc_finite _ \<longleftrightarrow> True"

lemma dump_doc_finite: "dump_doc v = Inr x \<Longrightarrow> doc_finite x"
proof (induction v arbitrary: x rule: dump_doc.induct)
  case (6 xs)
  then show ?case by (auto simp: res_map_eq_Inr res_all_Inr list_all_iff map_eq_conv in_set_conv_nth)
      (metis (no_types, lifting) length_map nth_map nth_mem)
next
  case (7 xs)
  then show ?case by (auto simp: res_map_eq_Inr res_all_Inr list_all_iff in_set_conv_nth)
      (metis (no_types, lifting) length_map nth_map nth_mem)
next
  case (8 d)
  then obtain e where x: "x = JObj e" and e: "map (\<lambda>(k, v).
      res_bind (dump_key k) (\<lambda>s. res_map (Pair s) (dump_doc v))) d = map Inr e"
    by (auto simp: res_map_eq_Inr res_all_Inr)
  have "doc_finite y" if "(s, y) \<in> set e" for s y
  proof -
    have "Inr (s, y) \<in> set (map (\<lambda>(k, v). res_bind (dump_key k) (\<lambda>s. res_map (Pair s) (dump_doc v))) d)"
      using that unfolding e by simp
    then obtain k v where "(k, v) \<in> set d" "dump_doc v = Inr y"
      by (auto simp: res_map_eq_Inr dest!: sym [of "Inr (s, y)"])
    with "8.IH" show ?thesis by (metis prod.exhaust_sel)
  qed
  then show ?case by (auto simp: x list_all_iff)
qed (auto split: if_splits)

definition confidence_ok :: "pyval option \<Rightarrow> bool" where
  "confidence_ok c \<longleftrightarrow> (case c of
       None \<Rightarrow> True
     | Some PNone \<Rightarrow> True
     | Some (PInt n) \<Rightarrow> n \<in> {0, 1}
     | Some (PFloat x) \<Rightarrow> f_unit x
     | Some _ \<Rightarrow> False)"

lemma float_of_int_unit:
  "float_of_int n = Inr x \<Longrightarrow> f_le (Fin 0) x \<Longrightarrow> f_le x (Fin 1) \<Longrightarrow> n \<in> {0, 1}"
proof -
  assume x: "float_of_int n = Inr x" "f_le (Fin 0) x" "f_le x (Fin 1)"
  then have b: "to_b64 (of_int n) = x" by (auto simp: float_of_int_def split: pyfloat.splits)
  have two: "to_b64 2 = Fin 2" "to_b64 (- 1) = Fin (- 1)" by (simp_all add: float_simps)
  show ?thesis
  proof (rule ccontr)
    assume "n \<notin> {0, 1}"
    then have "2 \<le> n \<or> n \<le> - 1" by auto
    then consider "(2::rat) \<le> of_int n" | "of_int n \<le> (- 1 :: rat)"
      using of_int_le_iff [of 2 n, where 'a = rat] of_int_le_iff [of n "- 1", where 'a = rat] by auto
    then show False
    proof cases
      case 1
      from to_b64_mono [OF this] x(3) b two show False by (cases x) (auto simp: f_le_def)
    next
      case 2
      from to_b64_mono [OF this] x(2) b two show False by (cases x) (auto simp: f_le_def)
    qed
  qed
qed

lemma confidence_error_None: "confidence_error c = None \<Longrightarrow> confidence_ok c"
proof (cases c)
  case (Some v)
  assume n: "confidence_error c = None"
  show ?thesis
  proof (cases v)
    case (PInt m)
    with n Some show ?thesis using float_of_int_unit [of m]
      by (auto simp: confidence_error_def confidence_ok_def split: sum.splits if_splits)
  next
    case (PFloat x)
    with n Some show ?thesis
      by (cases x) (auto simp: confidence_error_def confidence_ok_def f_le_def split: if_splits)
  qed (use n Some in \<open>auto simp: confidence_error_def confidence_ok_def\<close>)
qed (simp add: confidence_ok_def)

text \<open>What the runner accepts as the output of a skill.\<close>

definition runner_accepts :: "pyval \<Rightarrow> bool" where
  "runner_accepts v \<longleftrightarrow> (\<exists>d. v = PDict d \<and>
     (\<forall>(k, x) \<in> set d. lower (pv_str k) \<notin> set runner_forbidden_keys) \<and>
     confidence_ok (output_key d ''confidence''))"

lemma validate_output_Inr:
  assumes "validate_output v = Inr out"
  shows "runner_accepts v \<and> is_obj out \<and> doc_finite out"
proof -
  obtain d where v: "v = PDict d" using assms by (cases v) (simp_all add: validate_output_def)
  define bad where "bad = filter (\<lambda>k. k \<in> lowered_keys d) runner_forbidden_keys"
  have "sort bad = []" using assms by (auto simp: validate_output_def v Let_def bad_def split: if_splits)
  then have bad: "bad = []" by (metis set_empty set_sort)
  then have c: "confidence_error (output_key d ''confidence'') = None" and out: "dump_doc v = Inr out"
    using assms by (auto simp: validate_output_def v Let_def simp flip: bad_def split: option.splits)
  have "lower (pv_str k) \<notin> set runner_forbidden_keys" if "(k, x) \<in> set d" for k x
    using bad that by (force simp: bad_def filter_empty_conv lowered_keys_def)
  then have "runner_accepts v" using confidence_error_None [OF c] v by (auto simp: runner_accepts_def)
  moreover have "is_obj out" using out by (auto simp: v res_map_eq_Inr)
  ultimately show ?thesis using dump_doc_finite [OF out] by blast
qed

lemma runner_body_Returned:
  assumes "runner_body parse w code inputs fn = Returned out"
  obtains tree ns name args v where "parse code = Inr tree" "w_exec w code = Returned ns"
    "choose_function ns fn = Inr name" "inputs = JObj args" "w_call w code name args = Returned v"
    "validate_output v = Inr out"
  using assms by (auto simp: runner_body_def split: sum.splits run.splits json.splits)

section \<open>Property\<close>

text \<open>C27. What the container reports as a success: the code parsed, the chosen function returned a
  dictionary without a forbidden key whose confidence is absent, \<open>None\<close> or a number from 0 to 1, and
  the printed output is an object that holds only finite floats, so it is standard JSON.\<close>

theorem runner_success_contract:
  assumes "runner_main parse w payload = Returned d" and "jget d ''execution_status'' = JStr ''success''"
  shows "\<exists>p ns name args v. payload = JObj p \<and>
    w_exec w (py_str (py_or (jget p ''code'') (JStr []))) = Returned ns \<and>
    choose_function ns (jget p ''function_name'') = Inr name \<and>
    py_or (jget p ''inputs'') (JObj []) = JObj args \<and>
    w_call w (py_str (py_or (jget p ''code'') (JStr []))) name args = Returned v \<and> runner_accepts v \<and>
    is_obj (jget d ''output'') \<and> doc_finite (jget d ''output'')"
proof -
  from assms(1) obtain p where p: "payload = JObj p" by (cases payload) (simp_all add: runner_main_def)
  define code where "code = py_str (py_or (jget p ''code'') (JStr []))"
  from assms p obtain out where out: "runner_body parse w code (py_or (jget p ''inputs'') (JObj []))
      (jget p ''function_name'') = Returned out" and d: "jget d ''output'' = out"
    by (cases "runner_body parse w code (py_or (jget p ''inputs'') (JObj [])) (jget p ''function_name'')")
      (auto simp: runner_main_def Let_def code_def dict_simps)
  from out show ?thesis
    by (rule runner_body_Returned) (use p d validate_output_Inr in \<open>auto simp: code_def\<close>)
qed

theorem runner_success_contract_witness:
  "\<exists>d. runner_main (\<lambda>_. Inr Global) demo_skill_world (JObj []) = Returned d \<and> is_obj (jget d ''output'')"
proof -
  have run: "runner_main (\<lambda>_. Inr Global) demo_skill_world (JObj []) = Returned
      [(''skill_id'', JStr ''unknown''), (''execution_status'', JStr ''success''), (''output'', JObj []),
       (''safety'', signal_safety)]"
    by code_simp
  from runner_success_contract [OF run] show ?thesis by (auto simp: run dict_simps)
qed

end
