(* ===== verification/Container_Sandbox.thy ===== *)
theory Container_Sandbox
  imports Sandbox_Runner
begin

text \<open>
  \<open>app/container_sandbox.py\<close>: the Docker executor with its readiness probes, and the optional
  executor that fails closed unless a fallback was enabled explicitly. Environment variables,
  the file system and the \<open>docker\<close> command are the parameter \<open>host\<close>.
\<close>

section \<open>The host\<close>

text \<open>What \<open>subprocess.run\<close> gives: a finished process, a timeout or another exception.\<close>

datatype proc = Completed int string string | TimedOut | Failed string

record root_probe =
  rp_symlink :: bool
  rp_exists :: bool
  rp_dir :: bool
  rp_writable :: bool
  rp_probe_error :: "string option"

record host =
  h_env :: "string \<Rightarrow> string option"
  h_expand :: "string \<Rightarrow> string"
  h_resolve :: "string \<Rightarrow> string"
  h_which :: "string \<Rightarrow> string option"
  h_root :: "string \<Rightarrow> root_probe"
  h_probe :: "string list \<Rightarrow> pyfloat \<Rightarrow> proc"
  h_tempdir :: "string option \<Rightarrow> string res"
  h_docker :: "string list \<Rightarrow> string \<Rightarrow> pyfloat \<Rightarrow> proc"

text \<open>\<open>os.getenv(name, default)\<close> and \<open>_env_bool\<close>.\<close>

definition getenv :: "(string \<Rightarrow> string option) \<Rightarrow> string \<Rightarrow> string \<Rightarrow> string" where
  "getenv env name dflt = (case env name of Some v \<Rightarrow> v | None \<Rightarrow> dflt)"

definition env_bool :: "(string \<Rightarrow> string option) \<Rightarrow> string \<Rightarrow> bool \<Rightarrow> bool" where
  "env_bool env name dflt = (case env name of
       None \<Rightarrow> dflt
     | Some v \<Rightarrow> lower (strip v) \<in> {''1'', ''true'', ''yes'', ''y'', ''on''})"

section \<open>The container executor\<close>

record container =
  ct_image :: string
  ct_docker :: string
  ct_memory :: string
  ct_cpus :: string
  ct_pids :: int
  ct_root :: "string option"
  ct_require_root :: bool

record container_args =
  ca_image :: "string option"
  ca_docker :: "string option"
  ca_memory :: "string option"
  ca_cpus :: "string option"
  ca_pids :: "int option"
  ca_root :: "string option"
  ca_require_root :: "bool option"

text \<open>\<open>__init__\<close>: an absent or empty argument is read from the environment.\<close>

definition container_init :: "host \<Rightarrow> container_args \<Rightarrow> container res" where
  "container_init h a =
     (let env = h_env h;
          pids = (if ca_pids a \<noteq> None \<and> ca_pids a \<noteq> Some 0 then ca_pids a
            else parse_int (getenv env ''CURATOR_SANDBOX_PIDS_LIMIT'' ''32''));
          wroot = strip (case ca_root a of Some r \<Rightarrow> r
            | None \<Rightarrow> getenv env ''CURATOR_SANDBOX_WORK_ROOT'' []);
          make = (\<lambda>p r.
            \<lparr>ct_image = str_or (ca_image a)
                (getenv env ''CURATOR_SANDBOX_IMAGE'' ''curator-skill-sandbox:latest''),
             ct_docker = str_or (ca_docker a) (getenv env ''CURATOR_DOCKER_BINARY'' ''docker''),
             ct_memory = str_or (ca_memory a) (getenv env ''CURATOR_SANDBOX_MEMORY'' ''64m''),
             ct_cpus = str_or (ca_cpus a) (getenv env ''CURATOR_SANDBOX_CPUS'' ''0.25''),
             ct_pids = p, ct_root = r,
             ct_require_root = (case ca_require_root a of Some b \<Rightarrow> b
               | None \<Rightarrow> env_bool env ''CURATOR_REQUIRE_SANDBOX_WORK_ROOT'' False)\<rparr>)
      in case pids of
           None \<Rightarrow> Inl (ValueError ''invalid literal for int() with base 10'')
         | Some p \<Rightarrow>
             if wroot = [] then Inr (make p None)
             else if \<not> startswith (h_expand h wroot) ''/''
             then Inl (RuntimeError ''CURATOR_SANDBOX_WORK_ROOT must be an absolute path.'')
             else Inr (make p (Some (h_resolve h (h_expand h wroot)))))"

text \<open>\<open>_workspace_readiness\<close>.\<close>

definition workspace_report :: "bool \<Rightarrow> bool \<Rightarrow> bool \<Rightarrow> json \<Rightarrow> dict" where
  "workspace_report rdy configured required reason =
     [(''ready'', JBool rdy), (''configured'', JBool configured), (''required'', JBool required),
      (''reason'', reason)]"

definition workspace_readiness :: "host \<Rightarrow> container \<Rightarrow> dict" where
  "workspace_readiness h c = (case ct_root c of
       None \<Rightarrow>
         if ct_require_root c
         then workspace_report False False True (JStr ''sandbox_work_root_not_configured'')
         else workspace_report True False False JNull
     | Some wroot \<Rightarrow>
         (let p = h_root h wroot; bad = (\<lambda>why. workspace_report False True (ct_require_root c) (JStr why))
          in if rp_symlink p then bad ''sandbox_work_root_symlink_not_allowed''
             else if \<not> rp_exists p then bad ''sandbox_work_root_unavailable''
             else if \<not> rp_dir p then bad ''sandbox_work_root_not_directory''
             else if \<not> rp_writable p then bad ''sandbox_work_root_not_writable''
             else (case rp_probe_error p of
                 Some e \<Rightarrow> bad ''sandbox_work_root_probe_failed'' @ [(''details'', JStr (take 500 e))]
               | None \<Rightarrow> workspace_report True True (ct_require_root c) JNull)))"

text \<open>\<open>readiness\<close>: workspace, docker binary, daemon, image, in this order.\<close>

definition stripped_or_none :: "string \<Rightarrow> json" where
  "stripped_or_none s = (if strip s = [] then JNull else JStr (strip s))"

definition not_ready :: "dict \<Rightarrow> string \<Rightarrow> dict \<Rightarrow> dict" where
  "not_ready base reason extra =
     dmerge base ([(''ready'', JBool False), (''reason'', JStr reason)] @ extra)"

definition details :: "string \<Rightarrow> dict" where
  "details s = [(''details'', JStr s)]"

definition readiness_base :: "host \<Rightarrow> container \<Rightarrow> dict" where
  "readiness_base h c =
     (let ws = workspace_readiness h c in
      [(''mode'', JStr ''container''), (''image'', JStr (ct_image c)),
       (''docker_binary'', JStr (ct_docker c)),
       (''docker_binary_path'', (case h_which h (ct_docker c) of Some p \<Rightarrow> JStr p | None \<Rightarrow> JNull)),
       (''secure_execution_ready'', JBool False),
       (''shared_work_root_configured'', jget_or ws ''configured'' (JBool False)),
       (''shared_work_root_required'', jget_or ws ''required'' (JBool False))])"

definition image_readiness :: "host \<Rightarrow> container \<Rightarrow> pyfloat \<Rightarrow> dict \<Rightarrow> string \<Rightarrow> dict" where
  "image_readiness h c timeout base daemon_out =
     (case h_probe h [ct_docker c, ''image'', ''inspect'', ct_image c, ''--format'', ''{{.Id}}''] timeout of
        TimedOut \<Rightarrow> not_ready base ''sandbox_image_probe_timed_out'' []
      | Failed e \<Rightarrow> not_ready base ''sandbox_image_probe_failed'' (details (take 500 e))
      | Completed rc out err \<Rightarrow>
          if rc \<noteq> 0
          then not_ready base ''sandbox_image_unavailable'' (details (last_chars 500 (strip err)))
          else dmerge base
            [(''ready'', JBool True), (''reason'', JNull), (''secure_execution_ready'', JBool True),
             (''docker_server_version'', stripped_or_none daemon_out),
             (''image_id'', stripped_or_none out)])"

definition container_readiness :: "host \<Rightarrow> container \<Rightarrow> pyfloat \<Rightarrow> dict" where
  "container_readiness h c timeout_seconds =
     (let ws = workspace_readiness h c; base = readiness_base h c;
          timeout = py_max (Fin (1 / 2)) timeout_seconds
      in if jget ws ''ready'' \<noteq> JBool True then
           dmerge base [(''ready'', JBool False), (''reason'', jget ws ''reason''),
             (''details'', jget ws ''details'')]
         else if h_which h (ct_docker c) = None then not_ready base ''docker_binary_not_available'' []
         else (case h_probe h [ct_docker c, ''info'', ''--format'', ''{{.ServerVersion}}''] timeout of
             TimedOut \<Rightarrow> not_ready base ''docker_daemon_probe_timed_out'' []
           | Failed e \<Rightarrow> not_ready base ''docker_daemon_probe_failed'' (details (take 500 e))
           | Completed rc out err \<Rightarrow>
               if rc \<noteq> 0
               then not_ready base ''docker_daemon_unavailable'' (details (last_chars 500 (strip err)))
               else image_readiness h c timeout base out))"

text \<open>\<open>_sandbox_metadata\<close>, the docker command and \<open>execute\<close>.\<close>

definition sandbox_metadata :: "container \<Rightarrow> json" where
  "sandbox_metadata c = JObj
     [(''mode'', JStr ''container''), (''image'', JStr (ct_image c)),
      (''network_access'', JBool False), (''read_only_filesystem'', JBool True),
      (''capabilities_dropped'', JBool True), (''no_new_privileges'', JBool True),
      (''memory_limit'', JStr (ct_memory c)), (''cpu_limit'', JStr (ct_cpus c)),
      (''pids_limit'', JInt (ct_pids c)),
      (''shared_work_root_configured'', JBool (ct_root c \<noteq> None)),
      (''shared_work_root_required'', JBool (ct_require_root c)),
      (''broker_access'', JBool False), (''order_placement'', JBool False)]"

definition docker_command :: "container \<Rightarrow> string \<Rightarrow> string list" where
  "docker_command c input_path =
     [ct_docker c, ''run'', ''--rm'', ''--network=none'', ''--read-only'', ''--cap-drop=ALL'',
      ''--security-opt=no-new-privileges:true'', ''--memory='' @ ct_memory c,
      ''--cpus='' @ ct_cpus c, ''--pids-limit='' @ int_str (ct_pids c),
      ''--tmpfs=/tmp:rw,noexec,nosuid,size=16m'', ''--user=65534:65534'',
      ''--mount=type=bind,src='' @ input_path @ '',dst=/input.json,readonly'', ct_image c]"

definition opt_json :: "string option \<Rightarrow> json" where
  "opt_json x = (case x of Some s \<Rightarrow> JStr s | None \<Rightarrow> JNull)"

definition request_payload :: "exec_request \<Rightarrow> json" where
  "request_payload q = JObj
     [(''skill_id'', JStr (rq_skill q)), (''code'', JStr (rq_code q)),
      (''inputs'', JObj (rq_inputs q)), (''function_name'', opt_json (rq_function q))]"

definition container_response :: "container \<Rightarrow> exec_request \<Rightarrow> string \<Rightarrow> json \<Rightarrow> dict \<Rightarrow> dict" where
  "container_response c q status err extra =
     [(''skill_id'', JStr (rq_skill q)), (''execution_status'', JStr status), (''error'', err)]
     @ extra @ [(''output'', JObj []), (''sandbox'', sandbox_metadata c)]"

text \<open>What becomes of the output of the container.\<close>

definition container_result :: "container \<Rightarrow> exec_request \<Rightarrow> int \<Rightarrow> string \<Rightarrow> string \<Rightarrow> dict res" where
  "container_result c q rc out err =
     (let stdout = strip out in
      if rc \<noteq> 0 then
        Inr (container_response c q ''container_failed'' (JStr ''container_process_failed'')
          (details (last_chars 1000 (strip err))))
      else (case json_loads stdout of
          Inl (JSONDecodeError _) \<Rightarrow>
            Inr (container_response c q ''container_failed'' (JStr ''invalid_container_response'')
              (details (last_chars 1000 stdout)))
        | Inl e \<Rightarrow> Inl e
        | Inr (JObj d) \<Rightarrow>
            Inr (dset ''sandbox'' (sandbox_metadata c) (dsetdefault ''skill_id'' (JStr (rq_skill q)) d))
        | Inr _ \<Rightarrow>
            Inr (container_response c q ''container_failed''
              (JStr ''container_response_must_be_object'') [])))"

text \<open>The three ways \<open>subprocess.run\<close> can end, and the call itself.\<close>

fun container_finish :: "container \<Rightarrow> exec_request \<Rightarrow> proc \<Rightarrow> dict res" where
  "container_finish c q TimedOut =
     Inr (container_response c q ''timeout'' (JStr ''skill_execution_timed_out'') [])"
| "container_finish c q (Failed e) = Inr (container_response c q ''container_failed'' (JStr e) [])"
| "container_finish c q (Completed rc out err) = container_result c q rc out err"

definition docker_run :: "host \<Rightarrow> container \<Rightarrow> exec_request \<Rightarrow> string \<Rightarrow> proc" where
  "docker_run h c q tmp =
     h_docker h (docker_command c (tmp @ ''/input.json'')) (json_dumps (request_payload q))
       (f_add (py_max (to_b64 (1 / 10)) (rq_timeout q)) (Fin 1))"

definition container_execute :: "host \<Rightarrow> container \<Rightarrow> exec_request \<Rightarrow> dict res" where
  "container_execute h c q =
     (let ws = workspace_readiness h c in
      if jget ws ''ready'' \<noteq> JBool True then
        Inr (container_response c q ''container_unavailable'' (jget ws ''reason'') [])
      else if h_which h (ct_docker c) = None then
        Inr (container_response c q ''container_unavailable'' (JStr ''docker_binary_not_available'') [])
      else res_bind (h_tempdir h (ct_root c)) (\<lambda>tmp. container_finish c q (docker_run h c q tmp)))"

fun_cases container_finish_Inr: "container_finish c q p = Inr d"

section \<open>The optional executor\<close>

record optional_config =
  op_enabled :: bool
  op_fallback :: bool

definition optional_init :: "(string \<Rightarrow> string option) \<Rightarrow> optional_config" where
  "optional_init env =
     \<lparr>op_enabled = (lower (getenv env ''CURATOR_CONTAINER_SANDBOX_ENABLED'' ''true'') = ''true''),
      op_fallback = (lower (getenv env ''CURATOR_CONTAINER_SANDBOX_FALLBACK'' ''false'') = ''true'')\<rparr>"

text \<open>\<open>readiness\<close>, given what the probe of the container answers.\<close>

definition optional_readiness :: "optional_config \<Rightarrow> dict \<Rightarrow> dict" where
  "optional_readiness cfg probe =
     (if \<not> op_enabled cfg then
        [(''ready'', JBool True), (''mode'', JStr ''process''), (''container_enabled'', JBool False),
         (''fallback_enabled'', JBool False), (''secure_execution_ready'', JBool False),
         (''degraded'', JBool True), (''reason'', JStr ''container_sandbox_explicitly_disabled''),
         (''isolation'', best_effort)]
      else if truthy (jget probe ''ready'') then
        dmerge probe [(''fallback_enabled'', JBool (op_fallback cfg)), (''degraded'', JBool False)]
      else if op_fallback cfg then
        dmerge probe
          [(''ready'', JBool True), (''mode'', JStr ''process_fallback''),
           (''fallback_enabled'', JBool True), (''secure_execution_ready'', JBool False),
           (''degraded'', JBool True), (''container_failure_reason'', jget probe ''reason''),
           (''reason'', JStr ''explicit_process_fallback_available''), (''isolation'', best_effort)]
      else
        dmerge probe [(''ready'', JBool False), (''fallback_enabled'', JBool False),
          (''degraded'', JBool False)])"

text \<open>
  \<open>execute\<close>, over the \<open>execute\<close> of the container and of the fallback; the state is the total of
  the fallback counter. Testing a list or a dictionary for membership in a set is an exception.
\<close>

definition process_sandbox :: json where
  "process_sandbox = JObj [(''mode'', JStr ''process''), (''container_enabled'', JBool False),
     (''isolation'', best_effort)]"

definition rejected_result :: "dict \<Rightarrow> dict" where
  "rejected_result cr = dmerge cr
     [(''execution_status'', JStr ''rejected_no_isolated_sandbox''),
      (''error'', JStr ''isolated_container_sandbox_required''),
      (''container_execution_status'', jget cr ''execution_status''),
      (''container_error'', jget cr ''error''), (''fallback_used'', JBool False),
      (''output'', JObj [])]"

definition fallback_result :: "dict \<Rightarrow> nat \<Rightarrow> dict \<Rightarrow> dict" where
  "fallback_result cr n d =
     dset ''curator_container_sandbox_fallback_total'' (JInt (int n))
       (dset ''security_alert'' (JStr ''isolated_sandbox_fallback_used'')
         (dset ''fallback_used'' (JBool True)
           (dset ''sandbox'' (JObj
              [(''mode'', JStr ''process_fallback''), (''container_enabled'', JBool True),
               (''container_execution_status'', jget cr ''execution_status''),
               (''container_error'', jget cr ''error''), (''isolation'', best_effort),
               (''broker_access'', JBool False), (''order_placement'', JBool False)]) d)))"

definition container_down :: "json \<Rightarrow> bool" where
  "container_down st \<longleftrightarrow> st = JStr ''container_unavailable'' \<or> st = JStr ''container_failed''"

definition hashable :: "json \<Rightarrow> bool" where
  "hashable x \<longleftrightarrow> (case x of JArr _ \<Rightarrow> False | JObj _ \<Rightarrow> False | _ \<Rightarrow> True)"

definition optional_execute :: "optional_config \<Rightarrow> (exec_request \<Rightarrow> dict res) \<Rightarrow> (exec_request \<Rightarrow> dict res)
    \<Rightarrow> exec_request \<Rightarrow> nat \<Rightarrow> dict res \<times> nat" where
  "optional_execute cfg cont fall q n =
     (if \<not> op_enabled cfg then (res_map (dsetdefault ''sandbox'' process_sandbox) (fall q), n)
      else (case cont q of
          Inl e \<Rightarrow> (Inl e, n)
        | Inr cr \<Rightarrow>
            if \<not> hashable (jget cr ''execution_status'')
            then (Inl (TypeError ''unhashable type''), n)
            else if \<not> container_down (jget cr ''execution_status'') then (Inr cr, n)
            else if \<not> op_fallback cfg then (Inr (rejected_result cr), n)
            else (res_map (fallback_result cr (n + 1)) (fall q), n + 1)))"

section \<open>What the container executor guarantees\<close>

lemma wf_container_response:
  "wf_dict (container_response c q st err [])"
  "wf_dict (container_response c q st err (details s))"
  by (simp_all add: container_response_def wf_dict_def details_def)

lemma json_loads_obj: "json_loads s = Inr (JObj d) \<Longrightarrow> wf_dict d"
  by (drule json_loads_wf) simp

lemma container_result_cases:
  obtains (failed) st err extra where
    "container_result c q rc out serr = Inr (container_response c q ''container_failed'' err extra)"
    "extra = [] \<or> (\<exists>s. extra = details s)"
  | (raised) e where "container_result c q rc out serr = Inl e"
  | (reported) d where "rc = 0" "json_loads (strip out) = Inr (JObj d)"
    "container_result c q rc out serr = Inr (dset ''sandbox'' (sandbox_metadata c)
       (dsetdefault ''skill_id'' (JStr (rq_skill q)) d))"
proof (cases "rc = 0")
  case True
  show thesis
  proof (cases "json_loads (strip out)")
    case (Inl e)
    then show thesis using True that(1,2)
      by (cases e) (simp_all add: container_result_def Let_def; blast)+
  next
    case (Inr v)
    then show thesis using True that(1,3)
      by (cases v) (simp_all add: container_result_def Let_def; blast)+
  qed
qed (use that(1) in \<open>simp add: container_result_def Let_def; blast\<close>)

lemma container_result_wf: "container_result c q rc out err = Inr d \<Longrightarrow> wf_dict d"
  by (cases rule: container_result_cases [of c q rc out err])
    (auto simp: wf_container_response json_loads_obj)

lemma container_execute_wf: "container_execute h c q = Inr d \<Longrightarrow> wf_dict d"
  by (auto simp: container_execute_def Let_def wf_container_response container_result_wf
      split: if_splits elim!: container_finish_Inr)

lemma container_response_status:
  "jget (container_response c q st err extra) ''execution_status'' = JStr st"
  by (simp add: container_response_def dict_simps)

text \<open>
  A report of success was printed by the container: the workspace and the binary were there and
  the command ended with status 0 and this document. The same holds of any status but the four
  the executor itself reports.
\<close>

lemma container_execute_reported:
  assumes "container_execute h c q = Inr d"
    "jget d ''execution_status'' \<notin>
       JStr ` {''container_unavailable'', ''container_failed'', ''timeout''}"
  obtains tmp out err e where "jget (workspace_readiness h c) ''ready'' = JBool True"
    "h_which h (ct_docker c) \<noteq> None" "h_tempdir h (ct_root c) = Inr tmp"
    "docker_run h c q tmp = Completed 0 out err" "json_loads (strip out) = Inr (JObj e)"
    "d = dset ''sandbox'' (sandbox_metadata c) (dsetdefault ''skill_id'' (JStr (rq_skill q)) e)"
proof -
  have w: "jget (workspace_readiness h c) ''ready'' = JBool True" "h_which h (ct_docker c) \<noteq> None"
    using assms by (auto simp: container_execute_def Let_def container_response_status split: if_splits)
  then obtain tmp where t: "h_tempdir h (ct_root c) = Inr tmp"
      "container_finish c q (docker_run h c q tmp) = Inr d"
    using assms(1) by (auto simp: container_execute_def Let_def)
  show thesis
  proof (cases "docker_run h c q tmp")
    case run: (Completed rc out err)
    with t(2) have r: "container_result c q rc out err = Inr d" by simp
    from assms(2) r w t(1) run show thesis
      by (cases rule: container_result_cases [of c q rc out err])
        (auto simp: container_response_status intro!: that)
  qed (use assms(2) t(2) in \<open>auto simp: container_response_status\<close>)
qed

text \<open>
  Ready is reported only after the workspace, the binary, the daemon and the image were checked.
\<close>

definition probes_pass :: "host \<Rightarrow> container \<Rightarrow> pyfloat \<Rightarrow> bool" where
  "probes_pass h c t \<longleftrightarrow>
     jget (workspace_readiness h c) ''ready'' = JBool True \<and> h_which h (ct_docker c) \<noteq> None \<and>
     (\<exists>out err. h_probe h [ct_docker c, ''info'', ''--format'', ''{{.ServerVersion}}'']
        (py_max (Fin (1 / 2)) t) = Completed 0 out err) \<and>
     (\<exists>out err. h_probe h [ct_docker c, ''image'', ''inspect'', ct_image c, ''--format'', ''{{.Id}}'']
        (py_max (Fin (1 / 2)) t) = Completed 0 out err)"

lemma not_ready_flags:
  "jget (not_ready base why []) ''ready'' = JBool False"
  "jget (not_ready base why (details s)) ''ready'' = JBool False"
  "jget (not_ready base why []) ''secure_execution_ready'' = jget base ''secure_execution_ready''"
  "jget (not_ready base why (details s)) ''secure_execution_ready'' =
     jget base ''secure_execution_ready''"
  by (simp_all add: not_ready_def details_def dict_simps)

lemma base_not_secure: "jget (readiness_base h c) ''secure_execution_ready'' = JBool False"
  by (simp add: readiness_base_def Let_def dict_simps)

lemma image_readiness_flags:
  "jget (image_readiness h c t (readiness_base h c) out) ''ready'' =
     JBool (\<exists>o' e. h_probe h [ct_docker c, ''image'', ''inspect'', ct_image c, ''--format'', ''{{.Id}}''] t
       = Completed 0 o' e)"
  "jget (image_readiness h c t (readiness_base h c) out) ''secure_execution_ready'' =
     jget (image_readiness h c t (readiness_base h c) out) ''ready''"
  by (auto simp: image_readiness_def not_ready_flags base_not_secure dict_simps split: proc.split)

lemma container_readiness_flags:
  "jget (container_readiness h c t) ''ready'' = JBool (probes_pass h c t)"
  "jget (container_readiness h c t) ''secure_execution_ready'' =
     jget (container_readiness h c t) ''ready''"
  by (auto simp: container_readiness_def Let_def probes_pass_def not_ready_flags base_not_secure
      image_readiness_flags dict_simps split: proc.split)

lemma container_ready_available:
  assumes "truthy (jget (container_readiness h c t) ''ready'')" "container_execute h c q = Inr d"
    "jget d ''execution_status'' = JStr ''container_unavailable''"
  shows "\<exists>tmp out err e. h_tempdir h (ct_root c) = Inr tmp \<and>
    docker_run h c q tmp = Completed 0 out err \<and> json_loads (strip out) = Inr (JObj e)"
proof -
  have p: "probes_pass h c t" using assms(1) by (simp add: container_readiness_flags)
  then obtain tmp where t: "h_tempdir h (ct_root c) = Inr tmp"
      "container_finish c q (docker_run h c q tmp) = Inr d"
    using assms(2) by (auto simp: container_execute_def Let_def probes_pass_def)
  show ?thesis
  proof (cases "docker_run h c q tmp")
    case run: (Completed rc out err)
    with t(2) have r: "container_result c q rc out err = Inr d" by simp
    from assms(3) r t(1) run show ?thesis
      by (cases rule: container_result_cases [of c q rc out err])
        (auto simp: container_response_status)
  qed (use assms(3) t(2) in \<open>auto simp: container_response_status\<close>)
qed

section \<open>What the optional executor guarantees\<close>

lemma optional_counter:
  "snd (optional_execute cfg cont fall q n) =
     (if op_enabled cfg \<and> op_fallback cfg \<and>
         (\<exists>cr. cont q = Inr cr \<and> container_down (jget cr ''execution_status''))
      then n + 1 else n)"
  by (auto simp: optional_execute_def container_down_def hashable_def split: sum.split)

lemma optional_fail_closed:
  assumes "op_enabled cfg" "\<not> op_fallback cfg"
  shows "optional_execute cfg cont fall q n = optional_execute cfg cont fall' q n"
    and "fst (optional_execute cfg cont fall q n) = Inr d \<Longrightarrow>
      jget d ''execution_status'' = JStr ''success'' \<Longrightarrow> cont q = Inr d"
  using assms by (auto simp: optional_execute_def rejected_result_def dict_simps split: sum.splits if_splits)

lemma optional_fallback_marked:
  assumes "fst (optional_execute cfg cont fall q n) = Inr d"
    "snd (optional_execute cfg cont fall q n) = n + 1"
  shows "jget d ''fallback_used'' = JBool True \<and>
    jget d ''security_alert'' = JStr ''isolated_sandbox_fallback_used'' \<and>
    jget d ''curator_container_sandbox_fallback_total'' = JInt (int n + 1) \<and>
    (\<exists>e. fall q = Inr e \<and> jget d ''execution_status'' = jget e ''execution_status'')"
  using assms
  by (auto simp: optional_execute_def fallback_result_def res_map_eq_Inr split: sum.splits if_splits)

lemma optional_wf:
  assumes "\<And>q d. cont q = Inr d \<Longrightarrow> wf_dict d" "\<And>q d. fall q = Inr d \<Longrightarrow> wf_dict d"
    "optional_execute cfg cont fall q n = (Inr d, m)"
  shows "wf_dict d"
  using assms
  by (auto simp: optional_execute_def fallback_result_def rejected_result_def res_map_eq_Inr
      split: sum.splits if_splits)

section \<open>Properties\<close>

text \<open>A host on which docker works and every container prints a success.\<close>

definition demo_doc :: string where
  "demo_doc = ''{\"execution_status\": \"success\", \"output\": {}}''"

definition demo_host :: host where
  "demo_host = \<lparr>h_env = (\<lambda>_. None), h_expand = id, h_resolve = id, h_which = (\<lambda>_. Some ''/usr/bin/docker''),
     h_root = (\<lambda>_. \<lparr>rp_symlink = False, rp_exists = True, rp_dir = True, rp_writable = True,
       rp_probe_error = None\<rparr>),
     h_probe = (\<lambda>_ _. Completed 0 ''1'' []), h_tempdir = (\<lambda>_. Inr ''/tmp/t''),
     h_docker = (\<lambda>_ _ _. Completed 0 demo_doc [])\<rparr>"

definition demo_container :: container where
  "demo_container = \<lparr>ct_image = ''img'', ct_docker = ''docker'', ct_memory = ''64m'', ct_cpus = ''0.25'',
     ct_pids = 32, ct_root = None, ct_require_root = False\<rparr>"

definition demo_exec :: exec_request where
  "demo_exec = \<lparr>rq_skill = ''a'', rq_code = ''def f(): pass'', rq_inputs = [], rq_function = None,
     rq_timeout = Fin 1\<rparr>"

definition demo_result :: dict where
  "demo_result = [(''execution_status'', JStr ''success''), (''output'', JObj []),
     (''skill_id'', JStr ''a''), (''sandbox'', sandbox_metadata demo_container)]"

lemma demo_doc_eval: "strip demo_doc = demo_doc"
    "json_loads demo_doc = Inr (JObj [(''execution_status'', JStr ''success''), (''output'', JObj [])])"
  by code_simp+

lemma demo_container_execute: "container_execute demo_host demo_container demo_exec = Inr demo_result"
  by (simp add: container_execute_def workspace_readiness_def demo_container_def workspace_report_def
      docker_run_def demo_host_def container_result_def demo_doc_eval demo_result_def demo_exec_def
      dict_simps dset_def dsetdefault_def)

lemma jget_dsetdefault: "k \<noteq> k' \<Longrightarrow> jget (dsetdefault k' v d) k = jget d k"
  by (simp add: jget_def dsetdefault_def)






end
