(* ===== verification/Worker_Protocol.thy ===== *)
theory Worker_Protocol
  imports Container_Sandbox Registry
begin

text \<open>
  \<open>app/worker_protocol.py\<close>: the signed protocol between the curator and the sandbox worker. A
  byte string is a list of characters below 256. The keyed hash (HMAC-SHA256 as hexadecimal
  text) is a parameter \<open>mac\<close> of the definitions.
\<close>

section \<open>Encodings\<close>

text \<open>UTF-8 of the characters below 256, and \<open>s.encode("ascii")\<close>.\<close>

definition utf8_char :: "char \<Rightarrow> string" where
  "utf8_char c = (let n = of_char c :: int in
     if n < 128 then [c] else [char_of (192 + n div 64), char_of (128 + n mod 64)])"

definition utf8 :: "string \<Rightarrow> string" where
  "utf8 s = concat (map utf8_char s)"

text \<open>\<open>b.decode("utf-8")\<close> of such an encoding.\<close>

fun utf8_decode :: "string \<Rightarrow> string" where
  "utf8_decode [] = []"
| "utf8_decode (c # cs) =
     (if (of_char c :: int) < 128 then c # utf8_decode cs
      else (case cs of [] \<Rightarrow> []
        | d # ds \<Rightarrow> char_of ((of_char c - 192) * 64 + (of_char d - 128) :: int) # utf8_decode ds))"

definition is_ascii :: "char \<Rightarrow> bool" where
  "is_ascii c \<longleftrightarrow> (of_char c :: int) < 128"

definition ascii_encode :: "string \<Rightarrow> string res" where
  "ascii_encode s = (if list_all is_ascii s then Inr s
     else Inl (ValueError ''ordinal not in range(128)''))"

definition newline :: string where
  "newline = [char_of (10::int)]"

text \<open>\<open>canonical_json_bytes\<close>.\<close>

definition canonical_json_bytes :: "dict \<Rightarrow> string" where
  "canonical_json_bytes d = utf8 (dumps '','' '':'' (sort_json (JObj d)))"

section \<open>Signatures\<close>

record signed_fields =
  sf_method :: string
  sf_path :: string
  sf_timestamp :: string
  sf_nonce :: string
  sf_body :: string

definition signature_message :: "signed_fields \<Rightarrow> string res" where
  "signature_message f =
     res_bind (ascii_encode (upper (sf_method f))) (\<lambda>m.
     res_bind (ascii_encode (sf_timestamp f)) (\<lambda>t.
     res_bind (ascii_encode (sf_nonce f)) (\<lambda>n.
       Inr (join newline [m, utf8 (sf_path f), t, n, sf_body f]))))"

definition build_worker_signature :: "(string \<Rightarrow> string \<Rightarrow> string) \<Rightarrow> string \<Rightarrow> signed_fields
    \<Rightarrow> string res" where
  "build_worker_signature mac secret f = res_map (mac (utf8 secret)) (signature_message f)"

text \<open>The supplied signature is compared without its characters outside ASCII.\<close>

definition verify_worker_signature :: "(string \<Rightarrow> string \<Rightarrow> string) \<Rightarrow> string \<Rightarrow> string \<Rightarrow> signed_fields
    \<Rightarrow> bool res" where
  "verify_worker_signature mac secret supplied f =
     (if secret = [] \<or> supplied = [] then Inr False
      else res_bind (build_worker_signature mac secret f) (\<lambda>expected.
        res_bind (ascii_encode expected) (\<lambda>e. Inr (filter is_ascii supplied = e))))"

section \<open>Configuration\<close>

definition require_worker_api_key :: "(string \<Rightarrow> string option) \<Rightarrow> string option \<Rightarrow> string res" where
  "require_worker_api_key env value =
     (let key = strip (case value of Some v \<Rightarrow> v
        | None \<Rightarrow> getenv env ''CURATOR_SANDBOX_WORKER_API_KEY'' [])
      in if length key < 32 then Inl (RuntimeError
          ''CURATOR_SANDBOX_WORKER_API_KEY must be configured with at least 32 characters.'')
         else Inr key)"

record worker_limits =
  wl_body :: int
  wl_skew :: int
  wl_concurrency :: int
  wl_queue :: pyfloat

definition env_int :: "(string \<Rightarrow> string option) \<Rightarrow> string \<Rightarrow> string \<Rightarrow> int res" where
  "env_int env name dflt = (case parse_int (getenv env name dflt) of
       Some n \<Rightarrow> Inr n | None \<Rightarrow> Inl (ValueError ''invalid literal for int() with base 10''))"

definition env_float :: "(string \<Rightarrow> string option) \<Rightarrow> string \<Rightarrow> string \<Rightarrow> pyfloat res" where
  "env_float env name dflt = to_float (JStr (getenv env name dflt))"

definition limits_from_env :: "(string \<Rightarrow> string option) \<Rightarrow> worker_limits res" where
  "limits_from_env env =
     res_bind (env_int env ''CURATOR_SANDBOX_WORKER_MAX_BODY_BYTES'' ''65536'') (\<lambda>body.
     res_bind (env_int env ''CURATOR_SANDBOX_WORKER_MAX_CLOCK_SKEW_SECONDS'' ''30'') (\<lambda>skew.
     res_bind (env_int env ''CURATOR_SANDBOX_WORKER_MAX_CONCURRENCY'' ''2'') (\<lambda>conc.
     res_bind (env_float env ''CURATOR_SANDBOX_WORKER_QUEUE_TIMEOUT_SECONDS'' ''1'') (\<lambda>queue.
       if \<not> (1024 \<le> body \<and> body \<le> 1048576) then Inl (RuntimeError
         ''CURATOR_SANDBOX_WORKER_MAX_BODY_BYTES must be between 1024 and 1048576.'')
       else if \<not> (5 \<le> skew \<and> skew \<le> 300) then Inl (RuntimeError
         ''CURATOR_SANDBOX_WORKER_MAX_CLOCK_SKEW_SECONDS must be between 5 and 300.'')
       else if \<not> (1 \<le> conc \<and> conc \<le> 32) then Inl (RuntimeError
         ''CURATOR_SANDBOX_WORKER_MAX_CONCURRENCY must be between 1 and 32.'')
       else if \<not> (f_le (Fin 0) queue \<and> f_le queue (Fin 30)) then Inl (RuntimeError
         ''CURATOR_SANDBOX_WORKER_QUEUE_TIMEOUT_SECONDS must be between 0 and 30.'')
       else Inr \<lparr>wl_body = body, wl_skew = skew, wl_concurrency = conc, wl_queue = queue\<rparr>))))"

text \<open>\<open>WorkerExecutionRequest\<close>: strict types, no other fields, and the \<open>Field\<close> bounds.\<close>

definition skill_id_char :: "char \<Rightarrow> bool" where
  "skill_id_char c \<longleftrightarrow> (let n = of_char c :: int in
     65 \<le> n \<and> n \<le> 90 \<or> 97 \<le> n \<and> n \<le> 122 \<or> 48 \<le> n \<and> n \<le> 57 \<or>
     c = CHR ''.'' \<or> c = CHR ''_'' \<or> c = CHR '':'' \<or> c = CHR ''-'')"

definition worker_request_ok :: "exec_request \<Rightarrow> bool" where
  "worker_request_ok q \<longleftrightarrow>
     len_in 1 128 (rq_skill q) \<and> list_all skill_id_char (rq_skill q) \<and>
     len_in 1 50000 (rq_code q) \<and> opt_len_in 1 128 (rq_function q) \<and>
     \<not> f_lt (rq_timeout q) (to_b64 (1 / 10)) \<and> \<not> f_lt (Fin 5) (rq_timeout q)"

definition worker_fields :: "string list" where
  "worker_fields = [''skill_id'', ''code'', ''inputs'', ''function_name'', ''timeout_seconds'']"

text \<open>A float field takes an int or a float; an optional string takes \<open>null\<close> or a string.\<close>

definition strict_float :: "json \<Rightarrow> pyfloat option" where
  "strict_float v = (case v of
       JFloat x \<Rightarrow> Some x
     | JInt n \<Rightarrow> (case float_of_int n of Inr x \<Rightarrow> Some x | Inl _ \<Rightarrow> None)
     | _ \<Rightarrow> None)"

definition strict_opt_str :: "json \<Rightarrow> string option option" where
  "strict_opt_str v = (case v of JNull \<Rightarrow> Some None | JStr s \<Rightarrow> Some (Some s) | _ \<Rightarrow> None)"

definition parse_worker_request :: "dict \<Rightarrow> exec_request option" where
  "parse_worker_request d =
     (case (jget d ''skill_id'', jget d ''code'', jget_or d ''inputs'' (JObj []),
         strict_opt_str (jget d ''function_name''),
         strict_float (jget_or d ''timeout_seconds'' (JFloat (Fin 1)))) of
        (JStr skill, JStr code, JObj inputs, Some fn, Some t) \<Rightarrow>
          (let q = \<lparr>rq_skill = skill, rq_code = code, rq_inputs = inputs, rq_function = fn,
              rq_timeout = t\<rparr>
           in if list_all (\<lambda>k. k \<in> set worker_fields) (dkeys d) \<and> worker_request_ok q
              then Some q else None)
      | _ \<Rightarrow> None)"

section \<open>What the protocol guarantees\<close>

lemma of_char_char_of: "0 \<le> n \<Longrightarrow> n < 256 \<Longrightarrow> (of_char (char_of (n::int)) :: int) = n"
  by simp

lemma utf8_decode_utf8: "utf8_decode (utf8 s) = s"
proof (induction s)
  case (Cons c s)
  let ?n = "of_char c :: int"
  have r: "0 \<le> ?n" "?n < 256" using of_char_range [of c] by simp_all
  have u: "utf8 (c # s) = utf8_char c @ utf8 s" by (simp add: utf8_def)
  show ?case
  proof (cases "?n < 128")
    case True
    then show ?thesis using Cons by (simp add: u utf8_char_def)
  next
    case False
    have hi: "(of_char (char_of (192 + ?n div 64)) :: int) = 192 + ?n div 64"
      using r by (intro of_char_char_of) auto
    have lo: "(of_char (char_of (128 + ?n mod 64)) :: int) = 128 + ?n mod 64"
    proof -
      have "0 \<le> ?n mod 64" "?n mod 64 < 64" by simp_all
      then show ?thesis by (intro of_char_char_of) linarith+
    qed
    have big: "\<not> 192 + ?n div 64 < 128" using r(1) by linarith
    have "(192 + ?n div 64 - 192) * 64 + (128 + ?n mod 64 - 128) = ?n" by simp
    then have "(char_of ((192 + ?n div 64 - 192) * 64 + (128 + ?n mod 64 - 128)) :: char) = c"
      by (simp only: char_of_char)
    then show ?thesis using Cons False
      by (simp only: u utf8_char_def Let_def if_False append_Cons append_Nil utf8_decode.simps hi lo big
          list.case)
  qed
qed (simp add: utf8_def)

lemma utf8_simps [simp]: "utf8 [] = []" "utf8 (c # s) = utf8_char c @ utf8 s"
  by (simp_all add: utf8_def)

lemma utf8_char_cases:
  obtains (one) "(of_char c :: int) < 128" "utf8_char c = [c]"
  | (two) a b where "128 \<le> (of_char c :: int)" "utf8_char c = [a, b]"
      "(of_char a :: int) = 192 + of_char c div 64" "(of_char b :: int) = 128 + of_char c mod 64"
proof (cases "(of_char c :: int) < 128")
  case False
  have r: "0 \<le> (of_char c :: int)" "(of_char c :: int) < 256" using of_char_range by auto
  have a: "(of_char (char_of (192 + (of_char c :: int) div 64) :: char) :: int) = 192 + of_char c div 64"
    using r by (intro of_char_char_of) auto
  have b: "(of_char (char_of (128 + (of_char c :: int) mod 64) :: char) :: int) = 128 + of_char c mod 64"
    using r by (intro of_char_char_of) (auto intro: add_nonneg_nonneg simp: pos_mod_bound)
  have "utf8_char c = [char_of (192 + (of_char c :: int) div 64), char_of (128 + (of_char c :: int) mod 64)]"
    using False by (simp add: utf8_char_def Let_def)
  from two [OF _ this a b] False show thesis by simp
qed (simp add: one utf8_char_def)

lemma utf8_char_prefix: "utf8_char c @ s = utf8_char d @ t \<Longrightarrow> c = d \<and> s = t"
proof (cases rule: utf8_char_cases [of c]; cases rule: utf8_char_cases [of d])
  fix a b a' b'
  assume eq: "utf8_char c @ s = utf8_char d @ t"
    and c: "utf8_char c = [a, b]" "(of_char a :: int) = 192 + of_char c div 64"
      "(of_char b :: int) = 128 + of_char c mod 64"
    and d: "utf8_char d = [a', b']" "(of_char a' :: int) = 192 + of_char d div 64"
      "(of_char b' :: int) = 128 + of_char d mod 64"
  have ab: "a = a'" "b = b'" "s = t" using eq c(1) d(1) by simp_all
  then have "(of_char c :: int) div 64 = of_char d div 64" "(of_char c :: int) mod 64 = of_char d mod 64"
    using c(2,3) d(2,3) by simp_all
  then have "(of_char c :: int) = of_char d" by (metis div_mult_mod_eq)
  with ab show ?thesis by simp
next
  fix a b
  assume "utf8_char c @ s = utf8_char d @ t" "(of_char c :: int) < 128" "utf8_char c = [c]"
    "utf8_char d = [a, b]" "(of_char a :: int) = 192 + of_char d div 64"
  then show ?thesis using of_char_range [of d] by auto
next
  fix a b
  assume "utf8_char c @ s = utf8_char d @ t" "(of_char d :: int) < 128" "utf8_char d = [d]"
    "utf8_char c = [a, b]" "(of_char a :: int) = 192 + of_char c div 64"
  then show ?thesis using of_char_range [of c] by auto
qed simp

lemma utf8_inj: "utf8 s = utf8 t \<Longrightarrow> s = t"
proof (induction s arbitrary: t)
  case Nil
  then show ?case by (cases t; cases rule: utf8_char_cases [of "hd t"]) auto
next
  case (Cons c s)
  show ?case
  proof (cases t)
    case Nil
    with Cons.prems show ?thesis by (cases rule: utf8_char_cases [of c]) auto
  next
    case (Cons d u)
    with Cons.prems have "c = d \<and> utf8 s = utf8 u" by (simp add: utf8_char_prefix)
    with Cons.IH Cons show ?thesis by simp
  qed
qed

definition nl :: char where
  "nl = char_of (10::int)"

lemma of_char_nl: "(of_char nl :: int) = 10"
  by (simp add: nl_def)

lemma newline_nl: "newline = [nl]"
  by (simp add: newline_def nl_def)

lemma utf8_nl: "nl \<in> set (utf8 s) \<longleftrightarrow> nl \<in> set s"
proof (induction s)
  case (Cons c s)
  have "nl \<in> set (utf8_char c) \<longleftrightarrow> nl = c"
  proof (cases rule: utf8_char_cases [of c])
    case (two a b)
    then have "a \<noteq> nl" "b \<noteq> nl" "c \<noteq> nl" using of_char_nl of_char_range [of c] by auto
    with two show ?thesis by auto
  qed auto
  with Cons show ?case by simp
qed simp

lemma append_nl_inj:
  "a @ nl # s = b @ nl # t \<Longrightarrow> nl \<notin> set a \<Longrightarrow> nl \<notin> set b \<Longrightarrow> a = b \<and> s = t"
proof (induction a arbitrary: b)
  case Nil
  then show ?case by (cases b) auto
next
  case (Cons x a)
  then show ?case by (cases b) auto
qed

lemma upper_nl: "nl \<in> set (upper s) \<longleftrightarrow> nl \<in> set s"
proof (induction s)
  case (Cons c s)
  have "nl \<in> set (upper_char c) \<longleftrightarrow> nl = c"
    using of_char_nl of_char_range [of c]
    by (auto simp: upper_char_def Let_def char_eq_iff of_char_char_of simp del: of_char_eq_iff)
  with Cons show ?case by (simp add: upper_def)
qed (simp add: upper_def)

text \<open>
  Two requests with the same message are the same request, up to the case of the method, when
  their method, path, timestamp and nonce hold no line feed.
\<close>

definition plain_fields :: "signed_fields \<Rightarrow> bool" where
  "plain_fields f \<longleftrightarrow> nl \<notin> set (sf_method f) \<and> nl \<notin> set (sf_path f) \<and>
     nl \<notin> set (sf_timestamp f) \<and> nl \<notin> set (sf_nonce f)"

lemma signature_message_eq:
  "signature_message f = Inr m \<longleftrightarrow>
     list_all is_ascii (upper (sf_method f)) \<and> list_all is_ascii (sf_timestamp f) \<and>
     list_all is_ascii (sf_nonce f) \<and>
     m = upper (sf_method f) @ nl # utf8 (sf_path f) @ nl # sf_timestamp f @ nl # sf_nonce f
       @ nl # sf_body f"
  by (auto simp: signature_message_def ascii_encode_def newline_nl split: if_splits)

lemma signature_message_unique:
  assumes "signature_message f = Inr m" "signature_message g = Inr m" "plain_fields f" "plain_fields g"
  shows "upper (sf_method f) = upper (sf_method g) \<and> sf_path f = sf_path g \<and>
    sf_timestamp f = sf_timestamp g \<and> sf_nonce f = sf_nonce g \<and> sf_body f = sf_body g"
proof -
  from assms have eq: "upper (sf_method f) @ nl # utf8 (sf_path f) @ nl # sf_timestamp f @ nl # sf_nonce f
       @ nl # sf_body f = upper (sf_method g) @ nl # utf8 (sf_path g) @ nl # sf_timestamp g
       @ nl # sf_nonce g @ nl # sf_body g"
    by (simp add: signature_message_eq)
  note p = assms(3,4) [unfolded plain_fields_def]
  from append_nl_inj [OF eq] p have 1: "upper (sf_method f) = upper (sf_method g)"
    and eq1: "utf8 (sf_path f) @ nl # sf_timestamp f @ nl # sf_nonce f @ nl # sf_body f =
      utf8 (sf_path g) @ nl # sf_timestamp g @ nl # sf_nonce g @ nl # sf_body g"
    by (simp_all add: upper_nl)
  from append_nl_inj [OF eq1] p have 2: "sf_path f = sf_path g"
    and eq2: "sf_timestamp f @ nl # sf_nonce f @ nl # sf_body f =
      sf_timestamp g @ nl # sf_nonce g @ nl # sf_body g"
    by (simp_all add: utf8_nl utf8_inj)
  from append_nl_inj [OF eq2] p have 3: "sf_timestamp f = sf_timestamp g"
    and eq3: "sf_nonce f @ nl # sf_body f = sf_nonce g @ nl # sf_body g" by simp_all
  from append_nl_inj [OF eq3] p 1 2 3 show ?thesis by simp
qed

text \<open>Acceptance is equality with the keyed hash of the message.\<close>

lemma verify_iff:
  "verify_worker_signature mac secret supplied f = Inr True \<longleftrightarrow>
     secret \<noteq> [] \<and> supplied \<noteq> [] \<and>
     (\<exists>m. signature_message f = Inr m \<and> list_all is_ascii (mac (utf8 secret) m) \<and>
        filter is_ascii supplied = mac (utf8 secret) m)"
  by (auto simp: verify_worker_signature_def build_worker_signature_def res_map_eq_Inr
      ascii_encode_def split: if_splits)

lemma verify_build:
  assumes "secret \<noteq> []" "mac (utf8 secret) m \<noteq> []" "list_all is_ascii (mac (utf8 secret) m)"
    "signature_message f = Inr m"
  shows "verify_worker_signature mac secret (mac (utf8 secret) m) f = Inr True"
  using assms by (auto simp: verify_iff list_all_iff filter_id_conv)

lemma limits_bounds:
  "limits_from_env env = Inr l \<Longrightarrow>
     1024 \<le> wl_body l \<and> wl_body l \<le> 1048576 \<and> 5 \<le> wl_skew l \<and> wl_skew l \<le> 300 \<and>
     1 \<le> wl_concurrency l \<and> wl_concurrency l \<le> 32 \<and> f_le (Fin 0) (wl_queue l) \<and>
     f_le (wl_queue l) (Fin 30)"
  by (auto simp: limits_from_env_def split: if_splits)

lemma require_key_long: "require_worker_api_key env v = Inr k \<Longrightarrow> 32 \<le> length k"
  by (auto simp: require_worker_api_key_def Let_def split: if_splits)

section \<open>Property\<close>



end
