(* ===== verification/Sandbox_Worker.thy ===== *)
theory Sandbox_Worker
  imports Worker_Protocol
begin

text \<open>
  \<open>app/sandbox_worker.py\<close>: the replay guard, the authentication middleware of the worker, its
  concurrency limit and its endpoints. The clock readings of a request are parameters.
\<close>

section \<open>The replay guard\<close>

text \<open>\<open>NonceReplayGuard\<close>: the entries of the \<open>OrderedDict\<close>, a nonce with its expiry, oldest first.\<close>

record guard =
  gd_ttl :: int
  gd_max :: int
  gd_entries :: "(string, pyfloat) pydict"

definition new_guard :: "int \<Rightarrow> guard" where
  "new_guard ttl = \<lparr>gd_ttl = ttl, gd_max = 10000, gd_entries = []\<rparr>"

text \<open>\<open>popitem(last=False)\<close> while the guard is full; on an empty dictionary it is a \<open>KeyError\<close>.\<close>

fun evict :: "int \<Rightarrow> (string, pyfloat) pydict \<Rightarrow> (string, pyfloat) pydict res" where
  "evict m [] = (if m \<le> 0 then Inl (KeyError ''dictionary is empty'') else Inr [])"
| "evict m (x # xs) = (if m \<le> int (length (x # xs)) then evict m xs else Inr (x # xs))"

definition expiry :: "guard \<Rightarrow> pyfloat \<Rightarrow> pyfloat" where
  "expiry g now = f_add now (Fin (of_int (gd_ttl g)))"

definition consume :: "string \<Rightarrow> pyfloat \<Rightarrow> guard \<Rightarrow> bool res \<times> guard" where
  "consume nonce now g =
     (let live = filter (\<lambda>(n, e). \<not> f_le e now) (gd_entries g); g1 = g\<lparr>gd_entries := live\<rparr> in
      if dhas live nonce then (Inr False, g1)
      else (case evict (gd_max g) live of
          Inl e \<Rightarrow> (Inl e, g\<lparr>gd_entries := []\<rparr>)
        | Inr kept \<Rightarrow> (Inr True, g\<lparr>gd_entries := dset nonce (expiry g now) kept\<rparr>)))"

text \<open>
  The contract of a replay guard: an admitted nonce is held until it expires, against a number
  of further calls, and a nonce that is held is refused.
\<close>

locale replay_guard =
  fixes admit :: "string \<Rightarrow> 't \<Rightarrow> 'g \<Rightarrow> bool res \<times> 'g"
    and over :: "'t \<Rightarrow> 't \<Rightarrow> bool"
    and held :: "string \<Rightarrow> 't \<Rightarrow> nat \<Rightarrow> 'g \<Rightarrow> bool"
  assumes keep: "held n e (Suc k) g \<Longrightarrow> \<not> over e t \<Longrightarrow> held n e k (snd (admit m t g))"
    and refuse: "held n e k g \<Longrightarrow> \<not> over e t \<Longrightarrow> fst (admit n t g) = Inr False"
begin

definition after :: "(string \<times> 't) list \<Rightarrow> 'g \<Rightarrow> 'g" where
  "after calls g = fold (\<lambda>(m, t) g. snd (admit m t g)) calls g"

lemma held_after:
  "held n e (length calls + k) g \<Longrightarrow> (\<And>m t. (m, t) \<in> set calls \<Longrightarrow> \<not> over e t) \<Longrightarrow>
     held n e k (after calls g)"
proof (induction calls arbitrary: g)
  case (Cons c calls)
  obtain m t where c: "c = (m, t)" by (cases c)
  have "held n e (length calls + k) (snd (admit m t g))"
    using Cons.prems by (intro keep) (auto simp: c)
  then have "held n e k (after calls (snd (admit m t g)))"
    using Cons.prems(2) by (intro Cons.IH) auto
  then show ?case by (simp add: after_def c)
qed (simp add: after_def)

lemma no_replay:
  assumes "held n e (length calls) g" "\<And>m t. (m, t) \<in> set calls \<Longrightarrow> \<not> over e t" "\<not> over e t"
  shows "fst (admit n t (after calls g)) = Inr False"
  using held_after [of n e calls 0 g] assms by (auto intro: refuse)

end

text \<open>
  The guard of the worker holds a nonce while fewer than \<open>max_entries\<close> calls came after it.
\<close>

definition guard_held :: "string \<Rightarrow> pyfloat \<Rightarrow> nat \<Rightarrow> guard \<Rightarrow> bool" where
  "guard_held n e k g \<longleftrightarrow> (\<exists>pre post. gd_entries g = pre @ (n, e) # post \<and>
     int (length post + k) < gd_max g \<and> wf_dict (gd_entries g))"

lemma evict_keeps:
  "evict m (pre @ x # post) = Inr kept \<Longrightarrow> int (Suc (length post)) < m \<Longrightarrow>
     \<exists>pre'. kept = pre' @ x # post \<and> set pre' \<subseteq> set pre"
proof (induction pre)
  case (Cons y pre)
  show ?case
  proof (cases "m \<le> int (length (y # pre @ x # post))")
    case True
    with Cons have "evict m (pre @ x # post) = Inr kept" by simp
    from Cons.IH [OF this Cons.prems(2)] show ?thesis by auto
  next
    case False
    with Cons.prems(1) have "kept = (y # pre) @ x # post" by (simp split: if_splits)
    then show ?thesis by blast
  qed
qed (simp split: if_splits)

lemma evict_Inr: "evict m xs = Inr kept \<Longrightarrow>
    0 < m \<and> int (length kept) < m \<and> (\<exists>d. xs = d @ kept)"
proof (induction xs)
  case (Cons x xs)
  then show ?case by (auto split: if_splits)
qed (simp split: if_splits)

lemma wf_filter: "wf_dict d \<Longrightarrow> wf_dict (filter P d)"
  by (simp add: wf_dict_def distinct_map_filter)

lemma dset_new: "\<not> dhas d k \<Longrightarrow> dset k v d = d @ [(k, v)]"
  by (induction d) (auto simp: dhas_def dict_simps)

lemma wf_append_right: "wf_dict (xs @ ys) \<Longrightarrow> wf_dict ys"
  by (simp add: wf_dict_def)

lemma dhas_suffix: "\<not> dhas (xs @ ys) k \<Longrightarrow> \<not> dhas ys k"
  by (simp add: dhas_def)

lemma guard_keep:
  assumes h: "guard_held n e (Suc k) g" and e: "\<not> f_le e t"
  shows "guard_held n e k (snd (consume m t g))"
proof -
  define P where "P = (\<lambda>(n' :: string, e'). \<not> f_le e' t)"
  obtain pre post where g: "gd_entries g = pre @ (n, e) # post" "int (length post + Suc k) < gd_max g"
    "wf_dict (gd_entries g)"
    using h by (auto simp: guard_held_def)
  let ?live = "filter P (gd_entries g)"
  have live: "?live = filter P pre @ (n, e) # filter P post" using e by (simp add: g P_def)
  have wf: "wf_dict ?live" using g(3) by (rule wf_filter)
  have post: "length (filter P post) \<le> length post" by simp
  show ?thesis
  proof (cases "dhas ?live m")
    case True
    then have "snd (consume m t g) = g\<lparr>gd_entries := ?live\<rparr>"
      by (simp add: consume_def P_def)
    moreover have "int (length (filter P post) + k) < gd_max g" using g(2) post by linarith
    ultimately show ?thesis using live wf unfolding guard_held_def
      by - (rule exI [of _ "filter P pre"], rule exI [of _ "filter P post"], simp)
  next
    case False
    have m: "int (Suc (length (filter P post))) < gd_max g" using g(2) post by linarith
    show ?thesis
    proof (cases "evict (gd_max g) ?live")
      case (Inl x)
      have "evict j xs \<noteq> Inl x" if "0 < j" for j xs using that by (induction xs) auto
      with Inl m show ?thesis by (metis linorder_not_less of_nat_0_less_iff order_less_trans zero_less_Suc)
    next
      case (Inr kept)
      from evict_keeps [of "gd_max g" "filter P pre" "(n, e)" "filter P post" kept] Inr m live
      obtain pre' where kept: "kept = pre' @ (n, e) # filter P post" by auto
      obtain d where d: "?live = d @ kept" using evict_Inr [OF Inr] by blast
      have new: "dset m (expiry g t) kept = kept @ [(m, expiry g t)]"
        using False d by (intro dset_new) (metis dhas_suffix)
      have "snd (consume m t g) = g\<lparr>gd_entries := kept @ [(m, expiry g t)]\<rparr>"
        using False Inr new by (simp add: consume_def P_def)
      moreover have "wf_dict (kept @ [(m, expiry g t)])"
        using wf d wf_append_right by (metis new wf_dset)
      moreover have "int (length (filter P post @ [(m, expiry g t)]) + k) < gd_max g"
        using g(2) post by (simp del: length_filter_le add: order_le_less_trans [OF add_mono])
      ultimately show ?thesis
        using kept unfolding guard_held_def
        by - (rule exI [of _ pre'], rule exI [of _ "filter P post @ [(m, expiry g t)]"], simp)
    qed
  qed
qed

lemma guard_refuse:
  assumes "guard_held n e k g" "\<not> f_le e t"
  shows "fst (consume n t g) = Inr False"
proof -
  obtain pre post where g: "gd_entries g = pre @ (n, e) # post"
    using assms by (auto simp: guard_held_def)
  have "dhas (filter (\<lambda>(n, e). \<not> f_le e t) (gd_entries g)) n"
    using assms(2) by (auto simp: g dhas_def)
  then show ?thesis by (simp add: consume_def)
qed

interpretation nonce: replay_guard consume f_le guard_held
  by unfold_locales (rule guard_keep guard_refuse; assumption)+

lemma guard_admit:
  assumes "fst (consume n t g) = Inr True" "wf_dict (gd_entries g)"
  shows "guard_held n (expiry g t) (nat (gd_max g) - 1) (snd (consume n t g))"
proof -
  let ?live = "filter (\<lambda>(n, e). \<not> f_le e t) (gd_entries g)"
  have new: "\<not> dhas ?live n" using assms(1) by (auto simp: consume_def Let_def split: if_splits)
  then obtain kept where kept: "evict (gd_max g) ?live = Inr kept"
    using assms(1) by (auto simp: consume_def Let_def split: sum.splits)
  obtain d where d: "?live = d @ kept" and m: "0 < gd_max g" using evict_Inr [OF kept] by blast
  have ap: "dset n (expiry g t) kept = kept @ [(n, expiry g t)]"
    using new d by (intro dset_new) (metis dhas_suffix)
  have "wf_dict (kept @ [(n, expiry g t)])"
    using wf_filter [OF assms(2)] d ap by (metis wf_append_right wf_dset)
  then show ?thesis
    using new kept ap m by (auto simp: consume_def guard_held_def)
qed

text \<open>The guard stays within its bound and keeps every nonce once.\<close>

definition guard_inv :: "guard \<Rightarrow> bool" where
  "guard_inv g \<longleftrightarrow> wf_dict (gd_entries g) \<and> 0 < gd_max g \<and> int (length (gd_entries g)) \<le> gd_max g"

lemma guard_inv_consume: "guard_inv g \<Longrightarrow> guard_inv (snd (consume n t g))"
proof -
  assume inv: "guard_inv g"
  let ?live = "filter (\<lambda>(n, e). \<not> f_le e t) (gd_entries g)"
  have live: "wf_dict ?live" "int (length ?live) \<le> gd_max g"
    using inv wf_filter length_filter_le [of "\<lambda>(n, e). \<not> f_le e t" "gd_entries g"]
    unfolding guard_inv_def by (blast, linarith)
  show ?thesis
  proof (cases "dhas ?live n")
    case True
    then show ?thesis using inv live by (simp add: consume_def guard_inv_def)
  next
    case False
    show ?thesis
    proof (cases "evict (gd_max g) ?live")
      case (Inl e)
      then show ?thesis using inv False by (simp add: consume_def guard_inv_def)
    next
      case (Inr kept)
      obtain d where d: "?live = d @ kept" "int (length kept) < gd_max g"
        using evict_Inr [OF Inr] by blast
      have new: "dset n (expiry g t) kept = kept @ [(n, expiry g t)]"
        using False d by (intro dset_new) (metis dhas_suffix)
      have "wf_dict (dset n (expiry g t) kept)" using live(1) d by (metis wf_append_right wf_dset)
      then show ?thesis using inv False Inr d new by (simp add: consume_def guard_inv_def)
    qed
  qed
qed

section \<open>The authentication middleware\<close>

record worker_request =
  wr_method :: string
  wr_path :: string
  wr_correlation :: "string option"
  wr_length :: "string option"
  wr_timestamp :: "string option"
  wr_nonce :: "string option"
  wr_signature :: "string option"
  wr_body :: string

text \<open>\<open>_worker_response\<close>: a status code and a JSON body.\<close>

type_synonym response = "int \<times> dict"

definition worker_response :: "int \<Rightarrow> string \<Rightarrow> json \<Rightarrow> (string \<times> string) option \<Rightarrow> string option
    \<Rightarrow> response" where
  "worker_response code status data err correlation =
     (code, [(''status'', JStr status), (''service'', JStr ''curator-sandbox-worker''),
       (''version'', JStr ''1.0''), (''correlation_id'', opt_json correlation), (''data'', data),
       (''error'', (case err of None \<Rightarrow> JNull
          | Some (c, m) \<Rightarrow> JObj [(''code'', JStr c), (''message'', JStr m)]))])"

definition worker_error :: "worker_request \<Rightarrow> int \<Rightarrow> string \<Rightarrow> response" where
  "worker_error r code err = worker_response code ''error'' JNull (Some (err, err)) (wr_correlation r)"

definition too_large :: "worker_request \<Rightarrow> response" where
  "too_large r = worker_response 413 ''error'' JNull
     (Some (''worker_request_too_large'',
        ''Sandbox worker request exceeds the configured size limit.'')) (wr_correlation r)"

definition nonce_ok :: "string \<Rightarrow> bool" where
  "nonce_ok n \<longleftrightarrow> 16 \<le> length n \<and> length n \<le> 128 \<and>
     list_all (\<lambda>c. skill_id_char c \<and> c \<noteq> CHR ''.'' \<and> c \<noteq> CHR '':'') n"

text \<open>What the middleware does with a request: it answers, passes it on, or an exception escapes.\<close>

datatype decision = Reply response | Forward | Crash exn

definition request_fields :: "worker_request \<Rightarrow> signed_fields" where
  "request_fields r =
     \<lparr>sf_method = wr_method r, sf_path = wr_path r, sf_timestamp = str_or (wr_timestamp r) [],
      sf_nonce = str_or (wr_nonce r) [], sf_body = wr_body r\<rparr>"

text \<open>The checks before the nonce is consumed; \<open>None\<close> if all pass.\<close>

definition size_check :: "worker_limits \<Rightarrow> worker_request \<Rightarrow> response option" where
  "size_check l r =
     (if str_true (wr_length r) then
        (case parse_int (the (wr_length r)) of
           None \<Rightarrow> Some (worker_error r 400 ''invalid_content_length'')
         | Some n \<Rightarrow> if wl_body l < n then Some (too_large r)
             else if wl_body l < int (length (wr_body r)) then Some (too_large r) else None)
      else if wl_body l < int (length (wr_body r)) then Some (too_large r) else None)"

definition header_check :: "worker_limits \<Rightarrow> int \<Rightarrow> worker_request \<Rightarrow> response option" where
  "header_check l now r =
     (if \<not> str_true (wr_timestamp r) \<or> \<not> str_true (wr_nonce r) \<or> \<not> str_true (wr_signature r)
      then Some (worker_error r 401 ''missing_worker_signature'')
      else if \<not> nonce_ok (str_or (wr_nonce r) []) then Some (worker_error r 401 ''invalid_worker_nonce'')
      else (case parse_int (str_or (wr_timestamp r) []) of
          None \<Rightarrow> Some (worker_error r 401 ''invalid_worker_timestamp'')
        | Some t \<Rightarrow> if wl_skew l < \<bar>now - t\<bar>
            then Some (worker_error r 401 ''stale_worker_request'') else None))"

text \<open>
  \<open>authenticate_worker_request\<close>; \<open>now\<close> is \<open>int(time.time())\<close> of the staleness test and \<open>clock\<close>
  the later reading of the guard.
\<close>

definition authenticate :: "(string \<Rightarrow> string \<Rightarrow> string) \<Rightarrow> string \<Rightarrow> worker_limits \<Rightarrow> int \<Rightarrow> pyfloat
    \<Rightarrow> worker_request \<Rightarrow> guard \<Rightarrow> decision \<times> guard" where
  "authenticate mac key l now clock r g =
     (if wr_path r = ''/health'' then (Forward, g)
      else (case size_check l r of
          Some resp \<Rightarrow> (Reply resp, g)
        | None \<Rightarrow> (case header_check l now r of
            Some resp \<Rightarrow> (Reply resp, g)
          | None \<Rightarrow> (case verify_worker_signature mac key (str_or (wr_signature r) []) (request_fields r) of
              Inl e \<Rightarrow> (Crash e, g)
            | Inr False \<Rightarrow> (Reply (worker_error r 403 ''invalid_worker_signature''), g)
            | Inr True \<Rightarrow> (case consume (str_or (wr_nonce r) []) clock g of
                (Inl e, g') \<Rightarrow> (Crash e, g')
              | (Inr False, g') \<Rightarrow> (Reply (worker_error r 409 ''replayed_worker_request''), g')
              | (Inr True, g') \<Rightarrow> (Forward, g'))))))"

section \<open>The endpoints\<close>

definition worker_health :: response where
  "worker_health = worker_response 200 ''success'' (JObj
     [(''status'', JStr ''healthy''), (''execution_surface'', JStr ''sandbox_only''),
      (''broker_access'', JBool False), (''order_placement'', JBool False)]) None None"

definition worker_ready :: "worker_limits \<Rightarrow> dict \<Rightarrow> string option \<Rightarrow> response" where
  "worker_ready l execution correlation =
     (let ok = truthy (jget execution ''ready'') \<and> truthy (jget execution ''secure_execution_ready'') in
      worker_response (if ok then 200 else 503) (if ok then ''success'' else ''unavailable'')
        (JObj [(''ready'', JBool ok), (''execution'', JObj execution),
           (''max_concurrency'', JInt (wl_concurrency l)), (''max_body_bytes'', JInt (wl_body l)),
           (''fallback_enabled'', JBool False)])
        (if ok then None else Some (''sandbox_runtime_not_ready'', ''sandbox_runtime_not_ready''))
        correlation)"

text \<open>
  \<open>/v1/execute\<close>: \<open>acquired\<close> says whether the semaphore was acquired within the queue timeout. An
  exception of the executor escapes after the release.
\<close>

definition worker_info :: json where
  "worker_info = JObj [(''service'', JStr ''curator-sandbox-worker''),
     (''authenticated'', JBool True), (''fallback_enabled'', JBool False)]"

definition worker_execute :: "(exec_request \<Rightarrow> dict res) \<Rightarrow> bool \<Rightarrow> exec_request \<Rightarrow> string option
    \<Rightarrow> response res" where
  "worker_execute exec acquired q correlation =
     (if \<not> acquired then Inr (worker_response 429 ''error'' JNull
        (Some (''sandbox_worker_busy'', ''Sandbox worker concurrency limit is saturated.'')) correlation)
      else res_map (\<lambda>d. worker_response 200 ''success'' (JObj (dset ''worker'' worker_info d)) None
        correlation) (exec q))"

text \<open>The semaphore: free permits and running executions, over the steps of concurrent requests.\<close>

record slots =
  sl_free :: nat
  sl_running :: nat

inductive slot_step :: "slots \<Rightarrow> slots \<Rightarrow> bool" where
  acquire: "0 < sl_free s \<Longrightarrow> slot_step s \<lparr>sl_free = sl_free s - 1, sl_running = sl_running s + 1\<rparr>"
| busy: "sl_free s = 0 \<Longrightarrow> slot_step s s"
| release: "0 < sl_running s \<Longrightarrow>
    slot_step s \<lparr>sl_free = sl_free s + 1, sl_running = sl_running s - 1\<rparr>"

inductive_cases slot_stepE: "slot_step s t"

interpretation slots: invariant_machine slot_step "\<lambda>s. sl_free s + sl_running s = n" for n
  by unfold_locales (auto elim!: slot_stepE)

section \<open>What the worker guarantees\<close>

text \<open>
  A request other than the health check is passed on only if it was fresh, signed with the key
  over exactly its fields, and its nonce was admitted.
\<close>

lemma authenticate_Forward:
  "authenticate mac key l now clock r g = (Forward, g') \<longleftrightarrow>
     (if wr_path r = ''/health'' then g' = g
      else size_check l r = None \<and> header_check l now r = None \<and>
        verify_worker_signature mac key (str_or (wr_signature r) []) (request_fields r) = Inr True \<and>
        consume (str_or (wr_nonce r) []) clock g = (Inr True, g'))"
  by (auto simp: authenticate_def split: option.split sum.split prod.split bool.split)

lemma authenticate_guard:
  "snd (authenticate mac key l now clock r g) = g \<or>
   snd (authenticate mac key l now clock r g) = snd (consume (str_or (wr_nonce r) []) clock g)"
  by (auto simp: authenticate_def split: option.split sum.split prod.split bool.split)

lemma header_check_None:
  "header_check l now r = None \<longleftrightarrow>
     str_true (wr_timestamp r) \<and> str_true (wr_nonce r) \<and> str_true (wr_signature r) \<and>
     nonce_ok (str_or (wr_nonce r) []) \<and>
     (\<exists>t. parse_int (str_or (wr_timestamp r) []) = Some t \<and> \<bar>now - t\<bar> \<le> wl_skew l)"
  by (auto simp: header_check_def split: option.split)

section \<open>Properties\<close>

text \<open>The worker over the requests it gets, in order, each with its two clock readings.\<close>

definition serve :: "(string \<Rightarrow> string \<Rightarrow> string) \<Rightarrow> string \<Rightarrow> worker_limits \<Rightarrow>
    (int \<times> pyfloat \<times> worker_request) list \<Rightarrow> guard \<Rightarrow> guard" where
  "serve mac key l rs g = fold (\<lambda>(now, clock, r) g. snd (authenticate mac key l now clock r g)) rs g"

lemma serve_simps [simp]:
  "serve mac key l [] g = g"
  "serve mac key l ((now, clock, r) # rs) g = serve mac key l rs (snd (authenticate mac key l now clock r g))"
  by (simp_all add: serve_def)

lemma held_weaken: "guard_held n e (Suc k) g \<Longrightarrow> guard_held n e k g"
  unfolding guard_held_def by force

lemma held_authenticate:
  "guard_held n e (Suc k) g \<Longrightarrow> \<not> f_le e clock \<Longrightarrow>
     guard_held n e k (snd (authenticate mac key l now clock r g))"
  using authenticate_guard [of mac key l now clock r g] nonce.keep [of n e k g clock] held_weaken by metis

lemma held_serve:
  "guard_held n e (length rs + k) g \<Longrightarrow> (\<And>now clock r. (now, clock, r) \<in> set rs \<Longrightarrow> \<not> f_le e clock) \<Longrightarrow>
     guard_held n e k (serve mac key l rs g)"
proof (induction rs arbitrary: g)
  case (Cons x rs)
  obtain now clock r where x: "x = (now, clock, r)" by (cases x) auto
  have "guard_held n e (length rs + k) (snd (authenticate mac key l now clock r g))"
    using Cons.prems by (intro held_authenticate) (auto simp: x)
  then have "guard_held n e k (serve mac key l rs (snd (authenticate mac key l now clock r g)))"
    by (rule Cons.IH) (use Cons.prems(2) in auto)
  then show ?case by (simp add: x)
qed simp

lemma held_antimono: "guard_held n e m g \<Longrightarrow> k \<le> m \<Longrightarrow> guard_held n e k g"
  unfolding guard_held_def by force

lemma guard_inv_serve: "guard_inv g \<Longrightarrow> guard_inv (serve mac key l rs g)"
proof (induction rs arbitrary: g)
  case (Cons x rs)
  obtain now clock r where x: "x = (now, clock, r)" by (cases x) auto
  have "guard_inv (snd (authenticate mac key l now clock r g))"
    using authenticate_guard [of mac key l now clock r g] Cons.prems guard_inv_consume by metis
  then show ?case using Cons.IH by (simp add: x)
qed simp

lemma guard_inv_new: "guard_inv (new_guard ttl)"
  by (simp add: guard_inv_def new_guard_def wf_dict_def dkeys_def)

lemma size_check_None:
  "size_check l r = None \<longleftrightarrow> int (length (wr_body r)) \<le> wl_body l \<and>
     (wr_length r = None \<or> wr_length r = Some [] \<or>
      (\<exists>s n. wr_length r = Some s \<and> parse_int s = Some n \<and> n \<le> wl_body l))"
  by (auto simp: size_check_def str_true_def parse_int_def strip_none split: option.splits if_splits)

lemma nonce_ok_Nil [simp]: "\<not> nonce_ok []"
  by (simp add: nonce_ok_def)

text \<open>C19. What the worker passes on: a request other than the health check reaches an endpoint
  exactly if its body and its announced length are within the limit, its time stamp is a number
  within the allowed skew of the clock, its nonce is well formed and was admitted by the guard, and
  its signature is the keyed hash of exactly its method, path, time stamp, nonce and body.\<close>

theorem worker_forwards:
  assumes "wr_path r \<noteq> ''/health''"
  shows "authenticate mac key l now clock r g = (Forward, g') \<longleftrightarrow>
    int (length (wr_body r)) \<le> wl_body l \<and>
    (wr_length r = None \<or> wr_length r = Some [] \<or>
     (\<exists>s n. wr_length r = Some s \<and> parse_int s = Some n \<and> n \<le> wl_body l)) \<and>
    (\<exists>ts n sig t m. wr_timestamp r = Some ts \<and> wr_nonce r = Some n \<and> wr_signature r = Some sig \<and>
       parse_int ts = Some t \<and> \<bar>now - t\<bar> \<le> wl_skew l \<and> nonce_ok n \<and> key \<noteq> [] \<and> sig \<noteq> [] \<and> ts \<noteq> [] \<and>
       signature_message \<lparr>sf_method = wr_method r, sf_path = wr_path r, sf_timestamp = ts,
         sf_nonce = n, sf_body = wr_body r\<rparr> = Inr m \<and>
       list_all is_ascii (mac (utf8 key) m) \<and> filter is_ascii sig = mac (utf8 key) m \<and>
       consume n clock g = (Inr True, g'))"
  using assms
  unfolding authenticate_Forward size_check_None verify_iff header_check_None request_fields_def
  by (auto simp: str_true_def str_or_def split: option.splits)

definition demo_limits :: worker_limits where
  "demo_limits = \<lparr>wl_body = 2048, wl_skew = 30, wl_concurrency = 2, wl_queue = Fin 1\<rparr>"

definition demo_mac :: "string \<Rightarrow> string \<Rightarrow> string" where
  "demo_mac key m = ''s''"

definition demo_worker_request :: worker_request where
  "demo_worker_request = \<lparr>wr_method = ''GET'', wr_path = ''/ready'', wr_correlation = None,
     wr_length = None, wr_timestamp = Some ''0'', wr_nonce = Some ''aaaaaaaaaaaaaaaa'',
     wr_signature = Some ''s'', wr_body = []\<rparr>"

lemma demo_consume: "consume ''aaaaaaaaaaaaaaaa'' (Fin 0) (new_guard 60) =
    (Inr True, (new_guard 60)\<lparr>gd_entries := [(''aaaaaaaaaaaaaaaa'', Fin 60)]\<rparr>)"
  by (simp add: consume_def new_guard_def dhas_def dset_def expiry_def float_simps)

lemma demo_message: "\<exists>m. signature_message \<lparr>sf_method = ''GET'', sf_path = ''/ready'', sf_timestamp = ''0'',
    sf_nonce = ''aaaaaaaaaaaaaaaa'', sf_body = []\<rparr> = Inr m"
  by (simp add: signature_message_eq text_simps is_ascii_def)

lemma demo_nonce_ok: "nonce_ok ''aaaaaaaaaaaaaaaa''"
  by (simp add: nonce_ok_def skill_id_char_def)

lemma demo_parse: "parse_int ''0'' = Some 0"
  by (simp add: text_simps)

theorem worker_forwards_witness:
  "authenticate demo_mac ''k'' demo_limits 0 (Fin 0) demo_worker_request (new_guard 60) =
     (Forward, (new_guard 60)\<lparr>gd_entries := [(''aaaaaaaaaaaaaaaa'', Fin 60)]\<rparr>)"
proof -
  have "wr_path demo_worker_request \<noteq> ''/health''" by (simp add: demo_worker_request_def)
  from worker_forwards [OF this] demo_message show ?thesis
    by (simp add: demo_worker_request_def demo_limits_def demo_mac_def demo_consume demo_nonce_ok
        demo_parse is_ascii_def)
qed

text \<open>No replay: once the worker has passed on a request, then, as long as its nonce has not
  expired by the guard's clock and fewer than the guard's capacity of requests came in between, no
  request with the same nonce is passed on, whatever the other requests were.\<close>

theorem worker_refuses_replay:
  assumes "guard_inv g" and "wr_path r \<noteq> ''/health''" "wr_path r' \<noteq> ''/health''"
    and "authenticate mac key l now clock r g = (Forward, g1)"
    and "int (length rs) < gd_max g"
    and "\<And>now clock' q. (now, clock', q) \<in> set rs \<Longrightarrow> \<not> f_le (expiry g clock) clock'"
    and "\<not> f_le (expiry g clock) clock'" and "wr_nonce r' = wr_nonce r"
  shows "fst (authenticate mac key l now' clock' r' (serve mac key l rs g1)) \<noteq> Forward"
proof -
  define n where "n = str_or (wr_nonce r) []"
  have admitted: "consume n clock g = (Inr True, g1)"
    using assms(2,4) by (simp add: authenticate_Forward n_def)
  then have "guard_held n (expiry g clock) (nat (gd_max g) - 1) g1"
    using guard_admit [of n clock g] assms(1) by (simp add: guard_inv_def)
  then have "guard_held n (expiry g clock) (length rs + 0) g1"
    by (rule held_antimono) (use assms(5) in linarith)
  then have "guard_held n (expiry g clock) 0 (serve mac key l rs g1)"
    by (rule held_serve) (rule assms(6))
  then have "fst (consume n clock' (serve mac key l rs g1)) = Inr False"
    using assms(7) by (rule nonce.refuse)
  then have "consume n clock' (serve mac key l rs g1) \<noteq> (Inr True, g')" for g' by auto
  then have "authenticate mac key l now' clock' r' (serve mac key l rs g1) \<noteq> (Forward, g')" for g'
    using assms(3,8) by (simp add: authenticate_Forward n_def)
  then show ?thesis by (metis prod.collapse)
qed

theorem worker_refuses_replay_witness:
  "fst (authenticate demo_mac ''k'' demo_limits 1 (Fin 1) demo_worker_request
     (serve demo_mac ''k'' demo_limits [] ((new_guard 60)\<lparr>gd_entries := [(''aaaaaaaaaaaaaaaa'', Fin 60)]\<rparr>)))
   \<noteq> Forward"
proof -
  have p: "wr_path demo_worker_request \<noteq> ''/health''" by (simp add: demo_worker_request_def)
  have f: "authenticate demo_mac ''k'' demo_limits 0 (Fin 0) demo_worker_request (new_guard 60) =
     (Forward, (new_guard 60)\<lparr>gd_entries := [(''aaaaaaaaaaaaaaaa'', Fin 60)]\<rparr>)"
    unfolding authenticate_Forward size_check_None header_check_None verify_iff request_fields_def
    using demo_message p
    by (simp add: demo_worker_request_def demo_limits_def demo_mac_def demo_consume demo_nonce_ok
        demo_parse is_ascii_def str_true_def str_or_def)
  show ?thesis
    by (rule worker_refuses_replay [OF guard_inv_new p p f])
      (simp_all add: new_guard_def expiry_def float_simps)
qed

text \<open>C21. The replay memory is bounded: whatever requests a worker serves, its guard holds at most
  as many nonces as its capacity, and each of them once.\<close>

theorem worker_memory_bounded:
  "length (gd_entries (serve mac key l rs (new_guard ttl))) \<le> 10000 \<and>
   distinct (map fst (gd_entries (serve mac key l rs (new_guard ttl))))"
proof -
  have max: "gd_max (snd (consume n clock g)) = gd_max g" for n clock g
    by (simp add: consume_def Let_def split: sum.split)
  have "gd_max (serve mac key l rs g) = gd_max g" for g
  proof (induction rs arbitrary: g)
    case (Cons x rs)
    obtain now clock r where x: "x = (now, clock, r)" by (cases x) auto
    show ?case using authenticate_guard [of mac key l now clock r g] max Cons.IH by (auto simp: x)
  qed simp
  then have "gd_max (serve mac key l rs (new_guard ttl)) = 10000" by (simp add: new_guard_def)
  moreover have "guard_inv (serve mac key l rs (new_guard ttl))"
    by (rule guard_inv_serve [OF guard_inv_new])
  ultimately show ?thesis by (simp add: guard_inv_def wf_dict_def dkeys_def)
qed

text \<open>However requests interleave, a worker with \<open>n\<close> permits never runs more than \<open>n\<close>
  executions at once and never loses a permit.\<close>

theorem worker_concurrency_bounded:
  assumes "slot_step\<^sup>*\<^sup>* \<lparr>sl_free = n, sl_running = 0\<rparr> s"
  shows "sl_running s \<le> n \<and> sl_free s = n - sl_running s"
  using slots.run_inv [OF assms, of n] by auto

theorem worker_concurrency_bounded_witness:
  "sl_running \<lparr>sl_free = 1, sl_running = 1\<rparr> \<le> 2"
proof -
  have "slot_step \<lparr>sl_free = 2, sl_running = 0\<rparr> \<lparr>sl_free = 1, sl_running = 1\<rparr>"
    using slot_step.acquire [of "\<lparr>sl_free = 2, sl_running = 0\<rparr>"] by simp
  from worker_concurrency_bounded [OF r_into_rtranclp [of slot_step, OF this]] show ?thesis by simp
qed

end
