(* ===== verification/Remote_Sandbox.thy ===== *)
theory Remote_Sandbox
  imports Sandbox_Worker
begin

text \<open>
  \<open>app/remote_sandbox.py\<close>: the executor that sends a skill to the signed worker and fails closed.
  The HTTP exchange, the clock and the random nonce are parameters.
\<close>

section \<open>URLs\<close>

text \<open>\<open>urllib.parse.urlsplit\<close>, with the parts the program reads.\<close>

record url_parts =
  up_scheme :: string
  up_netloc :: string
  up_path :: string
  up_query :: string
  up_fragment :: string

definition is_alpha :: "char \<Rightarrow> bool" where
  "is_alpha c \<longleftrightarrow> (let n = of_char c :: int in 65 \<le> n \<and> n \<le> 90 \<or> 97 \<le> n \<and> n \<le> 122)"

definition scheme_char :: "char \<Rightarrow> bool" where
  "scheme_char c \<longleftrightarrow> is_alpha c \<or> is_digit c \<or> c = CHR ''+'' \<or> c = CHR ''-'' \<or> c = CHR ''.''"

definition split_scheme :: "string \<Rightarrow> string \<times> string" where
  "split_scheme s = (case break_at (\<lambda>c. c = CHR '':'') s of
       (a, Some rest) \<Rightarrow>
         if a \<noteq> [] \<and> is_alpha (hd a) \<and> list_all scheme_char a then (lower a, rest) else ([], s)
     | (_, None) \<Rightarrow> ([], s))"

definition netloc_end :: "char \<Rightarrow> bool" where
  "netloc_end c \<longleftrightarrow> c = CHR ''/'' \<or> c = CHR ''?'' \<or> c = CHR ''#''"

definition split_netloc :: "string \<Rightarrow> string \<times> string" where
  "split_netloc s = (if startswith s ''//''
     then (takeWhile (\<lambda>c. \<not> netloc_end c) (drop 2 s), dropWhile (\<lambda>c. \<not> netloc_end c) (drop 2 s))
     else ([], s))"

definition url_junk :: "char \<Rightarrow> bool" where
  "url_junk c \<longleftrightarrow> (let n = of_char c :: int in n = 9 \<or> n = 10 \<or> n = 13)"

definition part_or_empty :: "string option \<Rightarrow> string" where
  "part_or_empty x = (case x of Some s \<Rightarrow> s | None \<Rightarrow> [])"

definition urlsplit :: "string \<Rightarrow> url_parts res" where
  "urlsplit url =
     (let clean = filter (\<lambda>c. \<not> url_junk c) (dropWhile (\<lambda>c. (of_char c :: int) \<le> 32) url);
          (scheme, s1) = split_scheme clean;
          (netloc, s2) = split_netloc s1;
          (s3, fragment) = break_at (\<lambda>c. c = CHR ''#'') s2;
          (path, query) = break_at (\<lambda>c. c = CHR ''?'') s3
      in if (CHR ''['' \<in> set netloc) \<noteq> (CHR '']'' \<in> set netloc)
         then Inl (ValueError ''Invalid IPv6 URL'')
         else Inr \<lparr>up_scheme = scheme, up_netloc = netloc, up_path = path,
           up_query = part_or_empty query, up_fragment = part_or_empty fragment\<rparr>)"

text \<open>
  \<open>netloc.rpartition("@")\<close>: what is before the last \<open>@\<close>, if there is one, and what follows;
  the user name and password before it, and the host without its port.
\<close>

definition userinfo_of :: "string \<Rightarrow> string option" where
  "userinfo_of netloc = (case break_at (\<lambda>c. c = CHR ''@'') (rev netloc) of
       (_, Some r) \<Rightarrow> Some (rev r) | (_, None) \<Rightarrow> None)"

definition hostinfo_of :: "string \<Rightarrow> string" where
  "hostinfo_of netloc = rev (fst (break_at (\<lambda>c. c = CHR ''@'') (rev netloc)))"

definition has_credentials :: "string \<Rightarrow> bool" where
  "has_credentials netloc = (case userinfo_of netloc of
       None \<Rightarrow> False
     | Some u \<Rightarrow> (case break_at (\<lambda>c. c = CHR '':'') u of
         (name, pw) \<Rightarrow> name \<noteq> [] \<or> part_or_empty pw \<noteq> []))"

definition hostname_of :: "string \<Rightarrow> string" where
  "hostname_of netloc =
     (let h = hostinfo_of netloc in
      case break_at (\<lambda>c. c = CHR ''['') h of
        (_, Some b) \<Rightarrow> fst (break_at (\<lambda>c. c = CHR '']'') b)
      | (_, None) \<Rightarrow> fst (break_at (\<lambda>c. c = CHR '':'') h))"

definition is_production :: "(string \<Rightarrow> string option) \<Rightarrow> bool" where
  "is_production env \<longleftrightarrow>
     lower (strip (getenv env ''APP_ENV'' (getenv env ''ENVIRONMENT'' ''development'')))
       \<in> {''production'', ''prod''}"

definition validated_worker_url :: "(string \<Rightarrow> string option) \<Rightarrow> string \<Rightarrow> string res" where
  "validated_worker_url env value =
     (let raw = rstrip_char (CHR ''/'') (strip value) in
      if raw = [] then Inl (RuntimeError ''CURATOR_SANDBOX_WORKER_URL must be configured.'')
      else res_bind (urlsplit raw) (\<lambda>p.
        if up_scheme p \<notin> {''http'', ''https''} \<or> hostname_of (up_netloc p) = [] then
          Inl (RuntimeError ''CURATOR_SANDBOX_WORKER_URL must use an absolute http or https URL.'')
        else if has_credentials (up_netloc p) then
          Inl (RuntimeError ''CURATOR_SANDBOX_WORKER_URL must not contain embedded credentials.'')
        else if up_query p \<noteq> [] \<or> up_fragment p \<noteq> [] \<or> up_path p \<notin> {[], ''/''} then
          Inl (RuntimeError
            ''CURATOR_SANDBOX_WORKER_URL must contain only scheme, host and optional port.'')
        else if is_production env \<and> up_scheme p \<noteq> ''https'' \<and>
            \<not> env_bool env ''CURATOR_ALLOW_INSECURE_WORKER_HTTP'' False then
          Inl (RuntimeError (''Production sandbox worker traffic requires HTTPS. Set ''
            @ ''CURATOR_ALLOW_INSECURE_WORKER_HTTP=true only for an explicitly isolated ''
            @ ''private network.''))
        else Inr (up_scheme p @ ''://'' @ up_netloc p)))"

section \<open>The executor\<close>

record remote =
  rm_url :: string
  rm_key :: string
  rm_timeout :: pyfloat

definition remote_init :: "(string \<Rightarrow> string option) \<Rightarrow> string option \<Rightarrow> string option \<Rightarrow> pyfloat option
    \<Rightarrow> remote res" where
  "remote_init env url key timeout =
     res_bind (validated_worker_url env
       (case url of Some u \<Rightarrow> u | None \<Rightarrow> getenv env ''CURATOR_SANDBOX_WORKER_URL'' [])) (\<lambda>u.
     res_bind (require_worker_api_key env key) (\<lambda>k.
     res_bind (case timeout of Some t \<Rightarrow> Inr t
       | None \<Rightarrow> env_float env ''CURATOR_SANDBOX_WORKER_TIMEOUT_SECONDS'' ''10'') (\<lambda>t.
       if f_le (Fin 1) t \<and> f_le t (Fin 60)
       then Inr \<lparr>rm_url = u, rm_key = k, rm_timeout = t\<rparr>
       else Inl (RuntimeError
         ''CURATOR_SANDBOX_WORKER_TIMEOUT_SECONDS must be between 1 and 60.''))))"

record http_request =
  hq_url :: string
  hq_method :: string
  hq_headers :: "(string \<times> string) list"
  hq_data :: "string option"
  hq_timeout :: pyfloat

text \<open>\<open>urlopen\<close>: a response, an \<open>HTTPError\<close> with its body, or another exception.\<close>

datatype http_outcome = HttpOk int string | HttpStatus int string | HttpDown string

text \<open>The world of a call: the clock, the nonce, the keyed hash and the network.\<close>

record net =
  nt_clock :: int
  nt_nonce :: string
  nt_mac :: "string \<Rightarrow> string \<Rightarrow> string"
  nt_send :: "http_request \<Rightarrow> http_outcome"

text \<open>\<open>_request\<close>: the request that is sent, and the reading of the response.\<close>

definition remote_fields :: "net \<Rightarrow> string \<Rightarrow> string \<Rightarrow> string \<Rightarrow> signed_fields" where
  "remote_fields w m p body = \<lparr>sf_method = m, sf_path = p, sf_timestamp = int_str (nt_clock w),
     sf_nonce = nt_nonce w, sf_body = body\<rparr>"

definition request_body :: "dict option \<Rightarrow> string" where
  "request_body payload = (case payload of Some d \<Rightarrow> canonical_json_bytes d | None \<Rightarrow> [])"

definition signed_request :: "remote \<Rightarrow> net \<Rightarrow> string \<Rightarrow> string \<Rightarrow> dict option \<Rightarrow> pyfloat option
    \<Rightarrow> http_request res" where
  "signed_request rm w m p payload timeout =
     res_map (\<lambda>signature.
       \<lparr>hq_url = rm_url rm @ p, hq_method = m,
        hq_headers = [(''X-Curator-Worker-Timestamp'', int_str (nt_clock w)),
            (''X-Curator-Worker-Nonce'', nt_nonce w), (''X-Curator-Worker-Signature'', signature),
            (''Accept'', ''application/json''),
            (''X-Correlation-ID'', ''curator-worker-'' @ nt_nonce w)]
          @ (if payload = None then [] else [(''Content-Type'', ''application/json'')]),
        hq_data = map_option (\<lambda>d. canonical_json_bytes d) payload,
        hq_timeout = (case timeout of
            Some t \<Rightarrow> if f_eq t (Fin 0) then rm_timeout rm else t | None \<Rightarrow> rm_timeout rm)\<rparr>)
       (build_worker_signature (nt_mac w) (rm_key rm) (remote_fields w m p (request_body payload)))"

definition loads_or_empty :: "string \<Rightarrow> json res" where
  "loads_or_empty body = (if body = [] then Inr (JObj []) else json_loads body)"

definition read_response :: "http_outcome \<Rightarrow> (int \<times> json) res" where
  "read_response out = (case out of
       HttpOk code body \<Rightarrow> res_map (Pair code) (loads_or_empty body)
     | HttpStatus code body \<Rightarrow> (case loads_or_empty body of
           Inl (JSONDecodeError _) \<Rightarrow> Inr (code, JObj [(''error'',
             JObj [(''code'', JStr ''invalid_worker_error_response'')])])
         | Inl e \<Rightarrow> Inl e
         | Inr v \<Rightarrow> Inr (code, v))
     | HttpDown e \<Rightarrow> Inl (RuntimeError e))"

definition remote_request :: "remote \<Rightarrow> net \<Rightarrow> string \<Rightarrow> string \<Rightarrow> dict option \<Rightarrow> pyfloat option
    \<Rightarrow> (int \<times> json) res" where
  "remote_request rm w m p payload timeout =
     res_bind (signed_request rm w m p payload timeout) (\<lambda>r. read_response (nt_send w r))"

text \<open>\<open>_failure\<close>.\<close>

definition remote_failure :: "string \<Rightarrow> string \<Rightarrow> string \<Rightarrow> dict" where
  "remote_failure skill code why =
     [(''skill_id'', JStr skill),
      (''execution_status'', JStr ''rejected_remote_worker_unavailable''), (''error'', JStr code),
      (''output'', JObj []), (''fallback_used'', JBool False),
      (''sandbox'', JObj [(''mode'', JStr ''remote_worker''), (''secure_execution_ready'', JBool False),
         (''broker_access'', JBool False), (''order_placement'', JBool False)])]
     @ (if why = [] then [] else details (take 500 why))"

text \<open>\<open>readiness\<close>; reading \<open>.get\<close> of a response or an error that is no object raises.\<close>

definition no_get :: exn where
  "no_get = AttributeError ''object has no attribute get''"

definition remote_reason :: "json \<Rightarrow> dict \<Rightarrow> json res" where
  "remote_reason response data =
     (if truthy (jget data ''reason'') then Inr (jget data ''reason'')
      else (case response of
          JObj r \<Rightarrow> (case py_or (jget r ''error'') (JObj []) of
              JObj e \<Rightarrow> Inr (py_or (jget e ''code'') (JStr ''sandbox_worker_not_ready''))
            | _ \<Rightarrow> Inl no_get)
        | _ \<Rightarrow> Inl no_get))"

definition remote_readiness :: "remote \<Rightarrow> net \<Rightarrow> dict res" where
  "remote_readiness rm w =
     (case remote_request rm w ''GET'' ''/ready'' None None of
        Inl e \<Rightarrow> Inr
          [(''ready'', JBool False), (''mode'', JStr ''remote_worker''),
           (''worker_endpoint_configured'', JBool True), (''secure_execution_ready'', JBool False),
           (''degraded'', JBool False), (''fallback_enabled'', JBool False),
           (''reason'', JStr ''sandbox_worker_unreachable''), (''details'', JStr (take 500 (exn_text e)))]
      | Inr (code, response) \<Rightarrow>
          (let data = obj_or_empty (jget (obj_or_empty response) ''data'');
               execution = obj_or_empty (jget data ''execution'');
               ok = code = 200 \<and> truthy (jget data ''ready'') \<and>
                 truthy (jget execution ''secure_execution_ready'')
           in res_map (\<lambda>reason.
             [(''ready'', JBool ok), (''mode'', JStr ''remote_worker''),
              (''worker_endpoint_configured'', JBool True), (''worker_status_code'', JInt code),
              (''secure_execution_ready'', JBool ok), (''degraded'', JBool False),
              (''fallback_enabled'', JBool False), (''worker_execution'', JObj execution),
              (''reason'', reason)])
             (if ok then Inr JNull else remote_reason response data)))"

text \<open>\<open>execute\<close>.\<close>

definition remote_payload :: "exec_request \<Rightarrow> dict" where
  "remote_payload q =
     [(''skill_id'', JStr (rq_skill q)), (''code'', JStr (rq_code q)),
      (''inputs'', JObj (rq_inputs q)), (''function_name'', opt_json (rq_function q)),
      (''timeout_seconds'', JFloat (rq_timeout q))]"

definition remote_rejection :: "exec_request \<Rightarrow> int \<Rightarrow> json \<Rightarrow> dict" where
  "remote_rejection q code response =
     (let e = obj_or_empty (jget (obj_or_empty response) ''error'') in
      remote_failure (rq_skill q)
        (py_str (py_or (jget e ''code'') (JStr (''sandbox_worker_http_'' @ int_str code))))
        (py_str (py_or (jget e ''message'') (JStr ''remote sandbox worker rejected execution''))))"

definition remote_execute :: "remote \<Rightarrow> net \<Rightarrow> exec_request \<Rightarrow> dict res" where
  "remote_execute rm w q =
     (case remote_request rm w ''POST'' ''/v1/execute'' (Some (remote_payload q))
         (Some (py_max (rm_timeout rm) (f_add (py_min (rq_timeout q) (Fin 5)) (Fin 5)))) of
        Inl e \<Rightarrow> Inr (remote_failure (rq_skill q) ''sandbox_worker_unreachable'' (exn_text e))
      | Inr (code, response) \<Rightarrow>
          if code \<noteq> 200 then Inr (remote_rejection q code response)
          else (case response of
             JObj r \<Rightarrow>
               if jget r ''status'' \<noteq> JStr ''success'' then Inr (remote_rejection q code response)
               else (case jget r ''data'' of
                   JObj d \<Rightarrow> Inr (dset ''fallback_used'' (JBool False)
                     (dset ''execution_backend'' (JStr ''remote_worker'') d))
                 | _ \<Rightarrow> Inr (remote_failure (rq_skill q) ''invalid_sandbox_worker_response'' []))
           | _ \<Rightarrow> Inl no_get))"

section \<open>What the remote executor guarantees\<close>

lemma remote_failure_status:
  "jget (remote_failure i c w) ''execution_status'' = JStr ''rejected_remote_worker_unavailable''"
  by (simp add: remote_failure_def dict_simps)

lemma wf_remote_failure: "wf_dict (remote_failure i c w)"
  by (simp add: remote_failure_def wf_dict_def details_def)

text \<open>Every object inside a response has distinct keys.\<close>

lemma wf_json_jget: "wf_json (JObj d) \<Longrightarrow> wf_json (jget d k)"
  by (fastforce simp: jget_def dget_def list_all_iff split: option.splits dest: map_of_SomeD)

lemma loads_or_empty_wf: "loads_or_empty s = Inr v \<Longrightarrow> wf_json v"
  by (auto simp: loads_or_empty_def json_loads_wf split: if_splits)

lemma read_response_wf: "read_response out = Inr (c, v) \<Longrightarrow> wf_json v"
  by (auto simp: read_response_def res_map_eq_Inr loads_or_empty_wf wf_dict_def
      split: http_outcome.splits sum.splits exn.splits)

lemma remote_execute_wf:
  assumes "remote_execute rm w q = Inr d"
  shows "wf_dict d"
proof -
  have rej: "wf_dict (remote_rejection q c r)" for c r
    by (simp add: remote_rejection_def Let_def wf_remote_failure)
  have data: "wf_dict e" if "wf_json (JObj r)" "jget r ''data'' = JObj e" for r e
    using wf_json_jget [OF that(1), of "''data''"] that(2) by simp
  have resp: "wf_json v" if "remote_request rm w m p x t = Inr (c, v)" for m p x t c v
    using that by (auto simp: remote_request_def intro: read_response_wf)
  show ?thesis
    using assms unfolding remote_execute_def
    by (auto simp: rej wf_remote_failure split: sum.splits prod.splits if_splits json.splits
        dest!: resp simp del: wf_json.simps intro!: wf_dset intro: data)
qed

text \<open>
  A report of success comes from a response with status 200 that says so; every failure of the
  exchange is a rejection, and no result is a fallback.
\<close>

lemma remote_execute_success:
  assumes "remote_execute rm w q = Inr d" "jget d ''execution_status'' = JStr ''success''"
  shows "\<exists>r e. remote_request rm w ''POST'' ''/v1/execute'' (Some (remote_payload q))
      (Some (py_max (rm_timeout rm) (f_add (py_min (rq_timeout q) (Fin 5)) (Fin 5)))) = Inr (200, JObj r) \<and>
    jget r ''status'' = JStr ''success'' \<and> jget r ''data'' = JObj e \<and>
    jget e ''execution_status'' = JStr ''success'' \<and> jget d ''output'' = jget e ''output''"
  using assms
  by (auto simp: remote_execute_def remote_rejection_def Let_def remote_failure_status
      split: sum.splits prod.splits if_splits json.splits)

lemma remote_no_fallback:
  "remote_execute rm w q = Inr d \<Longrightarrow> jget d ''fallback_used'' = JBool False"
  by (auto simp: remote_execute_def remote_rejection_def remote_failure_def Let_def dict_simps
      split: sum.splits prod.splits if_splits json.splits)

text \<open>The request as the worker sees it.\<close>

definition delivered :: "http_request \<Rightarrow> string \<Rightarrow> worker_request" where
  "delivered r p =
     \<lparr>wr_method = hq_method r, wr_path = p, wr_correlation = dget (hq_headers r) ''X-Correlation-ID'',
      wr_length = map_option (\<lambda>d. int_str (int (length d))) (hq_data r),
      wr_timestamp = dget (hq_headers r) ''X-Curator-Worker-Timestamp'',
      wr_nonce = dget (hq_headers r) ''X-Curator-Worker-Nonce'',
      wr_signature = dget (hq_headers r) ''X-Curator-Worker-Signature'',
      wr_body = part_or_empty (hq_data r)\<rparr>"

lemma digit_ascii: "is_digit c \<Longrightarrow> is_ascii c"
  by (simp add: is_digit_def is_ascii_def Let_def)

lemma id_char_ascii: "skill_id_char c \<Longrightarrow> is_ascii c"
  by (auto simp: skill_id_char_def is_ascii_def Let_def)

lemma list_all_ascii_digits: "0 \<le> n \<Longrightarrow> list_all is_ascii (int_str n)"
  using dec_str_digits [of n] by (auto simp: list_all_iff int_str_def intro: digit_ascii)

lemma nonce_ok_ascii: "nonce_ok n \<Longrightarrow> list_all is_ascii n \<and> n \<noteq> []"
proof -
  assume n: "nonce_ok n"
  then have "\<forall>c \<in> set n. skill_id_char c" unfolding nonce_ok_def list_all_iff by blast
  then have "list_all is_ascii n" unfolding list_all_iff using id_char_ascii by blast
  moreover have "n \<noteq> []" using n unfolding nonce_ok_def by (cases n) simp_all
  ultimately show ?thesis by blast
qed

lemma signed_request_fields:
  assumes "signed_request rm w m p payload t = Inr r"
  shows "\<exists>sig. build_worker_signature (nt_mac w) (rm_key rm)
      (remote_fields w m p (request_body payload)) = Inr sig \<and>
    hq_method r = m \<and> hq_data r = map_option canonical_json_bytes payload \<and>
    dget (hq_headers r) ''X-Curator-Worker-Timestamp'' = Some (int_str (nt_clock w)) \<and>
    dget (hq_headers r) ''X-Curator-Worker-Nonce'' = Some (nt_nonce w) \<and>
    dget (hq_headers r) ''X-Curator-Worker-Signature'' = Some sig"
  using assms by (auto simp: signed_request_def res_map_eq_Inr dict_simps)


definition demo_remote :: remote where
  "demo_remote = \<lparr>rm_url = ''https://w'', rm_key = ''k'', rm_timeout = Fin 10\<rparr>"

definition demo_net :: net where
  "demo_net = \<lparr>nt_clock = 0, nt_nonce = ''aaaaaaaaaaaaaaaa'', nt_mac = demo_mac,
     nt_send = (\<lambda>_. HttpOk 200 ''{\"status\": \"success\", \"data\": {\"execution_status\": \"success\"}}'')\<rparr>"


section \<open>Properties\<close>

lemma demo_reply: "json_loads ''{\"status\": \"success\", \"data\": {\"execution_status\": \"success\"}}'' =
    Inr (JObj [(''status'', JStr ''success''), (''data'', JObj [(''execution_status'', JStr ''success'')])])"
  by code_simp

lemma demo_remote_request: "remote_request demo_remote demo_net ''POST'' ''/v1/execute'' payload t =
    Inr (200, JObj [(''status'', JStr ''success''), (''data'', JObj [(''execution_status'', JStr ''success'')])])"
  by (simp add: remote_request_def signed_request_def build_worker_signature_def signature_message_def
      remote_fields_def demo_net_def demo_remote_def ascii_encode_def is_ascii_def text_simps
      read_response_def loads_or_empty_def demo_reply)

definition demo_answer :: dict where
  "demo_answer = [(''execution_status'', JStr ''success''), (''execution_backend'', JStr ''remote_worker''),
     (''fallback_used'', JBool False)]"

lemma demo_remote_execute: "remote_execute demo_remote demo_net demo_exec = Inr demo_answer"
  by (simp add: remote_execute_def demo_remote_request demo_answer_def dict_simps dset_def)

text \<open>C29. The remote executor fails closed: no result of it is a fallback, and it reports success only
  when the worker answered 200 with a success whose data say so themselves; an unreachable worker, any
  other status and an object without data become a rejection.\<close>

theorem remote_fail_closed:
  assumes "remote_execute rm w q = Inr d"
  shows "jget d ''fallback_used'' = JBool False \<and>
    (jget d ''execution_status'' = JStr ''success'' \<longrightarrow>
      (\<exists>r e. remote_request rm w ''POST'' ''/v1/execute'' (Some (remote_payload q))
         (Some (py_max (rm_timeout rm) (f_add (py_min (rq_timeout q) (Fin 5)) (Fin 5)))) = Inr (200, JObj r) \<and>
       jget r ''status'' = JStr ''success'' \<and> jget r ''data'' = JObj e \<and>
       jget e ''execution_status'' = JStr ''success'' \<and> jget d ''output'' = jget e ''output''))"
  using remote_no_fallback [OF assms] remote_execute_success [OF assms] by blast

theorem remote_fail_closed_witness: "jget demo_answer ''fallback_used'' = JBool False"
  using remote_fail_closed [OF demo_remote_execute] by simp

lemma urlsplit_netloc: "urlsplit url = Inr p \<Longrightarrow> c \<in> set (up_netloc p) \<Longrightarrow> c \<notin> set ''/?#''"
  by (auto simp: urlsplit_def split_netloc_def netloc_end_def Let_def dest: set_takeWhileD
      split: prod.splits if_splits)



end
