(* ===== verification/Database_Client.thy ===== *)
theory Database_Client
  imports Remote_Sandbox
begin

text \<open>
  \<open>app/database_client.py\<close>: the optional telemetry client. Every failure of the exchange is a
  value of the result, never an exception. The network is the parameter \<open>send\<close>.
\<close>

type_synonym network = "http_request \<Rightarrow> http_outcome"

record database =
  db_url :: string
  db_key :: "string option"
  db_timeout :: pyfloat

definition db_enabled :: "database \<Rightarrow> bool" where
  "db_enabled db \<longleftrightarrow> db_url db \<noteq> []"

definition database_init :: "(string \<Rightarrow> string option) \<Rightarrow> string option \<Rightarrow> string option \<Rightarrow> pyfloat option
    \<Rightarrow> database res" where
  "database_init env url key timeout =
     res_map (\<lambda>t.
       \<lparr>db_url = rstrip_char (CHR ''/'') (str_or url (getenv env ''DATABASE_AGENT_URL'' [])),
        db_key = (if key \<noteq> None then key else env ''DATABASE_AGENT_API_KEY''), db_timeout = t\<rparr>)
       (case timeout of
          Some t \<Rightarrow> if f_eq t (Fin 0) then env_float env ''DATABASE_AGENT_TIMEOUT_SECONDS'' ''1.0'' else Inr t
        | None \<Rightarrow> env_float env ''DATABASE_AGENT_TIMEOUT_SECONDS'' ''1.0'')"

section \<open>URLs\<close>

text \<open>\<open>urllib.parse.quote(s, safe=extra)\<close>.\<close>

definition unreserved :: "char \<Rightarrow> bool" where
  "unreserved c \<longleftrightarrow> is_alpha c \<or> is_digit c \<or> c \<in> set ''_.-~''"

definition hex_upper :: "int \<Rightarrow> char" where
  "hex_upper d = (if d < 10 then char_of (48 + d) else char_of (55 + d))"

definition quote_byte :: "string \<Rightarrow> char \<Rightarrow> string" where
  "quote_byte extra c = (if unreserved c \<or> c \<in> set extra then [c]
     else [CHR ''%'', hex_upper (of_char c div 16), hex_upper (of_char c mod 16)])"

definition quote :: "string \<Rightarrow> string \<Rightarrow> string" where
  "quote extra s = concat (map (quote_byte extra) (utf8 s))"

section \<open>Requests\<close>

definition db_headers :: "database \<Rightarrow> string option \<Rightarrow> (string \<times> string) list" where
  "db_headers db correlation =
     [(''Content-Type'', ''application/json'')]
     @ (if str_true correlation then [(''X-Correlation-ID'', the correlation)] else [])
     @ (if str_true (db_key db) then [(''X-API-KEY'', the (db_key db))] else [])"

definition db_read :: "http_outcome \<Rightarrow> json" where
  "db_read out = (case out of
       HttpOk _ raw \<Rightarrow>
         (if raw = [] then JObj [(''status'', JStr ''success''), (''data'', JNull)]
          else (case json_loads raw of
              Inr v \<Rightarrow> v
            | Inl e \<Rightarrow> JObj [(''status'', JStr ''failed''), (''error'', JStr (exn_text e))]))
     | HttpStatus code body \<Rightarrow>
         JObj [(''status'', JStr ''failed''), (''error'', JStr (''database_agent_http_'' @ int_str code)),
           (''details'', JStr body)]
     | HttpDown e \<Rightarrow> JObj [(''status'', JStr ''failed''), (''error'', JStr e)])"

definition db_request :: "database \<Rightarrow> network \<Rightarrow> string \<Rightarrow> string \<Rightarrow> dict option \<Rightarrow> string option \<Rightarrow> json" where
  "db_request db send m path payload correlation =
     (if \<not> db_enabled db then
        JObj [(''status'', JStr ''skipped''), (''reason'', JStr ''database_agent_url_not_configured'')]
      else db_read (send
        \<lparr>hq_url = db_url db @ path, hq_method = m, hq_headers = db_headers db correlation,
         hq_data = map_option (\<lambda>d. utf8 (json_dumps (JObj d))) payload, hq_timeout = db_timeout db\<rparr>))"

definition create_skill_execution_log :: "database \<Rightarrow> network \<Rightarrow> dict \<Rightarrow> string option \<Rightarrow> json" where
  "create_skill_execution_log db send payload correlation =
     db_request db send ''POST'' ''/skills/execution-logs'' (Some payload) correlation"

record rank_query =
  rk_account :: json
  rk_symbol :: "string option"
  rk_bucket :: "string option"
  rk_regime :: "string option"
  rk_limit :: int

definition opt_param :: "string \<Rightarrow> (string \<Rightarrow> string) \<Rightarrow> string option \<Rightarrow> string list" where
  "opt_param name f x = (if str_true x then [name @ quote ''/'' (f (the x))] else [])"

definition rank_path :: "rank_query \<Rightarrow> string" where
  "rank_path q = ''/skills/performance/rank?'' @ join ''&''
     ([''account_id='' @ quote ''/'' (py_str (rk_account q)), ''limit='' @ int_str (rk_limit q)]
      @ opt_param ''symbol='' upper (rk_symbol q) @ opt_param ''strategy_bucket='' id (rk_bucket q)
      @ opt_param ''market_regime='' id (rk_regime q))"

definition rank_skills :: "database \<Rightarrow> network \<Rightarrow> rank_query \<Rightarrow> json" where
  "rank_skills db send q = db_request db send ''GET'' (rank_path q) None None"

definition get_skill_backtest_status :: "database \<Rightarrow> network \<Rightarrow> string \<Rightarrow> json" where
  "get_skill_backtest_status db send skill =
     db_request db send ''GET'' (''/skills/'' @ quote [] skill @ ''/backtest-status'') None None"

section \<open>What the client guarantees\<close>

text \<open>A quoted skill id cannot leave its segment of the path.\<close>

lemma hex_upper_alnum: "0 \<le> d \<Longrightarrow> d < 16 \<Longrightarrow> is_alpha (hex_upper d) \<or> is_digit (hex_upper d)"
  by (auto simp: hex_upper_def is_alpha_def is_digit_def Let_def)

lemma quote_chars: "c \<in> set (quote extra s) \<Longrightarrow> unreserved c \<or> c \<in> set extra \<or> c = CHR ''%''"
proof -
  assume "c \<in> set (quote extra s)"
  then obtain b where b: "c \<in> set (quote_byte extra b)" by (auto simp: quote_def)
  have r: "0 \<le> (of_char b :: int) div 16 \<and> (of_char b :: int) div 16 < 16"
    using of_char_range [of b] by auto
  have "0 \<le> (of_char b :: int) mod 16 \<and> (of_char b :: int) mod 16 < 16" by simp
  then show ?thesis
    using b r hex_upper_alnum [of "of_char b div 16"] hex_upper_alnum [of "of_char b mod 16"]
    by (auto simp: quote_byte_def unreserved_def split: if_splits)
qed

lemma quote_no_slash: "CHR ''/'' \<notin> set (quote [] s) \<and> CHR ''?'' \<notin> set (quote [] s)"
  using quote_chars [of "CHR ''/''" "[]" s] quote_chars [of "CHR ''?''" "[]" s]
  by (auto simp: unreserved_def is_alpha_def is_digit_def Let_def)

lemma db_disabled: "\<not> db_enabled db \<Longrightarrow> jget (obj_or_empty (db_request db send m p d c)) ''status'' =
    JStr ''skipped''"
  by (simp add: db_request_def dict_simps)

end
