(* ===== verification/Performance_Intelligence.thy ===== *)
theory Performance_Intelligence
  imports Database_Client
begin

text \<open>
  \<open>app/performance_intelligence.py\<close>: confidence calibration and the decay assessment, with
  binary64 arithmetic.
\<close>

definition sample_keys :: "string list" where
  "sample_keys = [''sample_size'', ''total_executions'', ''execution_count'', ''observations'',
     ''trade_count'', ''closed_trades'']"

definition reliability_keys :: "string list" where
  "reliability_keys = [''precision'', ''accuracy'', ''hit_rate'', ''win_rate'', ''success_rate'']"

definition score_keys :: "string list" where
  "score_keys = [''skill_score'', ''performance_score'', ''score'']"

definition profit_factor_keys :: "string list" where
  "profit_factor_keys = [''profit_factor'', ''latest_profit_factor'']"

text \<open>\<open>_first_number\<close>: an int beyond the range of floats raises.\<close>

fun first_number :: "dict \<Rightarrow> string list \<Rightarrow> pyfloat option res" where
  "first_number d [] = Inr None"
| "first_number d (k # ks) = (case jget d k of
       JNull \<Rightarrow> first_number d ks
     | JBool _ \<Rightarrow> first_number d ks
     | v \<Rightarrow> (case to_float v of
           Inr x \<Rightarrow> Inr (Some x)
         | Inl e \<Rightarrow> if is_type_or_value_error e then first_number d ks else Inl e))"

definition clamp01 :: "pyfloat \<Rightarrow> pyfloat" where
  "clamp01 x = py_max (Fin 0) (py_min (Fin 1) x)"

definition normalize_rate :: "pyfloat option \<Rightarrow> pyfloat option" where
  "normalize_rate v = (case v of
       None \<Rightarrow> None
     | Some x \<Rightarrow> Some (clamp01 (if f_lt (Fin 1) x \<and> f_le x (Fin 100) then f_div_fin x 100 else x)))"

text \<open>\<open>extract_skill_performance\<close>: the first row of the skill.\<close>

definition extract_skill_performance :: "json \<Rightarrow> string \<Rightarrow> dict" where
  "extract_skill_performance rank skill =
     (case jget (obj_or_empty rank) ''data'' of
        JArr items \<Rightarrow>
          (case List.find (\<lambda>i. is_obj i \<and> py_str (jget (obj_or_empty i) ''skill_id'') = skill) items of
             Some i \<Rightarrow> obj_or_empty i | None \<Rightarrow> [])
      | _ \<Rightarrow> [])"

text \<open>\<open>max(0, int(value or 0))\<close>; an infinite or NaN sample size raises.\<close>

definition sample_size :: "dict \<Rightarrow> int res" where
  "sample_size d = res_bind (first_number d sample_keys) (\<lambda>v.
     (case v of None \<Rightarrow> Inr 0 | Some x \<Rightarrow> res_map (max 0) (int_of_float x)))"

definition opt_float :: "pyfloat option \<Rightarrow> json" where
  "opt_float v = (case v of Some x \<Rightarrow> JFloat x | None \<Rightarrow> JNull)"

definition calibration_report :: "json \<Rightarrow> json \<Rightarrow> string \<Rightarrow> int \<Rightarrow> json \<Rightarrow> pyfloat \<Rightarrow> dict" where
  "calibration_report raw calibrated status n reliability weight =
     [(''raw_confidence'', raw), (''calibrated_confidence'', calibrated),
      (''calibration_status'', JStr status), (''sample_size'', JInt n),
      (''empirical_reliability'', reliability), (''evidence_weight'', JFloat weight)]"

text \<open>\<open>calibrate_confidence\<close>.\<close>

definition evidence_weight :: "int \<Rightarrow> int \<Rightarrow> pyfloat res" where
  "evidence_weight n prior =
     res_bind (float_of_int (n + max 1 prior)) (\<lambda>total_f.
     res_bind (float_of_int n) (\<lambda>x. f_div x total_f))"

definition blend :: "pyfloat \<Rightarrow> pyfloat \<Rightarrow> pyfloat \<Rightarrow> pyfloat" where
  "blend raw reliability w = f_add (f_mul raw (f_sub (Fin 1) w)) (f_mul reliability w)"

definition calibrate_confidence :: "json \<Rightarrow> dict \<Rightarrow> int \<Rightarrow> dict res" where
  "calibrate_confidence raw_confidence performance prior =
     (case to_float raw_confidence of
        Inl e \<Rightarrow>
          if is_type_or_value_error e
          then Inr (calibration_report raw_confidence JNull ''raw_confidence_not_numeric'' 0 JNull (Fin 0))
          else Inl e
      | Inr x \<Rightarrow>
          (let raw = clamp01 x in
           res_bind (sample_size performance) (\<lambda>n.
           res_bind (first_number performance reliability_keys) (\<lambda>r.
             (case normalize_rate r of
                None \<Rightarrow> Inr (calibration_report (JFloat raw) (JFloat raw)
                  ''insufficient_performance_history'' n JNull (Fin 0))
              | Some reliability \<Rightarrow>
                  if n \<le> 0 then Inr (calibration_report (JFloat raw) (JFloat raw)
                    ''insufficient_performance_history'' n (JFloat reliability) (Fin 0))
                  else res_map (\<lambda>w.
                    calibration_report (JFloat (f_round 6 raw))
                      (JFloat (f_round 6 (clamp01 (blend raw reliability w)))) ''calibrated'' n
                      (JFloat (f_round 6 reliability)) (f_round 6 w))
                    (evidence_weight n prior))))))"

text \<open>\<open>assess_performance_decay\<close>: a measure below its first bound is severe, below its second degraded.\<close>

datatype grade = Healthy | Degraded_Grade | Severe

definition grade_of :: "rat \<Rightarrow> rat \<Rightarrow> pyfloat option \<Rightarrow> grade" where
  "grade_of lo hi v = (case v of
       None \<Rightarrow> Healthy
     | Some x \<Rightarrow> if f_lt x (to_b64 lo) then Severe
         else if f_lt x (to_b64 hi) then Degraded_Grade else Healthy)"

definition grade_reason :: "string \<Rightarrow> string \<Rightarrow> grade \<Rightarrow> string list" where
  "grade_reason lo hi g = (case g of Severe \<Rightarrow> [lo] | Degraded_Grade \<Rightarrow> [hi] | Healthy \<Rightarrow> [])"

definition decay_report :: "string \<Rightarrow> string \<Rightarrow> int \<Rightarrow> int \<Rightarrow> pyfloat option \<Rightarrow> pyfloat option
    \<Rightarrow> pyfloat option \<Rightarrow> string list \<Rightarrow> dict" where
  "decay_report health recommended n min_n reliability score profit reasons =
     [(''health'', JStr health), (''recommended_stage'', JStr recommended), (''sample_size'', JInt n),
      (''minimum_sample_size'', JInt min_n), (''reliability'', opt_float reliability),
      (''skill_score'', opt_float score), (''profit_factor'', opt_float profit),
      (''reasons'', JArr (map JStr reasons)), (''auto_transition_allowed'', JBool False)]"

definition decay_grades :: "pyfloat option \<Rightarrow> pyfloat option \<Rightarrow> pyfloat option \<Rightarrow> grade list" where
  "decay_grades reliability score profit =
     [grade_of (35 / 100) (48 / 100) reliability, grade_of (35 / 100) (50 / 100) score,
      grade_of (80 / 100) 1 profit]"

definition assess_performance_decay :: "dict \<Rightarrow> int \<Rightarrow> dict res" where
  "assess_performance_decay performance min_n =
     res_bind (sample_size performance) (\<lambda>n.
     res_bind (first_number performance reliability_keys) (\<lambda>r.
     res_bind (first_number performance score_keys) (\<lambda>s.
     res_bind (first_number performance profit_factor_keys) (\<lambda>profit.
       (let reliability = normalize_rate r; score = normalize_rate s;
            grades = decay_grades reliability score profit;
            reasons = grade_reason ''reliability_below_0.35'' ''reliability_below_0.48'' (grades ! 0)
              @ grade_reason ''skill_score_below_0.35'' ''skill_score_below_0.50'' (grades ! 1)
              @ grade_reason ''profit_factor_below_0.80'' ''profit_factor_below_1.00'' (grades ! 2)
        in Inr
          (if n < min_n then decay_report ''insufficient_data'' ''keep_current'' n min_n reliability score
             profit [''minimum_observation_threshold_not_met'']
           else if Severe \<in> set grades then decay_report ''critical'' ''quarantined'' n min_n reliability
             score profit reasons
           else if Degraded_Grade \<in> set grades then decay_report ''degraded'' ''degraded'' n min_n
             reliability score profit reasons
           else decay_report ''healthy'' ''keep_current'' n min_n reliability score profit
             (reasons @ [''performance_within_guardrails''])))))))"

section \<open>What the calibration guarantees\<close>

lemma clamp01_unit: "f_unit (clamp01 x)"
  by (simp add: clamp01_def clamp_unit)

lemma normalize_rate_unit: "normalize_rate v = Some x \<Longrightarrow> f_unit x"
  by (auto simp: normalize_rate_def clamp01_unit split: option.splits)

text \<open>The report of a calibration: its confidence, when it has one, is a number between 0 and 1.\<close>

lemma calibration_report_get:
  "jget (calibration_report raw c st n r w) ''calibrated_confidence'' = c"
  "jget (calibration_report raw c st n r w) ''calibration_status'' = JStr st"
  "jget (calibration_report raw c st n r w) ''sample_size'' = JInt n"
  "jget (calibration_report raw c st n r w) ''evidence_weight'' = JFloat w"
  by (simp_all add: calibration_report_def dict_simps)

lemma float_of_int_Inr: "float_of_int n = Inr x \<Longrightarrow> \<exists>r. x = Fin r \<and> to_b64 (of_int n) = Fin r"
  by (cases "to_b64 (of_int n)") (auto simp: float_of_int_def)

lemma evidence_weight_unit:
  assumes "evidence_weight n prior = Inr w" "0 \<le> n"
  shows "f_unit w"
proof -
  obtain a b where a: "float_of_int n = Inr a" and b: "float_of_int (n + max 1 prior) = Inr b"
    and w: "f_div a b = Inr w"
    using assms(1) by (auto simp: evidence_weight_def)
  obtain x y where x: "a = Fin x" "to_b64 (of_int n) = Fin x"
    and y: "b = Fin y" "to_b64 (of_int (n + max 1 prior)) = Fin y"
    using float_of_int_Inr [OF a] float_of_int_Inr [OF b] by blast
  have "(of_int n :: rat) \<le> of_int (n + max 1 prior)" by simp
  then have xy: "x \<le> y" using b64.fin_mono x y by blast
  have "f_le (Fin 0) (to_b64 (of_int n))" using assms(2) by (intro b64.nonneg) simp
  then have x0: "0 \<le> x" by (auto simp: x(2) f_le_def)
  have y0: "y \<noteq> 0" using w x y by auto
  then have "f_unit (to_b64 (x / y))" using x0 xy b64.ratio_unit [of x y] by auto
  then show ?thesis using w x y y0 by auto
qed

lemma calibrated_unit:
  assumes "calibrate_confidence raw d prior = Inr r"
  shows "jget r ''calibrated_confidence'' = JNull \<and> (\<exists>e. to_float raw = Inl e) \<or>
    (\<exists>x. jget r ''calibrated_confidence'' = JFloat x \<and> f_unit x)"
proof (cases "to_float raw")
  case (Inl e)
  then show ?thesis using assms
    by (auto simp: calibrate_confidence_def calibration_report_get split: if_splits)
next
  case (Inr x)
  then obtain n v where nv: "sample_size d = Inr n" "first_number d reliability_keys = Inr v"
    using assms by (auto simp: calibrate_confidence_def Let_def)
  show ?thesis
    using assms Inr nv clamp01_unit f_round_unit
    by (cases "normalize_rate v") (auto simp: calibrate_confidence_def Let_def res_map_eq_Inr
        calibration_report_get split: if_splits)
qed

lemma decay_report_get:
  "jget (decay_report h g n m a b c rs) ''auto_transition_allowed'' = JBool False"
  "jget (decay_report h g n m a b c rs) ''recommended_stage'' = JStr g"
  "jget (decay_report h g n m a b c rs) ''health'' = JStr h"
  "jget (decay_report h g n m a b c rs) ''sample_size'' = JInt n"
  by (simp_all add: decay_report_def dict_simps)

lemma calibration_weight:
  assumes "calibrate_confidence raw d prior = Inr r"
  shows "\<exists>w. jget r ''evidence_weight'' = JFloat w \<and> f_unit w"
proof (cases "to_float raw")
  case (Inl e)
  then show ?thesis using assms
    by (auto simp: calibrate_confidence_def calibration_report_get split: if_splits)
next
  case (Inr x)
  then obtain n v where nv: "sample_size d = Inr n" "first_number d reliability_keys = Inr v"
    using assms by (auto simp: calibrate_confidence_def Let_def)
  have "f_unit w" if "evidence_weight n prior = Inr w" "\<not> n \<le> 0" for w
    using evidence_weight_unit [OF that(1)] that(2) by simp
  then show ?thesis
    using assms Inr nv f_round_unit
    by (cases "normalize_rate v") (auto simp: calibrate_confidence_def Let_def res_map_eq_Inr
        calibration_report_get split: if_splits)
qed

section \<open>Properties\<close>

definition below :: "rat \<Rightarrow> pyfloat option \<Rightarrow> bool" where
  "below bound v \<longleftrightarrow> (case v of None \<Rightarrow> False | Some x \<Rightarrow> f_lt x (to_b64 bound))"

definition severe_decay :: "pyfloat option \<Rightarrow> pyfloat option \<Rightarrow> pyfloat option \<Rightarrow> bool" where
  "severe_decay reliability score profit \<longleftrightarrow>
     below (35 / 100) reliability \<or> below (35 / 100) score \<or> below (80 / 100) profit"

definition mild_decay :: "pyfloat option \<Rightarrow> pyfloat option \<Rightarrow> pyfloat option \<Rightarrow> bool" where
  "mild_decay reliability score profit \<longleftrightarrow>
     below (48 / 100) reliability \<or> below (50 / 100) score \<or> below 1 profit"

lemma grade_of_below:
  "grade_of lo hi v = Severe \<longleftrightarrow> below lo v"
  "grade_of lo hi v = Degraded_Grade \<longleftrightarrow> \<not> below lo v \<and> below hi v"
  by (auto simp: grade_of_def below_def split: option.splits)

lemma decay_grades_worst:
  "Severe \<in> set (decay_grades r s p) \<longleftrightarrow> severe_decay r s p"
  "\<not> severe_decay r s p \<Longrightarrow> Degraded_Grade \<in> set (decay_grades r s p) \<longleftrightarrow> mild_decay r s p"
  unfolding decay_grades_def severe_decay_def mild_decay_def
  using grade_of_below by (metis insert_iff list.set(1,2) empty_iff)+

text \<open>C38. The advice computed from the history of a skill: a calibrated confidence is a number between
  0 and 1 and so is the weight of the evidence, whatever the database answered, and only a confidence
  that is no number has none; the decay assessment never allows a transition by itself, keeps the
  stage below the minimum number of observations, and from there on recommends quarantine exactly for
  a severe measure and degradation exactly for a mild one.\<close>

theorem advice_bounded:
  assumes "calibrate_confidence raw d prior = Inr c" and "assess_performance_decay d m = Inr a"
  shows "(jget c ''calibrated_confidence'' = JNull \<and> (\<exists>e. to_float raw = Inl e) \<or>
      (\<exists>x. jget c ''calibrated_confidence'' = JFloat x \<and> f_unit x)) \<and>
    (\<exists>w. jget c ''evidence_weight'' = JFloat w \<and> f_unit w) \<and>
    jget a ''auto_transition_allowed'' = JBool False \<and>
    (\<exists>n r s p. sample_size d = Inr n \<and> first_number d reliability_keys = Inr r \<and>
      first_number d score_keys = Inr s \<and> first_number d profit_factor_keys = Inr p \<and>
      jget a ''sample_size'' = JInt n \<and>
      jget a ''recommended_stage'' = JStr (if n < m then ''keep_current''
        else if severe_decay (normalize_rate r) (normalize_rate s) p then ''quarantined''
        else if mild_decay (normalize_rate r) (normalize_rate s) p then ''degraded'' else ''keep_current''))"
proof -
  obtain n r s p where v: "sample_size d = Inr n" "first_number d reliability_keys = Inr r"
    "first_number d score_keys = Inr s" "first_number d profit_factor_keys = Inr p"
    using assms(2) by (auto simp: assess_performance_decay_def)
  have a: "jget a ''auto_transition_allowed'' = JBool False \<and> jget a ''sample_size'' = JInt n \<and>
      jget a ''recommended_stage'' = JStr (if n < m then ''keep_current''
        else if severe_decay (normalize_rate r) (normalize_rate s) p then ''quarantined''
        else if mild_decay (normalize_rate r) (normalize_rate s) p then ''degraded'' else ''keep_current'')"
    using assms(2) decay_grades_worst [of "normalize_rate r" "normalize_rate s" p]
    by (auto simp: assess_performance_decay_def v Let_def decay_report_get)
  show ?thesis using calibrated_unit [OF assms(1)] calibration_weight [OF assms(1)] a v by blast
qed

definition demo_history :: dict where
  "demo_history = [(''sample_size'', JInt 40), (''win_rate'', JFloat (Fin (1 / 4)))]"

lemma demo_history_numbers:
  "sample_size demo_history = Inr 40" "first_number demo_history reliability_keys = Inr (Some (Fin (1 / 4)))"
  "first_number demo_history score_keys = Inr None" "first_number demo_history profit_factor_keys = Inr None"
  by (simp_all add: demo_history_def sample_size_def sample_keys_def reliability_keys_def score_keys_def
      profit_factor_keys_def dict_simps float_of_int_def float_simps)

theorem advice_bounded_witness:
  "\<exists>c a. calibrate_confidence (JFloat (Fin 1)) demo_history 30 = Inr c \<and>
     assess_performance_decay demo_history 30 = Inr a \<and> jget a ''recommended_stage'' = JStr ''quarantined'' \<and>
     (\<exists>w. jget c ''evidence_weight'' = JFloat w \<and> f_unit w)"
proof -
  have "\<exists>w. evidence_weight 40 30 = Inr w" by (simp add: evidence_weight_def float_of_int_def float_simps)
  then obtain c where c: "calibrate_confidence (JFloat (Fin 1)) demo_history 30 = Inr c"
    by (auto simp: calibrate_confidence_def demo_history_numbers normalize_rate_def Let_def)
  obtain a where a: "assess_performance_decay demo_history 30 = Inr a"
    by (simp add: assess_performance_decay_def demo_history_numbers Let_def)
  have "severe_decay (normalize_rate (Some (Fin (1 / 4)))) (normalize_rate None) None"
    by (simp add: severe_decay_def below_def normalize_rate_def clamp01_def py_max_def py_min_def float_simps)
  with advice_bounded [OF c a] show ?thesis using c a by (simp add: demo_history_numbers)
qed

end
