(* ===== verification/Schema_Contracts.thy ===== *)
theory Schema_Contracts
  imports Py_Json
begin

text \<open>
  \<open>app/schema_contracts.py\<close>: the supported subset of JSON Schema. \<open>validate_schema_contract\<close>
  returns the list of error messages, in the order the code appends them; \<open>conforms\<close> is the
  contract it decides, stated without messages and paths.
\<close>

section \<open>The validator\<close>

text \<open>\<open>_TYPE_CHECKS\<close>; a type name outside the table has no check.\<close>

definition type_check :: "string \<Rightarrow> (json \<Rightarrow> bool) option" where
  "type_check t =
     (if t = ''object'' then Some is_obj
      else if t = ''array'' then Some (\<lambda>v. case v of JArr _ \<Rightarrow> True | _ \<Rightarrow> False)
      else if t = ''string'' then Some (\<lambda>v. case v of JStr _ \<Rightarrow> True | _ \<Rightarrow> False)
      else if t = ''number'' then
        Some (\<lambda>v. case v of JInt _ \<Rightarrow> True | JFloat _ \<Rightarrow> True | _ \<Rightarrow> False)
      else if t = ''integer'' then Some (\<lambda>v. case v of JInt _ \<Rightarrow> True | _ \<Rightarrow> False)
      else if t = ''boolean'' then Some (\<lambda>v. case v of JBool _ \<Rightarrow> True | _ \<Rightarrow> False)
      else if t = ''null'' then Some (\<lambda>v. v = JNull)
      else None)"

definition type_mismatch :: "dict \<Rightarrow> json \<Rightarrow> string option" where
  "type_mismatch s v = (case jget s ''type'' of
       JStr t \<Rightarrow> (case type_check t of
           Some check \<Rightarrow> if check v then None
             else Some ('': expected '' @ t @ '', got '' @ type_name v)
         | None \<Rightarrow> None)
     | _ \<Rightarrow> None)"

definition enum_errors :: "dict \<Rightarrow> json \<Rightarrow> string \<Rightarrow> string list" where
  "enum_errors s v path = (case jget s ''enum'' of
       JArr xs \<Rightarrow> if list_ex (py_eq v) xs then [] else [path @ '': value is not in allowed enum'']
     | _ \<Rightarrow> [])"

text \<open>\<open>schema.get("required") or []\<close> and \<open>schema.get("properties") or {}\<close>.\<close>

definition required_keys :: "dict \<Rightarrow> string list" where
  "required_keys s = (case jget s ''required'' of
       JArr ks \<Rightarrow> concat (map (\<lambda>k. case k of JStr x \<Rightarrow> [x] | _ \<Rightarrow> []) ks)
     | _ \<Rightarrow> [])"

definition properties_of :: "dict \<Rightarrow> dict option" where
  "properties_of s = (case py_or (jget s ''properties'') (JObj []) of JObj p \<Rightarrow> Some p | _ \<Rightarrow> None)"

definition props :: "dict \<Rightarrow> dict" where
  "props s = (case properties_of s of Some p \<Rightarrow> p | None \<Rightarrow> [])"

definition required_errors :: "dict \<Rightarrow> dict \<Rightarrow> string \<Rightarrow> string list" where
  "required_errors s d path =
     map (\<lambda>k. path @ ''.'' @ k @ '': required property is missing'')
       (filter (\<lambda>k. \<not> dhas d k) (required_keys s))"

definition closed_schema :: "dict \<Rightarrow> bool" where
  "closed_schema s \<longleftrightarrow> jget s ''additionalProperties'' = JBool False \<and> properties_of s \<noteq> None"

definition additional_errors :: "dict \<Rightarrow> dict \<Rightarrow> string \<Rightarrow> string list" where
  "additional_errors s d path =
     (if closed_schema s then
        map (\<lambda>k. path @ ''.'' @ k @ '': additional property is not allowed'')
          (sort (filter (\<lambda>k. \<not> dhas (props s) k) (remdups (dkeys d))))
      else [])"

definition length_errors :: "dict \<Rightarrow> string \<Rightarrow> string \<Rightarrow> nat \<Rightarrow> string \<Rightarrow> string \<Rightarrow> string \<Rightarrow> string list"
  where
  "length_errors s lo hi n path msg_lo msg_hi =
     (case int_val (jget s lo) of
         Some m \<Rightarrow> if int n < m then [path @ msg_lo @ py_str (jget s lo)] else []
       | None \<Rightarrow> [])
     @ (case int_val (jget s hi) of
         Some m \<Rightarrow> if m < int n then [path @ msg_hi @ py_str (jget s hi)] else []
       | None \<Rightarrow> [])"

definition bound_error :: "(pyfloat \<Rightarrow> pyfloat \<Rightarrow> bool) \<Rightarrow> dict \<Rightarrow> string \<Rightarrow> pyfloat \<Rightarrow> string \<Rightarrow> string
    \<Rightarrow> string list" where
  "bound_error bad s key x path msg = (case num_val (jget s key) of
       Some b \<Rightarrow> if bad x b then [path @ msg @ py_str (jget s key)] else []
     | None \<Rightarrow> [])"

definition number_errors :: "dict \<Rightarrow> pyfloat \<Rightarrow> string \<Rightarrow> string list" where
  "number_errors s x path =
     bound_error f_lt s ''minimum'' x path '': value must be >= ''
     @ bound_error (\<lambda>a b. f_lt b a) s ''maximum'' x path '': value must be <= ''
     @ bound_error f_le s ''exclusiveMinimum'' x path '': value must be > ''
     @ bound_error (\<lambda>a b. f_le b a) s ''exclusiveMaximum'' x path '': value must be < ''"

definition items_of :: "dict \<Rightarrow> json option" where
  "items_of s = (let i = jget s ''items'' in if is_obj i then Some i else None)"

lemma dget_size [termination_simp]:
  "dget d k = Some v \<Longrightarrow> size v < Suc (size_list (\<lambda>x. Suc (size (snd x))) d)"
  by (fastforce simp: dget_def dest!: map_of_SomeD intro: size_list_estimation' le_imp_less_Suc)

lemma jget_size: "jget d k \<noteq> JNull \<Longrightarrow> size (jget d k) < Suc (size_list (\<lambda>x. Suc (size (snd x))) d)"
  by (auto simp: jget_def split: option.splits intro: dget_size)

lemma items_of_size [termination_simp]:
  "items_of s = Some i \<Longrightarrow> size i < Suc (size_list (\<lambda>x. Suc (size (snd x))) s)"
  using jget_size [of s "''items''"] by (cases "jget s ''items''") (auto simp: items_of_def Let_def)

lemma props_size [termination_simp]:
  "(k, c) \<in> set (props s) \<Longrightarrow> size c < Suc (size_list (\<lambda>x. Suc (size (snd x))) s)"
proof -
  assume kc: "(k, c) \<in> set (props s)"
  then have p: "jget s ''properties'' = JObj (props s)"
    by (auto simp: props_def properties_of_def py_or_def split: json.splits if_splits)
  have "size c \<le> size_list (\<lambda>x. Suc (size (snd x))) (props s)"
    using kc by (intro size_list_estimation' [of "(k, c)"]) simp_all
  also have "(\<lambda>x. Suc (size (snd x))) = size_prod (\<lambda>k::string. 0) (size :: json \<Rightarrow> nat)"
    by (rule ext) (simp add: size_prod_simp split: prod.split)
  also have "size_list \<dots> (props s) < size (jget s ''properties'')" by (simp add: p)
  finally show ?thesis using jget_size [of s "''properties''"] p by simp
qed

text \<open>
  \<open>validate_schema_contract(value, schema, path=...)\<close>. A type mismatch is reported alone; the
  tests on objects, arrays, strings and numbers are of disjoint types.
\<close>

fun validate_schema_contract :: "json \<Rightarrow> json \<Rightarrow> string \<Rightarrow> string list" where
  "validate_schema_contract v (JObj s) path =
     (if s = [] then []
      else (case type_mismatch s v of
          Some msg \<Rightarrow> [path @ msg]
        | None \<Rightarrow>
            enum_errors s v path
            @ (case v of
                JObj d \<Rightarrow>
                  required_errors s d path
                  @ concat (map (\<lambda>(k, c). if is_obj c then (case dget d k of
                        Some w \<Rightarrow> validate_schema_contract w c (path @ ''.'' @ k)
                      | None \<Rightarrow> []) else []) (props s))
                  @ additional_errors s d path
              | JArr xs \<Rightarrow>
                  length_errors s ''minItems'' ''maxItems'' (length xs) path
                    '': expected at least '' '': expected at most ''
                  @ (case items_of s of
                      Some c \<Rightarrow> concat (map (\<lambda>(i, x).
                        validate_schema_contract x c (path @ ''['' @ int_str (int i) @ '']''))
                        (enumerate 0 xs))
                    | None \<Rightarrow> [])
              | JStr t \<Rightarrow>
                  length_errors s ''minLength'' ''maxLength'' (length t) path
                    '': string is shorter than '' '': string is longer than ''
              | JInt n \<Rightarrow> number_errors s (Fin (of_int n)) path
              | JFloat x \<Rightarrow> number_errors s x path
              | _ \<Rightarrow> [])))"
| "validate_schema_contract v _ path = []"

declare validate_schema_contract.simps [simp del]

section \<open>The contract it decides\<close>

definition type_conforms :: "dict \<Rightarrow> json \<Rightarrow> bool" where
  "type_conforms s v \<longleftrightarrow> (\<forall>t check. jget s ''type'' = JStr t \<longrightarrow> type_check t = Some check \<longrightarrow> check v)"

definition enum_conforms :: "dict \<Rightarrow> json \<Rightarrow> bool" where
  "enum_conforms s v \<longleftrightarrow> (\<forall>xs. jget s ''enum'' = JArr xs \<longrightarrow> (\<exists>x\<in>set xs. py_eq v x))"

definition keys_conform :: "dict \<Rightarrow> dict \<Rightarrow> bool" where
  "keys_conform s d \<longleftrightarrow>
     set (required_keys s) \<subseteq> set (dkeys d) \<and>
     (closed_schema s \<longrightarrow> set (dkeys d) \<subseteq> set (dkeys (props s)))"

definition length_conforms :: "dict \<Rightarrow> string \<Rightarrow> string \<Rightarrow> nat \<Rightarrow> bool" where
  "length_conforms s lo hi n \<longleftrightarrow>
     (\<forall>m. int_val (jget s lo) = Some m \<longrightarrow> m \<le> int n) \<and>
     (\<forall>m. int_val (jget s hi) = Some m \<longrightarrow> int n \<le> m)"

definition number_conforms :: "dict \<Rightarrow> pyfloat \<Rightarrow> bool" where
  "number_conforms s x \<longleftrightarrow>
     (\<forall>b. num_val (jget s ''minimum'') = Some b \<longrightarrow> \<not> f_lt x b) \<and>
     (\<forall>b. num_val (jget s ''maximum'') = Some b \<longrightarrow> \<not> f_lt b x) \<and>
     (\<forall>b. num_val (jget s ''exclusiveMinimum'') = Some b \<longrightarrow> \<not> f_le x b) \<and>
     (\<forall>b. num_val (jget s ''exclusiveMaximum'') = Some b \<longrightarrow> \<not> f_le b x)"

fun conforms :: "json \<Rightarrow> json \<Rightarrow> bool" where
  "conforms v (JObj s) \<longleftrightarrow> s = [] \<or>
     type_conforms s v \<and> enum_conforms s v \<and>
     (case v of
        JObj d \<Rightarrow> keys_conform s d \<and>
          (\<forall>(k, c) \<in> set (props s). is_obj c \<longrightarrow>
            (case dget d k of Some w \<Rightarrow> conforms w c | None \<Rightarrow> True))
      | JArr xs \<Rightarrow> length_conforms s ''minItems'' ''maxItems'' (length xs) \<and>
          (case items_of s of Some c \<Rightarrow> (\<forall>x \<in> set xs. conforms x c) | None \<Rightarrow> True)
      | JStr t \<Rightarrow> length_conforms s ''minLength'' ''maxLength'' (length t)
      | JInt n \<Rightarrow> number_conforms s (Fin (of_int n))
      | JFloat x \<Rightarrow> number_conforms s x
      | _ \<Rightarrow> True)"
| "conforms v _ \<longleftrightarrow> True"

declare conforms.simps [simp del]

section \<open>Each group of errors against its conjunct\<close>

lemma type_mismatch_None: "type_mismatch s v = None \<longleftrightarrow> type_conforms s v"
  by (auto simp: type_mismatch_def type_conforms_def split: json.splits option.splits)

lemma enum_errors_Nil: "enum_errors s v path = [] \<longleftrightarrow> enum_conforms s v"
  by (auto simp: enum_errors_def enum_conforms_def list_ex_iff split: json.splits)

lemma keys_errors_Nil:
  "required_errors s d path = [] \<and> additional_errors s d path = [] \<longleftrightarrow> keys_conform s d"
proof -
  have "required_errors s d path = [] \<longleftrightarrow> set (required_keys s) \<subseteq> set (dkeys d)"
    by (auto simp: required_errors_def filter_empty_conv dhas_def dkeys_def)
  moreover have "additional_errors s d path = [] \<longleftrightarrow>
      (closed_schema s \<longrightarrow> set (dkeys d) \<subseteq> set (dkeys (props s)))"
  proof -
    have sort_Nil: "sort (xs :: string list) = [] \<longleftrightarrow> xs = []" for xs
      by (metis set_empty set_sort)
    show ?thesis
      by (auto simp: additional_errors_def sort_Nil filter_empty_conv dhas_def dkeys_def)
  qed
  ultimately show ?thesis by (simp add: keys_conform_def)
qed

lemma length_errors_Nil:
  "length_errors s lo hi n path b a = [] \<longleftrightarrow> length_conforms s lo hi n"
  by (auto simp: length_errors_def length_conforms_def split: option.splits)

lemma number_errors_Nil: "number_errors s x path = [] \<longleftrightarrow> number_conforms s x"
  by (auto simp: number_errors_def bound_error_def number_conforms_def split: option.splits)

lemmas contract_groups =
  type_mismatch_None enum_errors_Nil length_errors_Nil number_errors_Nil

section \<open>The validator decides the contract\<close>

lemma concat_map_Nil: "concat (map f xs) = [] \<longleftrightarrow> (\<forall>x \<in> set xs. f x = [])"
  by (induction xs) auto

lemma in_concat_map: "e \<in> set (concat (map f xs)) \<longleftrightarrow> (\<exists>x \<in> set xs. e \<in> set (f x))"
  by auto

lemma set_enumerate_snd: "(\<forall>p \<in> set (enumerate n xs). P (snd p)) \<longleftrightarrow> (\<forall>x \<in> set xs. P x)"
  by (induction xs arbitrary: n) auto

lemma validate_nonobj: "\<not> is_obj s \<Longrightarrow> validate_schema_contract v s path = []"
  by (cases s) (auto simp: validate_schema_contract.simps)

lemma conforms_nonobj: "\<not> is_obj s \<Longrightarrow> conforms v s"
  by (cases s) (auto simp: conforms.simps)

text \<open>The two recursive groups, named, and the equations of the validator by type of value.\<close>

definition child_errors :: "dict \<Rightarrow> dict \<Rightarrow> string \<Rightarrow> string list" where
  "child_errors s d path = concat (map (\<lambda>(k, c). if is_obj c then (case dget d k of
       Some w \<Rightarrow> validate_schema_contract w c (path @ ''.'' @ k) | None \<Rightarrow> []) else []) (props s))"

definition item_errors :: "dict \<Rightarrow> json list \<Rightarrow> string \<Rightarrow> string list" where
  "item_errors s xs path = (case items_of s of
       Some c \<Rightarrow> concat (map (\<lambda>(i, x).
         validate_schema_contract x c (path @ ''['' @ int_str (int i) @ '']'')) (enumerate 0 xs))
     | None \<Rightarrow> [])"

lemma validate_typed:
  assumes "s \<noteq> []" "type_mismatch s v = None"
  shows "validate_schema_contract v (JObj s) path = enum_errors s v path @ (case v of
      JObj d \<Rightarrow> required_errors s d path @ child_errors s d path @ additional_errors s d path
    | JArr xs \<Rightarrow> length_errors s ''minItems'' ''maxItems'' (length xs) path
        '': expected at least '' '': expected at most '' @ item_errors s xs path
    | JStr t \<Rightarrow> length_errors s ''minLength'' ''maxLength'' (length t) path
        '': string is shorter than '' '': string is longer than ''
    | JInt n \<Rightarrow> number_errors s (Fin (of_int n)) path
    | JFloat x \<Rightarrow> number_errors s x path
    | _ \<Rightarrow> [])"
  using assms
  by (cases v) (simp_all add: validate_schema_contract.simps child_errors_def item_errors_def)

lemma validate_untyped:
  "type_mismatch s v = Some msg \<Longrightarrow>
     validate_schema_contract v (JObj s) path = (if s = [] then [] else [path @ msg])"
  by (simp add: validate_schema_contract.simps)

lemma validate_empty [simp]: "validate_schema_contract v (JObj []) path = []"
  by (simp add: validate_schema_contract.simps)

lemma conforms_empty [simp]: "conforms v (JObj [])"
  by (simp add: conforms.simps)

lemma child_errors_Nil:
  assumes "\<And>k c w. (k, c) \<in> set (props s) \<Longrightarrow> is_obj c \<Longrightarrow> dget d k = Some w \<Longrightarrow>
    validate_schema_contract w c (path @ ''.'' @ k) = [] \<longleftrightarrow> conforms w c"
  shows "child_errors s d path = [] \<longleftrightarrow> (\<forall>(k, c) \<in> set (props s). is_obj c \<longrightarrow>
    (case dget d k of Some w \<Rightarrow> conforms w c | None \<Rightarrow> True))"
  unfolding child_errors_def concat_map_Nil using assms by (fastforce split: option.splits)

lemma item_errors_Nil:
  assumes "\<And>i c x. items_of s = Some c \<Longrightarrow> (i, x) \<in> set (enumerate 0 xs) \<Longrightarrow>
    validate_schema_contract x c (path @ ''['' @ int_str (int i) @ '']'') = [] \<longleftrightarrow> conforms x c"
  shows "item_errors s xs path = [] \<longleftrightarrow>
    (case items_of s of Some c \<Rightarrow> (\<forall>x \<in> set xs. conforms x c) | None \<Rightarrow> True)"
proof (cases "items_of s")
  case (Some c)
  show ?thesis
    unfolding item_errors_def Some option.case concat_map_Nil
      set_enumerate_snd [of 0 xs "\<lambda>x. conforms x c", symmetric]
    using assms [OF Some] by fastforce
qed (simp add: item_errors_def)

lemma validate_Nil_iff: "validate_schema_contract v s path = [] \<longleftrightarrow> conforms v s"
proof (induction v s path rule: validate_schema_contract.induct)
  case (1 v s path)
  consider "s = []" | msg where "s \<noteq> []" "type_mismatch s v = Some msg"
    | "s \<noteq> []" "type_mismatch s v = None" by fastforce
  then show ?case
  proof cases
    case 2
    then have "\<not> type_conforms s v" by (simp flip: type_mismatch_None)
    with 2 show ?thesis by (simp add: validate_untyped conforms.simps)
  next
    case 3
    then have tc: "type_conforms s v" by (simp flip: type_mismatch_None)
    note V = validate_typed [OF 3, of path]
    show ?thesis
    proof (cases v)
      case (JObj d)
      have "child_errors s d path = [] \<longleftrightarrow> (\<forall>(k, c) \<in> set (props s). is_obj c \<longrightarrow>
          (case dget d k of Some w \<Rightarrow> conforms w c | None \<Rightarrow> True))"
        by (rule child_errors_Nil) (rule "1.IH"(2) [OF 3 JObj _ refl])
      then show ?thesis using keys_errors_Nil [of s d path] V tc 3(1)
        by (auto simp: JObj conforms.simps enum_errors_Nil)
    next
      case (JArr xs)
      have "item_errors s xs path = [] \<longleftrightarrow>
          (case items_of s of Some c \<Rightarrow> (\<forall>x \<in> set xs. conforms x c) | None \<Rightarrow> True)"
        by (rule item_errors_Nil) (rule "1.IH"(1) [OF 3 JArr _ _ refl])
      then show ?thesis using V tc 3(1)
        by (simp add: JArr conforms.simps enum_errors_Nil length_errors_Nil)
    qed (use V tc 3(1) in \<open>simp_all add: conforms.simps enum_errors_Nil length_errors_Nil
          number_errors_Nil\<close>)
  qed simp
qed (simp_all add: validate_schema_contract.simps conforms.simps)

text \<open>Every message starts with the path it was asked to report under.\<close>

lemma group_paths:
  "e \<in> set (enum_errors s v path) \<Longrightarrow> startswith e path"
  "e \<in> set (required_errors s d path) \<Longrightarrow> startswith e path"
  "e \<in> set (additional_errors s d path) \<Longrightarrow> startswith e path"
  "e \<in> set (length_errors s lo hi n path b1 b2) \<Longrightarrow> startswith e path"
  "e \<in> set (number_errors s x path) \<Longrightarrow> startswith e path"
  by (auto simp: enum_errors_def split: json.splits if_splits)
    (auto simp: required_errors_def additional_errors_def length_errors_def number_errors_def
      bound_error_def split: if_splits option.splits)

lemma startswith_extend: "startswith e (path @ x) \<Longrightarrow> startswith e path"
  by (auto simp: startswith_iff)

lemma validate_error_path: "e \<in> set (validate_schema_contract v s path) \<Longrightarrow> startswith e path"
proof (induction v s path rule: validate_schema_contract.induct)
  case (1 v s path)
  consider "s = []" | msg where "s \<noteq> []" "type_mismatch s v = Some msg"
    | "s \<noteq> []" "type_mismatch s v = None" by fastforce
  then show ?case
  proof cases
    case 3
    note V = validate_typed [OF 3, of path]
    have child: "startswith e path" if v: "v = JObj d" and e: "e \<in> set (child_errors s d path)" for d
    proof -
      from e obtain p where p: "p \<in> set (props s)"
        and ep: "e \<in> set (case p of (k, c) \<Rightarrow> if is_obj c then (case dget d k of
          Some w \<Rightarrow> validate_schema_contract w c (path @ ''.'' @ k) | None \<Rightarrow> []) else [])"
        unfolding child_errors_def in_concat_map by blast
      obtain k c where kc: "p = (k, c)" by (cases p)
      from ep p have "(k, c) \<in> set (props s)" "e \<in> set (if is_obj c then (case dget d k of
          Some w \<Rightarrow> validate_schema_contract w c (path @ ''.'' @ k) | None \<Rightarrow> []) else [])"
        by (simp_all only: kc prod.case)
      then obtain w where "(k, c) \<in> set (props s)" "is_obj c" "dget d k = Some w"
        "e \<in> set (validate_schema_contract w c (path @ ''.'' @ k))"
        by (cases "is_obj c"; cases "dget d k") simp_all
      then have "startswith e (path @ ''.'' @ k)" by (rule "1.IH"(2) [OF 3 v _ refl])
      then show ?thesis by (rule startswith_extend)
    qed
    have item: "startswith e path" if v: "v = JArr xs" and e: "e \<in> set (item_errors s xs path)" for xs
    proof -
      from e obtain c where c: "items_of s = Some c"
        by (cases "items_of s") (simp_all add: item_errors_def)
      with e obtain i x where "items_of s = Some c" "(i, x) \<in> set (enumerate 0 xs)"
        "e \<in> set (validate_schema_contract x c (path @ ''['' @ int_str (int i) @ '']''))"
        by (auto simp: item_errors_def)
      then have "startswith e (path @ ''['' @ int_str (int i) @ '']'')"
        by (rule "1.IH"(1) [OF 3 v _ _ refl])
      then show ?thesis by (rule startswith_extend)
    qed
    show ?thesis
    proof (cases v)
      case (JObj d)
      with "1.prems" V child [OF JObj] show ?thesis by (auto dest: group_paths)
    next
      case (JArr xs)
      with "1.prems" V item [OF JArr] show ?thesis by (auto dest: group_paths)
    qed (use "1.prems" V in \<open>auto dest: group_paths\<close>)
  qed (use "1.prems" in \<open>auto simp: validate_untyped\<close>)
qed (simp_all add: validate_schema_contract.simps)

section \<open>Property\<close>

text \<open>C18. The schema check decides the contract: it reports no error exactly if the value conforms to
  the schema, and every error it reports starts with the path it was asked to report under.\<close>

theorem schema_check_decides:
  "(validate_schema_contract v s path = [] \<longleftrightarrow> conforms v s) \<and>
   list_all (\<lambda>e. startswith e path) (validate_schema_contract v s path)"
  using validate_error_path by (auto simp: validate_Nil_iff list_all_iff)

end
