(* ===== verification/Skill_Executors.thy ===== *)
theory Skill_Executors
  imports Performance_Intelligence Registry_Inv Schema_Contracts
begin

text \<open>
  \<open>app/schema_enforcing_executor.py\<close> and \<open>app/performance_aware_executor.py\<close>: the two
  decorators every execution passes through, over any executor, and the executors of the program
  as instances. An executor takes a request and a state (the total of the fallback counter).
\<close>

type_synonym 's executor = "exec_request \<Rightarrow> 's \<Rightarrow> dict res \<times> 's"

definition succeeded :: "dict \<Rightarrow> bool" where
  "succeeded d \<longleftrightarrow> jget d ''execution_status'' = JStr ''success''"

section \<open>The schema-enforcing executor\<close>

definition schema_report :: "skill_detail \<Rightarrow> bool \<Rightarrow> json \<Rightarrow> string list \<Rightarrow> json" where
  "schema_report k input_valid output_valid errors = JObj
     [(''input_valid'', JBool input_valid), (''output_valid'', output_valid),
      (''errors'', JArr (map JStr errors)),
      (''input_schema_enforced'', JBool (sk_input_schema k \<noteq> [])),
      (''output_schema_enforced'', JBool (sk_output_schema k \<noteq> []))]"

definition schema_input_rejection :: "exec_request \<Rightarrow> skill_detail \<Rightarrow> string list \<Rightarrow> dict" where
  "schema_input_rejection q k errors =
     [(''skill_id'', JStr (rq_skill q)), (''execution_status'', JStr ''input_schema_rejected''),
      (''error'', JStr ''skill_input_schema_validation_failed''),
      (''schema_contract'', schema_report k False JNull errors), (''output'', JObj []),
      (''safety'', signal_safety)]"

definition check_output :: "skill_detail \<Rightarrow> dict \<Rightarrow> dict" where
  "check_output k d =
     (if \<not> succeeded d then dset ''schema_contract'' (schema_report k True JNull []) d
      else
       (let errors = validate_schema_contract (jget d ''output'') (JObj (sk_output_schema k)) ''$output'' in
        if errors \<noteq> [] then dmerge d
          [(''execution_status'', JStr ''output_schema_rejected''),
           (''error'', JStr ''skill_output_schema_validation_failed''), (''output'', JObj []),
           (''rejected_output'', jget d ''output''),
           (''schema_contract'', schema_report k True (JBool False) errors)]
        else dset ''schema_contract'' (schema_report k True (JBool True) []) d))"

definition schema_execute :: "registry \<Rightarrow> 's executor \<Rightarrow> 's executor" where
  "schema_execute rows exec q s =
     (case get rows (rq_skill q) of
        Inl e \<Rightarrow> (Inl e, s)
      | Inr k \<Rightarrow>
          (let errors = validate_schema_contract (JObj (rq_inputs q)) (JObj (sk_input_schema k)) ''$input''
           in if errors \<noteq> [] then (Inr (schema_input_rejection q k errors), s)
              else (case exec q s of (r, s') \<Rightarrow> (res_map (check_output k) r, s'))))"

section \<open>The performance-aware executor\<close>

text \<open>The default query of the ranking, with a limit of 100.\<close>

definition rank_all :: rank_query where
  "rank_all = \<lparr>rk_account = JInt 1, rk_symbol = None, rk_bucket = None, rk_regime = None,
     rk_limit = 100\<rparr>"

definition performance_report :: "json \<Rightarrow> dict \<Rightarrow> dict \<Rightarrow> dict \<Rightarrow> json" where
  "performance_report rank performance calibration decay = JObj
     [(''status'', JStr (if performance \<noteq> [] then ''applied'' else ''no_history'')),
      (''database_status'', (case rank of JObj r \<Rightarrow> jget r ''status'' | _ \<Rightarrow> JStr ''unknown'')),
      (''calibration'', JObj calibration),
      (''effective_confidence'', jget calibration ''calibrated_confidence''),
      (''confidence_applied_to_output'', JBool False), (''output_schema_preserved'', JBool True),
      (''decay_assessment'', JObj decay), (''advisory_only'', JBool True),
      (''auto_stage_transition'', JBool False)]"

definition not_applied :: json where
  "not_applied = JObj [(''status'', JStr ''not_applied''), (''reason'', JStr ''execution_not_successful'')]"

definition attach_performance :: "json \<Rightarrow> string \<Rightarrow> dict \<Rightarrow> dict res" where
  "attach_performance rank skill d =
     (if \<not> succeeded d then Inr (dset ''performance_intelligence'' not_applied d)
      else
       (let output = obj_or_empty (jget d ''output''); performance = extract_skill_performance rank skill
        in res_bind (calibrate_confidence (jget output ''confidence'') performance 30) (\<lambda>calibration.
           res_bind (assess_performance_decay performance 30) (\<lambda>decay.
             Inr (dset ''performance_intelligence''
                (performance_report rank performance calibration decay)
                (dset ''output'' (JObj output) d))))))"

definition performance_execute :: "database \<Rightarrow> network \<Rightarrow> 's executor \<Rightarrow> 's executor" where
  "performance_execute db send exec q s =
     (case exec q s of
        (Inl e, s') \<Rightarrow> (Inl e, s')
      | (Inr d, s') \<Rightarrow> (attach_performance (rank_skills db send rank_all) (rq_skill q) d, s'))"

section \<open>Contracts\<close>

text \<open>
  Three contracts, each given by the one before: an executor answers with dictionaries; an
  enforcing executor reports success only for a registered skill whose input and output conform
  to its schemas; an advised executor does so and attaches advice that cannot change the stage.
\<close>

locale raw_executor =
  fixes exec :: "'s executor"
  assumes wf_result: "exec q s = (Inr d, t) \<Longrightarrow> wf_dict d"

definition conforming :: "registry \<Rightarrow> exec_request \<Rightarrow> dict \<Rightarrow> bool" where
  "conforming rows q d \<longleftrightarrow> (\<exists>k. get rows (rq_skill q) = Inr k \<and>
     conforms (JObj (rq_inputs q)) (JObj (sk_input_schema k)) \<and>
     conforms (jget d ''output'') (JObj (sk_output_schema k)))"

locale enforcing_executor =
  fixes exec :: "'s executor" and rows :: registry
  assumes wf_enforced: "exec q s = (Inr d, t) \<Longrightarrow> wf_dict d"
    and success_conforms: "exec q s = (Inr d, t) \<Longrightarrow> succeeded d \<Longrightarrow> conforming rows q d"

definition advised :: "dict \<Rightarrow> bool" where
  "advised d \<longleftrightarrow> (\<exists>p. jget d ''performance_intelligence'' = JObj p \<and>
     jget p ''advisory_only'' = JBool True \<and> jget p ''auto_stage_transition'' = JBool False \<and>
     (jget p ''effective_confidence'' = JNull \<or>
       (\<exists>x. jget p ''effective_confidence'' = JFloat x \<and> f_unit x)))"

locale advised_executor =
  fixes exec :: "'s executor"
  assumes wf_advised: "exec q s = (Inr d, t) \<Longrightarrow> wf_dict d"
    and success_advised: "exec q s = (Inr d, t) \<Longrightarrow> succeeded d \<Longrightarrow>
      is_obj (jget d ''output'') \<and> advised d"

text \<open>The decorators on one result.\<close>

lemma check_output_wf: "wf_dict d \<Longrightarrow> wf_dict (check_output k d)"
  by (simp add: check_output_def Let_def)

lemma check_output_success:
  "succeeded (check_output k d) \<longleftrightarrow>
     succeeded d \<and> conforms (jget d ''output'') (JObj (sk_output_schema k))"
  by (simp add: check_output_def Let_def succeeded_def dict_simps flip: validate_Nil_iff [of _ _ "''$output''"])

lemma check_output_output:
  "succeeded (check_output k d) \<Longrightarrow> jget (check_output k d) ''output'' = jget d ''output''"
  unfolding check_output_success
  by (simp add: check_output_def Let_def flip: validate_Nil_iff [of _ _ "''$output''"])

lemma schema_execute_Inr:
  assumes "schema_execute rows exec q s = (Inr d, t)" "succeeded d"
  obtains k e where "get rows (rq_skill q) = Inr k"
    "conforms (JObj (rq_inputs q)) (JObj (sk_input_schema k))" "exec q s = (Inr e, t)"
    "succeeded e" "d = check_output k e"
proof -
  obtain k where k: "get rows (rq_skill q) = Inr k"
    using assms(1) by (cases "get rows (rq_skill q)") (auto simp: schema_execute_def)
  have no: "\<not> succeeded (schema_input_rejection q k errors)" for errors
    by (simp add: schema_input_rejection_def succeeded_def dict_simps)
  have v: "validate_schema_contract (JObj (rq_inputs q)) (JObj (sk_input_schema k)) ''$input'' = []"
    using assms no by (auto simp: schema_execute_def k Let_def split: if_splits)
  with assms k obtain e where e: "exec q s = (Inr e, t)" "d = check_output k e"
    by (auto simp: schema_execute_def res_map_eq_Inr split: prod.splits)
  with assms(2) have "succeeded e" by (simp add: check_output_success)
  with k v e that show thesis by (simp add: validate_Nil_iff)
qed

lemma attach_performance_success:
  assumes "attach_performance rank skill e = Inr d"
  shows "succeeded d \<longleftrightarrow> succeeded e"
    and "succeeded d \<Longrightarrow> advised d \<and> jget d ''output'' = JObj (obj_or_empty (jget e ''output''))"
    and "wf_dict e \<Longrightarrow> wf_dict d"
proof -
  show "succeeded d \<longleftrightarrow> succeeded e"
    using assms by (auto simp: attach_performance_def Let_def succeeded_def split: if_splits)
  show "wf_dict e \<Longrightarrow> wf_dict d"
    using assms by (auto simp: attach_performance_def Let_def split: if_splits)
  show "succeeded d \<Longrightarrow> advised d \<and> jget d ''output'' = JObj (obj_or_empty (jget e ''output''))"
  proof -
    assume "succeeded d"
    with \<open>succeeded d \<longleftrightarrow> succeeded e\<close> assms obtain c a where
      c: "calibrate_confidence (jget (obj_or_empty (jget e ''output'')) ''confidence'')
        (extract_skill_performance rank skill) 30 = Inr c" and
      d: "d = dset ''performance_intelligence''
        (performance_report rank (extract_skill_performance rank skill) c a)
        (dset ''output'' (JObj (obj_or_empty (jget e ''output''))) e)"
      by (auto simp: attach_performance_def Let_def)
    have "jget c ''calibrated_confidence'' = JNull \<or>
        (\<exists>x. jget c ''calibrated_confidence'' = JFloat x \<and> f_unit x)"
      using calibrated_unit [OF c] by blast
    then show ?thesis by (simp add: d advised_def performance_report_def dict_simps)
  qed
qed

context raw_executor
begin

lemma schema_enforces: "enforcing_executor (schema_execute rows exec) rows"
proof
  fix q s d t
  assume r: "schema_execute rows exec q s = (Inr d, t)"
  show "wf_dict d"
  proof (cases "get rows (rq_skill q)")
    case (Inr k)
    have rej: "wf_dict (schema_input_rejection q k errors)" for errors
      by (simp add: schema_input_rejection_def wf_dict_def)
    from r Inr show ?thesis
      by (auto simp: schema_execute_def Let_def rej res_map_eq_Inr wf_result check_output_wf
          split: if_splits prod.splits)
  qed (use r in \<open>simp add: schema_execute_def\<close>)
  assume "succeeded d"
  from r this show "conforming rows q d"
    by (rule schema_execute_Inr) (use \<open>succeeded d\<close> in
      \<open>auto simp: conforming_def check_output_output check_output_success\<close>)
qed

end

sublocale raw_executor \<subseteq> schema: enforcing_executor "schema_execute rows exec" rows for rows
  by (rule schema_enforces)

context enforcing_executor
begin

lemma performance_advises: "advised_executor (performance_execute db send exec)"
proof
  fix q s d t
  assume r: "performance_execute db send exec q s = (Inr d, t)"
  then obtain e where e: "exec q s = (Inr e, t)"
    "attach_performance (rank_skills db send rank_all) (rq_skill q) e = Inr d"
    by (auto simp: performance_execute_def split: prod.splits sum.splits)
  show "wf_dict d" using attach_performance_success(3) [OF e(2)] wf_enforced [OF e(1)] by blast
  assume "succeeded d"
  with attach_performance_success(2) [OF e(2)] show "is_obj (jget d ''output'') \<and> advised d" by simp
qed

text \<open>The advice leaves a conforming object output as it is.\<close>

lemma performance_conforms:
  assumes "performance_execute db send exec q s = (Inr d, t)" "succeeded d"
  shows "\<exists>e. exec q s = (Inr e, t) \<and> conforming rows q e \<and>
    jget d ''output'' = JObj (obj_or_empty (jget e ''output''))"
proof -
  obtain e where e: "exec q s = (Inr e, t)"
    "attach_performance (rank_skills db send rank_all) (rq_skill q) e = Inr d"
    using assms(1) by (auto simp: performance_execute_def split: prod.splits sum.splits)
  then show ?thesis
    using attach_performance_success(1,2) [OF e(2)] assms(2) success_conforms [OF e(1)] by blast
qed

end

sublocale enforcing_executor \<subseteq> advice: advised_executor "performance_execute db send exec" for db send
  by (rule performance_advises)

section \<open>The executors of the program\<close>

definition process_exec :: "parser \<Rightarrow> skill_world \<Rightarrow> nat executor" where
  "process_exec parse w q n = (Inr (process_execute parse w q), n)"

definition local_exec :: "optional_config \<Rightarrow> host \<Rightarrow> container \<Rightarrow> parser \<Rightarrow> skill_world \<Rightarrow> nat executor" where
  "local_exec cfg h c parse w q n =
     optional_execute cfg (container_execute h c) (\<lambda>q. Inr (process_execute parse w q)) q n"

definition remote_exec :: "remote \<Rightarrow> net \<Rightarrow> nat executor" where
  "remote_exec rm w q n = (remote_execute rm w q, n)"

interpretation proc: raw_executor "process_exec parse w" for parse w
  by unfold_locales (auto simp: process_exec_def process_execute_wf)

interpretation local: raw_executor "local_exec cfg h c parse w" for cfg h c parse w
proof
  fix q s d t
  assume "local_exec cfg h c parse w q s = (Inr d, t)"
  then show "wf_dict d"
    unfolding local_exec_def
    by (rule optional_wf [rotated 2]) (auto simp: container_execute_wf process_execute_wf)
qed

interpretation remote: raw_executor "remote_exec rm w" for rm w
  by unfold_locales (auto simp: remote_exec_def intro: remote_execute_wf)

end
