(* ===== verification/Shadow_Ensemble.thy ===== *)
theory Shadow_Ensemble
  imports Skill_Executors Registry_Spec "HOL-Library.Product_Lexorder" "HOL-Library.Multiset"
begin

text \<open>
  \<open>app/shadow_ensemble.py\<close>: the choice of a diverse set of approved skills, their execution and
  the weighted vote, in binary64 arithmetic.
\<close>

section \<open>Selection\<close>

record ensemble_request =
  en_inputs :: dict
  en_families :: "string list"
  en_skills :: "string list"
  en_max :: nat
  en_function :: "string option"
  en_timeout :: pyfloat
  en_agreement :: pyfloat

definition ensemble_request_ok :: "ensemble_request \<Rightarrow> bool" where
  "ensemble_request_ok q \<longleftrightarrow>
     length (en_families q) \<le> 20 \<and> length (en_skills q) \<le> 20 \<and> 1 \<le> en_max q \<and> en_max q \<le> 20 \<and>
     opt_len_in 0 120 (en_function q) \<and>
     \<not> f_lt (en_timeout q) (to_b64 (1 / 10)) \<and> \<not> f_lt (Fin 5) (en_timeout q) \<and>
     \<not> f_lt (en_agreement q) (Fin 0) \<and> \<not> f_lt (Fin 1) (en_agreement q)"

definition eligible_stages :: "stage list" where
  "eligible_stages = [Champion, Challenger, Shadow]"

definition diversity_group :: "dict \<Rightarrow> string \<Rightarrow> string" where
  "diversity_group context family =
     (case List.find (\<lambda>k. truthy (jget context k))
         [''correlation_group'', ''feature_family'', ''strategy_family''] of
        Some k \<Rightarrow> py_str (jget context k)
      | None \<Rightarrow> family)"

definition group_of :: "skill_record \<Rightarrow> string" where
  "group_of k = diversity_group (sk_context k) (sk_family k)"

fun stage_order :: "stage \<Rightarrow> nat" where
  "stage_order Champion = 0"
| "stage_order Challenger = 1"
| "stage_order Shadow = 2"
| "stage_order _ = 9"

definition ensemble_key :: "skill_record \<Rightarrow> nat \<times> string \<times> string \<times> string" where
  "ensemble_key k = (stage_order (sk_stage k), sk_family k, sk_version k, sk_id k)"

definition ensemble_candidates :: "registry \<Rightarrow> ensemble_request \<Rightarrow> skill_record list" where
  "ensemble_candidates rows q =
     sort_key ensemble_key
       (filter (\<lambda>k. en_skills q = [] \<or> sk_id k \<in> set (en_skills q))
         (filter (\<lambda>k. en_families q = [] \<or> sk_family k \<in> set (en_families q))
           (filter (\<lambda>k. sk_stage k \<in> set eligible_stages)
             (list_skills (any_query\<lparr>lq_validation := Some ''validated'',
                lq_approval := Some ''approved''\<rparr>) rows))))"

text \<open>
  The two loops of \<open>_select_skills\<close>: the first takes one skill per group and returns when it has
  enough; the second fills up with the skills it deferred.
\<close>

fun fill_up :: "nat \<Rightarrow> skill_record list \<Rightarrow> skill_record list \<Rightarrow> skill_record list" where
  "fill_up m [] sel = sel"
| "fill_up m (k # ks) sel =
     (let sel' = sel @ [k] in if m \<le> length sel' then sel' else fill_up m ks sel')"

fun pick :: "nat \<Rightarrow> skill_record list \<Rightarrow> skill_record list \<Rightarrow> string list \<Rightarrow> skill_record list
    \<Rightarrow> skill_record list" where
  "pick m [] sel seen deferred = fill_up m deferred sel"
| "pick m (k # ks) sel seen deferred =
     (if group_of k \<in> set seen then pick m ks sel seen (deferred @ [k])
      else (let sel' = sel @ [k] in
        if m \<le> length sel' then sel' else pick m ks sel' (group_of k # seen) deferred))"

definition select_skills :: "registry \<Rightarrow> ensemble_request \<Rightarrow> skill_record list" where
  "select_skills rows q = pick (en_max q) (ensemble_candidates rows q) [] [] []"

section \<open>The vote\<close>

definition valid_signals :: "string list" where
  "valid_signals = [''buy'', ''hold'', ''sell'']"

definition stage_weight :: "string \<Rightarrow> pyfloat" where
  "stage_weight g = (if g = ''champion'' then Fin 1 else if g = ''challenger'' then to_b64 (8 / 10)
     else if g = ''shadow'' then to_b64 (6 / 10) else Fin (1 / 2))"

definition vote_signal :: "dict \<Rightarrow> string" where
  "vote_signal item = lower (py_str (jget_or (obj_or_empty (jget item ''output'')) ''signal'' (JStr [])))"

definition casts_vote :: "dict \<Rightarrow> bool" where
  "casts_vote item \<longleftrightarrow> succeeded item \<and> vote_signal item \<in> set valid_signals"

definition vote_confidence :: "dict \<Rightarrow> pyfloat res" where
  "vote_confidence item =
     (let output = obj_or_empty (jget item ''output'');
          c = jget_or output ''calibrated_confidence'' (jget_or output ''confidence'' (JFloat (Fin (1 / 2))))
      in case to_float c of
           Inr x \<Rightarrow> Inr (py_max (Fin 0) (py_min (Fin 1) x))
         | Inl e \<Rightarrow> if is_type_or_value_error e then Inr (Fin (1 / 2)) else Inl e)"

definition vote_weight :: "dict \<Rightarrow> pyfloat res" where
  "vote_weight item =
     res_map (f_mul (stage_weight (py_str (jget item ''deployment_stage'')))) (vote_confidence item)"

record tally =
  ta_votes :: "(string, pyfloat) pydict"
  ta_total :: pyfloat
  ta_count :: nat

definition add_vote :: "string \<Rightarrow> pyfloat \<Rightarrow> tally \<Rightarrow> tally" where
  "add_vote signal w t =
     \<lparr>ta_votes = dset signal (f_add (case dget (ta_votes t) signal of Some v \<Rightarrow> v | None \<Rightarrow> Fin 0) w)
        (ta_votes t),
      ta_total = f_add (ta_total t) w, ta_count = ta_count t + 1\<rparr>"

fun count_votes :: "dict list \<Rightarrow> tally \<Rightarrow> tally res" where
  "count_votes [] t = Inr t"
| "count_votes (i # items) t =
     (if \<not> casts_vote i then count_votes items t
      else res_bind (vote_weight i) (\<lambda>w. count_votes items (add_vote (vote_signal i) w t)))"

definition no_votes :: tally where
  "no_votes = \<lparr>ta_votes = [], ta_total = Fin 0, ta_count = 0\<rparr>"

text \<open>\<open>max(votes.items(), key=lambda item: (item[1], item[0]))\<close>: the first of the largest.\<close>

definition beats :: "string \<times> pyfloat \<Rightarrow> string \<times> pyfloat \<Rightarrow> bool" where
  "beats a b \<longleftrightarrow> (if f_eq (snd a) (snd b) then fst b < fst a else f_lt (snd b) (snd a))"

fun best_vote :: "string \<times> pyfloat \<Rightarrow> (string, pyfloat) pydict \<Rightarrow> string \<times> pyfloat" where
  "best_vote b [] = b"
| "best_vote b (v # vs) = best_vote (if beats v b then v else b) vs"

record consensus =
  co_signal :: string
  co_leading :: "string option"
  co_agreement :: pyfloat
  co_state :: string
  co_votes :: "(string, pyfloat) pydict"
  co_count :: nat

text \<open>\<open>_consensus\<close>; without a valid vote there is no leading signal.\<close>

definition decide_votes :: "tally \<Rightarrow> pyfloat \<Rightarrow> consensus res" where
  "decide_votes t minimum =
     (case ta_votes t of
        [] \<Rightarrow> Inr \<lparr>co_signal = ''hold'', co_leading = None, co_agreement = Fin 0,
          co_state = ''no_valid_votes'', co_votes = [], co_count = ta_count t\<rparr>
      | v # vs \<Rightarrow>
          if f_le (ta_total t) (Fin 0) then
            Inr \<lparr>co_signal = ''hold'', co_leading = None, co_agreement = Fin 0,
              co_state = ''no_valid_votes'', co_votes = v # vs, co_count = ta_count t\<rparr>
          else
            (let (signal, weight) = best_vote v vs in
             res_map (\<lambda>agreement.
               (let accepted = f_le minimum agreement in
                \<lparr>co_signal = (if accepted then signal else ''hold''), co_leading = Some signal,
                 co_agreement = f_round 6 agreement,
                 co_state = (if accepted then ''consensus'' else ''insufficient_agreement''),
                 co_votes = sort_key fst (map (\<lambda>(k, x). (k, f_round 6 x)) (v # vs)),
                 co_count = ta_count t\<rparr>)) (f_div weight (ta_total t))))"

definition decide :: "dict list \<Rightarrow> pyfloat \<Rightarrow> consensus res" where
  "decide executions minimum =
     res_bind (count_votes executions no_votes) (\<lambda>t. decide_votes t minimum)"

section \<open>The endpoint\<close>

definition ensemble_exec_request :: "ensemble_request \<Rightarrow> skill_detail \<Rightarrow> exec_request" where
  "ensemble_exec_request q k = \<lparr>rq_skill = sk_id k, rq_code = sk_code k, rq_inputs = en_inputs q,
     rq_function = en_function q, rq_timeout = en_timeout q\<rparr>"

definition execution_entry :: "skill_detail \<Rightarrow> dict \<Rightarrow> dict" where
  "execution_entry k d = dmerge
     [(''skill_id'', JStr (sk_id k)), (''skill_family_id'', JStr (sk_family k)),
      (''version'', JStr (sk_version k)), (''deployment_stage'', JStr (stage_text (sk_stage k))),
      (''diversity_group'', JStr (diversity_group (sk_context k) (sk_family k)))] d"

fun run_skills :: "registry \<Rightarrow> 's executor \<Rightarrow> ensemble_request \<Rightarrow> skill_record list \<Rightarrow> 's
    \<Rightarrow> dict list res \<times> 's" where
  "run_skills rows exec q [] s = (Inr [], s)"
| "run_skills rows exec q (r # rs) s =
     (case get rows (sk_id r) of
        Inl e \<Rightarrow> (Inl e, s)
      | Inr k \<Rightarrow> (case exec (ensemble_exec_request q k) s of
          (Inl e, s') \<Rightarrow> (Inl e, s')
        | (Inr d, s') \<Rightarrow> (case run_skills rows exec q rs s' of
            (x, s'') \<Rightarrow> (res_map (Cons (execution_entry k d)) x, s''))))"

record ensemble_result =
  er_selected :: nat
  er_groups :: nat
  er_diversity :: pyfloat
  er_consensus :: consensus
  er_executions :: "dict list"

definition diversity_score :: "nat \<Rightarrow> nat \<Rightarrow> pyfloat" where
  "diversity_score groups n = f_round 6 (f_div_fin (Fin (of_nat groups)) (of_nat n))"

definition execute_shadow_ensemble :: "registry \<Rightarrow> 's executor \<Rightarrow> ensemble_request \<Rightarrow> 's
    \<Rightarrow> ensemble_result res \<times> 's" where
  "execute_shadow_ensemble rows exec q s =
     (let skills = select_skills rows q; groups = card (set (map group_of skills)) in
      if skills = [] then (Inl (HTTPException 404 ''no_eligible_shadow_ensemble_skills''), s)
      else (case run_skills rows exec q skills s of
          (Inl e, s') \<Rightarrow> (Inl e, s')
        | (Inr xs, s') \<Rightarrow>
            (res_map (\<lambda>c. \<lparr>er_selected = length skills, er_groups = groups,
               er_diversity = diversity_score groups (length skills), er_consensus = c,
               er_executions = xs\<rparr>) (decide xs (en_agreement q)), s')))"

section \<open>What the selection guarantees\<close>

text \<open>
  The reference definition: the first candidate of every group, then the others, up to the limit.
\<close>

fun firsts :: "string list \<Rightarrow> skill_record list \<Rightarrow> skill_record list" where
  "firsts seen [] = []"
| "firsts seen (k # ks) =
     (if group_of k \<in> set seen then firsts seen ks else k # firsts (group_of k # seen) ks)"

fun repeats :: "string list \<Rightarrow> skill_record list \<Rightarrow> skill_record list" where
  "repeats seen [] = []"
| "repeats seen (k # ks) =
     (if group_of k \<in> set seen then k # repeats seen ks else repeats (group_of k # seen) ks)"

lemma take_snoc: "m \<le> length (sel @ [k]) \<Longrightarrow> length sel < m \<Longrightarrow> take m (sel @ k # ks) = sel @ [k]"
proof -
  assume "m \<le> length (sel @ [k])" "length sel < m"
  then have "m = Suc (length sel)" by simp
  then show ?thesis by simp
qed

lemma fill_up_take: "length sel < m \<Longrightarrow> fill_up m ks sel = take m (sel @ ks)"
proof (induction m ks sel rule: fill_up.induct)
  case (2 m k ks sel)
  then show ?case
    by (cases "m \<le> length (sel @ [k])") (simp_all add: take_snoc Let_def del: take_append)
qed simp

lemma pick_take:
  "length sel < m \<Longrightarrow>
     pick m ks sel seen deferred = take m (sel @ firsts seen ks @ deferred @ repeats seen ks)"
proof (induction m ks sel seen deferred rule: pick.induct)
  case (1 m sel seen deferred)
  then show ?case by (simp add: fill_up_take)
next
  case (2 m k ks sel seen deferred)
  show ?case
  proof (cases "group_of k \<in> set seen")
    case True
    with 2 show ?thesis by (simp del: take_append)
  next
    case False
    with 2 show ?thesis
      by (cases "m \<le> length (sel @ [k])") (simp_all add: take_snoc Let_def del: take_append)
  qed
qed

lemma firsts_subset: "set (firsts seen ks) \<subseteq> set ks" "set (repeats seen ks) \<subseteq> set ks"
  by (induction ks arbitrary: seen) auto

lemma firsts_groups: "group_of ` set ks \<subseteq> set seen \<union> group_of ` set (firsts seen ks)"
proof (induction ks arbitrary: seen)
  case (Cons k ks)
  show ?case
  proof (cases "group_of k \<in> set seen")
    case True
    with Cons [of seen] show ?thesis by auto
  next
    case False
    with Cons [of "group_of k # seen"] show ?thesis by auto
  qed
qed simp

lemma firsts_distinct:
  "distinct (map group_of (firsts seen ks)) \<and> group_of ` set (firsts seen ks) \<inter> set seen = {}"
proof (induction ks arbitrary: seen)
  case (Cons k ks)
  show ?case
  proof (cases "group_of k \<in> set seen")
    case False
    with Cons [of "group_of k # seen"] show ?thesis by auto
  qed (use Cons [of seen] in simp)
qed simp

lemma length_firsts_repeats: "length (firsts seen ks) + length (repeats seen ks) = length ks"
  by (induction ks arbitrary: seen) auto

lemma mset_firsts_repeats: "mset (firsts seen ks @ repeats seen ks) = mset ks"
  by (induction ks arbitrary: seen) auto

lemma distinct_firsts_repeats:
  "distinct (map f (firsts seen ks @ repeats seen ks)) \<longleftrightarrow> distinct (map f ks)"
  by (metis mset_firsts_repeats mset_map mset_eq_imp_distinct_iff)

lemma select_skills_take:
  "1 \<le> en_max q \<Longrightarrow> select_skills rows q =
     take (en_max q) (firsts [] (ensemble_candidates rows q) @ repeats [] (ensemble_candidates rows q))"
  by (simp add: select_skills_def pick_take)

text \<open>Two skills of one group are chosen only when every group has been chosen.\<close>

lemma select_diverse:
  assumes "1 \<le> en_max q" "\<not> distinct (map group_of (select_skills rows q))"
  shows "group_of ` set (select_skills rows q) = group_of ` set (ensemble_candidates rows q)"
proof -
  let ?ks = "ensemble_candidates rows q"
  let ?m = "en_max q"
  have sel: "select_skills rows q = take ?m (firsts [] ?ks @ repeats [] ?ks)"
    by (rule select_skills_take [OF assms(1)])
  have "length (firsts [] ?ks) \<le> ?m"
  proof (rule ccontr)
    assume "\<not> length (firsts [] ?ks) \<le> ?m"
    then have "select_skills rows q = take ?m (firsts [] ?ks)" by (simp add: sel)
    then have "distinct (map group_of (select_skills rows q))"
      using firsts_distinct [of "[]" ?ks] by (metis distinct_take take_map)
    with assms(2) show False ..
  qed
  then have "set (firsts [] ?ks) \<subseteq> set (select_skills rows q)" by (auto simp: sel)
  moreover have "set (select_skills rows q) \<subseteq> set ?ks"
    using firsts_subset [of "[]" ?ks] by (auto simp: sel dest: in_set_takeD)
  moreover have "group_of ` set ?ks \<subseteq> group_of ` set (firsts [] ?ks)"
    using firsts_groups [of ?ks "[]"] by simp
  ultimately show ?thesis by (meson image_mono order_antisym order_trans)
qed

section \<open>What the vote guarantees\<close>

lemma to_b64_nat:
  assumes "n \<le> 2 ^ 53"
  shows "to_b64 (of_nat n) = Fin (of_nat n)"
proof (cases "n = 0")
  case False
  have "b64_rep (of_nat n)"
    unfolding b64_rep_def
  proof (intro exI conjI)
    show "(of_nat n :: rat) = of_int (int n) * 2 powi 0" by simp
    show "\<bar>int n\<bar> \<le> 2 ^ 53" using assms by (metis abs_of_nat of_nat_le_iff of_nat_numeral of_nat_power)
  qed simp
  then have "rnd_pos (of_nat n) = of_nat n" using False by (intro rnd_pos_rep) simp_all
  moreover have "(of_nat n :: rat) < b64_max_exp"
  proof -
    have "(of_nat n :: rat) \<le> of_nat (2 ^ 53)" using assms by (simp only: of_nat_le_iff)
    also have "\<dots> < b64_max_exp" by (simp add: b64_max_exp_def)
    finally show ?thesis .
  qed
  ultimately show ?thesis using False by (simp add: to_b64_def)
qed (simp add: to_b64_def)

definition vote_le :: "pyfloat \<Rightarrow> pyfloat \<Rightarrow> bool" where
  "vote_le v t \<longleftrightarrow> (\<exists>a b. v = Fin a \<and> t = Fin b \<and> 0 \<le> a \<and> a \<le> b \<and> to_b64 a = Fin a)"

definition tally_ok :: "tally \<Rightarrow> bool" where
  "tally_ok t \<longleftrightarrow> wf_dict (ta_votes t) \<and>
     (\<forall>(k, v) \<in> set (ta_votes t). k \<in> set valid_signals \<and> vote_le v (ta_total t)) \<and>
     vote_le (ta_total t) (Fin (of_nat (ta_count t)))"

lemma vote_le_add:
  assumes "vote_le v t" "vote_le t (Fin (of_nat n))" "f_unit w" "Suc n \<le> 2 ^ 53"
  shows "vote_le (f_add v w) (f_add t w)" "vote_le v (f_add t w)"
    "vote_le (f_add t w) (Fin (of_nat (Suc n)))"
proof -
  obtain a b x where a: "v = Fin a" "t = Fin b" "0 \<le> a" "a \<le> b" "to_b64 a = Fin a"
    and b: "b \<le> of_nat n" "to_b64 b = Fin b" and x: "w = Fin x" "0 \<le> x" "x \<le> 1"
    using assms(1,2,3) by (auto simp: vote_le_def elim!: f_unitE)
  have fin: "\<exists>y. to_b64 (c + x) = Fin y \<and> c \<le> y \<and> y \<le> of_nat (Suc n) \<and> to_b64 y = Fin y"
    if c: "0 \<le> c" "c \<le> b" "to_b64 c = Fin c" for c
  proof -
    have "f_le (to_b64 (c + x)) (to_b64 (of_nat (Suc n)))"
      using c b x by (intro to_b64_mono) simp
    moreover have "f_le (Fin c) (to_b64 (c + x))" using c x by (intro b64.add_grows) simp_all
    ultimately obtain y where "to_b64 (c + x) = Fin y" "c \<le> y" "y \<le> of_nat (Suc n)"
      unfolding to_b64_nat [OF assms(4)] by (cases "to_b64 (c + x)") (auto simp: f_le_def)
    then show ?thesis using to_b64_idem by blast
  qed
  obtain y where y: "to_b64 (a + x) = Fin y" "a \<le> y" "to_b64 y = Fin y" using fin [of a] a by auto
  obtain z where z: "to_b64 (b + x) = Fin z" "b \<le> z" "z \<le> of_nat (Suc n)" "to_b64 z = Fin z"
    using fin [of b] a b by auto
  have "y \<le> z" using b64.fin_mono [of "a + x" "b + x"] y(1) z(1) a(4) by simp
  then show "vote_le (f_add v w) (f_add t w)" "vote_le v (f_add t w)"
    "vote_le (f_add t w) (Fin (of_nat (Suc n)))"
    using a x y z by (auto simp: vote_le_def)
qed

lemma vote_le_zero: "vote_le t (Fin b) \<Longrightarrow> vote_le (Fin 0) t"
  using b64.rnd_0 by (auto simp: vote_le_def)

lemma in_dset: "(k', v') \<in> set (dset k v d) \<Longrightarrow> k' = k \<and> v' = v \<or> (k', v') \<in> set d"
  by (induction d) (auto simp: dict_simps split: if_splits)

lemma tally_ok_add:
  assumes t: "tally_ok t" and w: "f_unit w" and s: "signal \<in> set valid_signals"
    and n: "Suc (ta_count t) \<le> 2 ^ 53"
  shows "tally_ok (add_vote signal w t)"
proof -
  let ?old = "case dget (ta_votes t) signal of Some v \<Rightarrow> v | None \<Rightarrow> Fin 0"
  have tot: "vote_le (ta_total t) (Fin (of_nat (ta_count t)))" using t by (simp add: tally_ok_def)
  have votes: "k \<in> set valid_signals \<and> vote_le v (ta_total t)" if "(k, v) \<in> set (ta_votes t)" for k v
    using t that by (auto simp: tally_ok_def)
  have old: "vote_le ?old (ta_total t)"
    using votes vote_le_zero [OF tot] by (auto simp: dget_def dest: map_of_SomeD split: option.split)
  have "k \<in> set valid_signals \<and> vote_le v (f_add (ta_total t) w)"
    if "(k, v) \<in> set (dset signal (f_add ?old w) (ta_votes t))" for k v
    using in_dset [OF that] vote_le_add(1) [OF old tot w n] vote_le_add(2) [OF _ tot w n] votes s
    by blast
  moreover have "vote_le (f_add (ta_total t) w) (Fin (of_nat (Suc (ta_count t))))"
    by (rule vote_le_add(3) [OF old tot w n])
  ultimately show ?thesis using t by (auto simp: tally_ok_def add_vote_def)
qed

lemma stage_weight_unit: "f_unit (stage_weight g)"
  by (auto simp: stage_weight_def intro!: to_b64_unit)

lemma vote_weight_unit: "vote_weight i = Inr w \<Longrightarrow> f_unit w"
  by (auto simp: vote_weight_def vote_confidence_def Let_def res_map_eq_Inr clamp_unit stage_weight_unit
      intro!: f_mul_unit split: sum.splits if_splits)

lemma count_votes_ok:
  "count_votes items t = Inr t' \<Longrightarrow> tally_ok t \<Longrightarrow> ta_count t + length items \<le> 2 ^ 53 \<Longrightarrow> tally_ok t'"
proof (induction items arbitrary: t)
  case (Cons i items)
  show ?case
  proof (cases "casts_vote i")
    case True
    then obtain w where w: "vote_weight i = Inr w" "count_votes items (add_vote (vote_signal i) w t) = Inr t'"
      using Cons.prems(1) by auto
    have "tally_ok (add_vote (vote_signal i) w t)"
      using True Cons.prems vote_weight_unit [OF w(1)] by (intro tally_ok_add) (auto simp: casts_vote_def)
    moreover have "ta_count (add_vote (vote_signal i) w t) + length items \<le> 2 ^ 53"
      using Cons.prems(3) by (simp add: add_vote_def)
    ultimately show ?thesis using Cons.IH w(2) by blast
  qed (use Cons in simp)
qed simp

lemma no_votes_ok: "tally_ok no_votes"
  using b64.rnd_0 by (simp add: no_votes_def tally_ok_def vote_le_def)

lemma best_vote_in: "best_vote b vs \<in> set (b # vs)"
proof (induction vs arbitrary: b)
  case (Cons v vs)
  have "best_vote (if beats v b then v else b) vs \<in> set ((if beats v b then v else b) # vs)"
    by (rule Cons)
  then show ?case by (cases "beats v b") auto
qed simp

lemma fin_le_trans: "f_le (Fin a) y \<Longrightarrow> f_le y (Fin c) \<Longrightarrow> \<exists>b. y = Fin b \<and> a \<le> b \<and> b \<le> c"
  by (cases y) (auto simp: f_le_def)

lemma best_vote_max:
  assumes "\<forall>v \<in> set (b # vs). \<exists>r. snd v = Fin r"
  shows "\<forall>v \<in> set (b # vs). f_le (snd v) (snd (best_vote b vs))"
  using assms
proof (induction vs arbitrary: b)
  case Nil
  then show ?case by (auto simp: f_le_def)
next
  case (Cons v vs)
  let ?b = "if beats v b then v else b"
  have fin: "\<forall>u \<in> set (?b # vs). \<exists>r. snd u = Fin r" using Cons.prems by simp
  note IH = Cons.IH [OF fin]
  obtain x y z where x: "snd b = Fin x" and y: "snd v = Fin y" and z: "snd (best_vote ?b vs) = Fin z"
    using Cons.prems fin best_vote_in [of ?b vs] by (metis list.set_intros(1,2))
  have "f_le (snd ?b) (snd (best_vote ?b vs))" using IH by simp
  then have "x \<le> z \<and> y \<le> z" using x y z by (auto simp: beats_def f_le_def split: if_splits)
  then have "f_le (snd b) (snd (best_vote ?b vs))" "f_le (snd v) (snd (best_vote ?b vs))"
    using x y z by (auto simp: f_le_def)
  moreover have "\<forall>u \<in> set vs. f_le (snd u) (snd (best_vote ?b vs))" using IH by simp
  ultimately show ?case by (simp del: if_split)
qed

lemma count_votes_count:
  "count_votes xs t = Inr t' \<Longrightarrow> ta_count t' = ta_count t + length (filter casts_vote xs)"
  by (induction xs arbitrary: t) (auto simp: add_vote_def res_bind_def split: if_splits sum.splits)

lemma count_votes_signals:
  "count_votes xs t = Inr t' \<Longrightarrow> (s, w) \<in> set (ta_votes t') \<Longrightarrow>
     (\<exists>w. (s, w) \<in> set (ta_votes t)) \<or> (\<exists>x \<in> set xs. casts_vote x \<and> vote_signal x = s)"
proof (induction xs arbitrary: t)
  case (Cons x xs)
  show ?case
  proof (cases "casts_vote x")
    case True
    then obtain v where "count_votes xs (add_vote (vote_signal x) v t) = Inr t'"
      using Cons.prems(1) by (auto simp: res_bind_def split: sum.splits)
    from Cons.IH [OF this Cons.prems(2)] True show ?thesis
      by (auto simp: add_vote_def dest!: in_dset)
  qed (use Cons in auto)
qed auto

lemma fill_up_subset: "set (fill_up m ks sel) \<subseteq> set sel \<union> set ks"
  by (induction m ks sel rule: fill_up.induct) (auto simp: Let_def)

lemma pick_subset: "set (pick m ks sel seen deferred) \<subseteq> set sel \<union> set deferred \<union> set ks"
proof (induction m ks sel seen deferred rule: pick.induct)
  case (1 m sel seen deferred)
  then show ?case using fill_up_subset [of m deferred sel] by auto
qed (auto simp: Let_def split: if_splits)

lemma select_skills_approved:
  "k \<in> set (select_skills rows q) \<Longrightarrow> \<exists>r \<in> set rows. k = to_record r \<and> row_validation r = Validated \<and>
     row_approval r = Approved \<and> row_stage r \<in> {Champion, Challenger, Shadow}"
  using pick_subset [of "en_max q" "ensemble_candidates rows q" "[]" "[]" "[]"]
  by (fastforce simp: select_skills_def ensemble_candidates_def listed_approved eligible_stages_def)

section \<open>Properties\<close>

text \<open>C35. Which skills an ensemble runs: candidates are the approved, validated skills at a stage above
  candidate that the request admits; one skill of every diversity group comes first, then the others,
  up to the limit; so two skills of one group are chosen only if every group is represented.\<close>

theorem selection_diverse:
  assumes "1 \<le> en_max q"
  shows "select_skills rows q =
      take (en_max q) (firsts [] (ensemble_candidates rows q) @ repeats [] (ensemble_candidates rows q)) \<and>
    length (select_skills rows q) = min (en_max q) (length (ensemble_candidates rows q)) \<and>
    (distinct (map group_of (select_skills rows q)) \<or>
       group_of ` set (select_skills rows q) = group_of ` set (ensemble_candidates rows q)) \<and>
    (\<forall>k \<in> set (select_skills rows q). \<exists>r \<in> set rows. k = to_record r \<and> row_validation r = Validated \<and>
       row_approval r = Approved \<and> row_stage r \<in> {Champion, Challenger, Shadow})"
proof (intro conjI ballI)
  let ?c = "ensemble_candidates rows q"
  show sel: "select_skills rows q = take (en_max q) (firsts [] ?c @ repeats [] ?c)"
    by (rule select_skills_take [OF assms])
  show "length (select_skills rows q) = min (en_max q) (length ?c)"
    unfolding sel using length_firsts_repeats [of "[]" ?c] by simp
  show "distinct (map group_of (select_skills rows q)) \<or>
      group_of ` set (select_skills rows q) = group_of ` set ?c"
    using select_diverse [OF assms] by blast
qed (rule select_skills_approved)

definition demo_ensemble :: ensemble_request where
  "demo_ensemble = \<lparr>en_inputs = [], en_families = [], en_skills = [], en_max = 3, en_function = None,
     en_timeout = Fin 1, en_agreement = Fin (1 / 2)\<rparr>"

theorem selection_diverse_witness:
  "length (select_skills demo_promoted demo_ensemble) =
     min 3 (length (ensemble_candidates demo_promoted demo_ensemble)) \<and>
   ensemble_candidates demo_promoted demo_ensemble \<noteq> []"
proof -
  have "ensemble_candidates demo_promoted demo_ensemble \<noteq> []" by code_simp
  moreover have "1 \<le> en_max demo_ensemble" "en_max demo_ensemble = 3" by (simp_all add: demo_ensemble_def)
  ultimately show ?thesis using selection_diverse [of demo_ensemble demo_promoted] by metis
qed

text \<open>C36. What a vote decides, in binary64 arithmetic: the count is the number of successful executions
  with a valid signal; the signal is one of the three, and anything but a consensus is a hold; a
  consensus signal was voted for by a successful execution, no other signal has more weight, and its
  share of the total weight is a number between 0 and 1 that reaches the asked minimum.\<close>

theorem consensus_sound:
  assumes "decide xs minimum = Inr c" and "length xs \<le> 2 ^ 53"
  shows "co_signal c \<in> set valid_signals \<and> f_unit (co_agreement c) \<and>
    co_count c = length (filter casts_vote xs) \<and>
    (if co_state c = ''consensus''
     then co_leading c = Some (co_signal c) \<and> (\<exists>x \<in> set xs. casts_vote x \<and> vote_signal x = co_signal c) \<and>
       (\<exists>t w a. count_votes xs no_votes = Inr t \<and> (co_signal c, w) \<in> set (ta_votes t) \<and>
          (\<forall>v \<in> set (ta_votes t). f_le (snd v) w) \<and> f_div w (ta_total t) = Inr a \<and> f_unit a \<and>
          f_le minimum a \<and> co_agreement c = f_round 6 a)
     else co_signal c = ''hold'')"
proof -
  obtain t where t: "count_votes xs no_votes = Inr t" and d: "decide_votes t minimum = Inr c"
    using assms(1) by (auto simp: decide_def)
  have ok: "tally_ok t" using count_votes_ok [OF t no_votes_ok] assms(2) by (simp add: no_votes_def)
  have n: "ta_count t = length (filter casts_vote xs)"
    using count_votes_count [OF t] by (simp add: no_votes_def)
  have hold: "''hold'' \<in> set valid_signals" by (simp add: valid_signals_def)
  show ?thesis
  proof (cases "ta_votes t = [] \<or> f_le (ta_total t) (Fin 0)")
    case True
    then show ?thesis using d n hold by (auto simp: decide_votes_def split: list.splits if_splits)
  next
    case False
    then obtain v vs where v: "ta_votes t = v # vs" and pos: "\<not> f_le (ta_total t) (Fin 0)"
      by (cases "ta_votes t") auto
    obtain s w where b: "best_vote v vs = (s, w)" by (cases "best_vote v vs") auto
    then have sw: "(s, w) \<in> set (ta_votes t)" using best_vote_in [of v vs] v by simp
    then have s: "s \<in> set valid_signals" and wt: "vote_le w (ta_total t)"
      using ok by (auto simp: tally_ok_def)
    obtain x y where x: "w = Fin x" "ta_total t = Fin y" "0 \<le> x" "x \<le> y" and y: "0 < y"
      using wt pos by (auto simp: vote_le_def f_le_def)
    obtain a where a: "f_div w (ta_total t) = Inr a" "f_unit a"
      using b64.ratio_unit [of x y] x y by auto
    have "\<forall>u \<in> set (v # vs). \<exists>r. snd u = Fin r"
      using ok v by (auto simp: tally_ok_def vote_le_def)
    from best_vote_max [OF this] have best: "\<forall>u \<in> set (ta_votes t). f_le (snd u) w" by (simp add: b v)
    have c: "c = \<lparr>co_signal = (if f_le minimum a then s else ''hold''), co_leading = Some s,
        co_agreement = f_round 6 a,
        co_state = (if f_le minimum a then ''consensus'' else ''insufficient_agreement''),
        co_votes = sort_key fst (map (\<lambda>(k, x). (k, f_round 6 x)) (v # vs)), co_count = ta_count t\<rparr>"
      using d pos a by (simp add: decide_votes_def v b Let_def)
    have "\<exists>x \<in> set xs. casts_vote x \<and> vote_signal x = s"
      using count_votes_signals [OF t sw] by (simp add: no_votes_def)
    then show ?thesis using s hold n t sw best a f_round_unit [OF a(2)] by (auto simp: c)
  qed
qed

definition demo_ballot :: dict where
  "demo_ballot = [(''execution_status'', JStr ''success''), (''deployment_stage'', JStr ''champion''),
     (''output'', JObj [(''signal'', JStr ''buy''), (''confidence'', JFloat (Fin 1))])]"

lemma demo_vote: "count_votes [demo_ballot] no_votes =
    Inr \<lparr>ta_votes = [(''buy'', Fin 1)], ta_total = Fin 1, ta_count = 1\<rparr>"
  by (simp add: demo_ballot_def casts_vote_def succeeded_def vote_signal_def valid_signals_def
      vote_weight_def vote_confidence_def stage_weight_def add_vote_def no_votes_def dict_simps
      jget_or_Cons dset_def float_simps text_simps lower_def)

theorem consensus_sound_witness:
  "\<exists>c. decide [demo_ballot] (Fin (1 / 2)) = Inr c \<and> co_count c = length (filter casts_vote [demo_ballot]) \<and>
     co_signal c = ''buy''"
proof -
  have "\<exists>c. decide [demo_ballot] (Fin (1 / 2)) = Inr c \<and> co_signal c = ''buy''"
    unfolding decide_def demo_vote by (simp add: decide_votes_def float_simps f_le_def)
  then obtain c where c: "decide [demo_ballot] (Fin (1 / 2)) = Inr c" "co_signal c = ''buy''" by blast
  from consensus_sound [OF c(1)] show ?thesis by (intro exI [of _ c] conjI c) simp
qed

end
