(* ===== verification/Version_Api.thy ===== *)
theory Version_Api
  imports Registry_Inv Shadow_Ensemble
begin

text \<open>
  \<open>app/version_api.py\<close>: the HTTP operations on families of skills. A handler returns the data of
  its response or the exception that becomes the response.
\<close>

section \<open>The store contract\<close>

text \<open>
  What the handlers rely on when they look up skills they were listed: the lookup of a listed
  record finds it.
\<close>

locale skill_store =
  fixes lookup :: "'r \<Rightarrow> string \<Rightarrow> 'd res"
    and listed :: "'r \<Rightarrow> 'k set"
    and ident :: "'k \<Rightarrow> string"
    and view :: "'d \<Rightarrow> 'k"
    and good :: "'r \<Rightarrow> bool"
  assumes found: "good rows \<Longrightarrow> k \<in> listed rows \<Longrightarrow> \<exists>d. lookup rows (ident k) = Inr d \<and> view d = k"
begin

lemma found_all:
  "good rows \<Longrightarrow> set ks \<subseteq> listed rows \<Longrightarrow>
     \<exists>ds. res_all (map (\<lambda>k. lookup rows (ident k)) ks) = Inr ds \<and> map view ds = ks"
proof (induction ks)
  case (Cons k ks)
  then obtain ds where "res_all (map (\<lambda>k. lookup rows (ident k)) ks) = Inr ds" "map view ds = ks"
    by auto
  moreover obtain d where "lookup rows (ident k) = Inr d" "view d = k"
    using found [of rows k] Cons.prems by auto
  ultimately show ?case by auto
qed simp

end

lemma truncate_to_detail: "skill_record.truncate (to_detail r) = to_record r"
  by (simp add: to_detail_def to_record_def skill_record.truncate_def skill_record.extend_def)

lemma get_row: "distinct (map row_id rows) \<Longrightarrow> r \<in> set rows \<Longrightarrow> get rows (row_id r) = Inr (to_detail r)"
  using find_row_distinct [of rows r] by (simp add: get_Inr)

interpretation store: skill_store get "\<lambda>rows. to_record ` set rows" sk_id skill_record.truncate
    "reg_inv env" for env
proof
  fix rows k
  assume "reg_inv env rows" "k \<in> to_record ` set rows"
  then obtain r where "r \<in> set rows" "k = to_record r" "distinct (map row_id rows)"
    by (auto simp: reg_inv_def)
  then show "\<exists>d. get rows (sk_id k) = Inr d \<and> skill_record.truncate d = k"
    by (simp add: get_row truncate_to_detail)
qed

section \<open>Families\<close>

record family_summary =
  fs_family :: string
  fs_name :: string
  fs_count :: nat
  fs_champion :: "string option"
  fs_champion_version :: "string option"
  fs_latest :: string
  fs_latest_version :: string
  fs_versions :: "skill_record list"

definition last_opt :: "'a list \<Rightarrow> 'a option" where
  "last_opt xs = (if xs = [] then None else Some (last xs))"

definition family_order :: "skill_record \<Rightarrow> int \<times> string \<times> string" where
  "family_order k = (sk_created k, sk_version k, sk_id k)"

definition family_summary_of :: "registry \<Rightarrow> string \<Rightarrow> family_summary res" where
  "family_summary_of rows family =
     (let versions = list_skills (any_query\<lparr>lq_family := Some family\<rparr>) rows;
          ordered = sort_key family_order versions;
          champion = last_opt (filter (\<lambda>k. sk_stage k = Champion) ordered)
      in if versions = [] then Inl (KeyError family)
         else Inr \<lparr>fs_family = family, fs_name = sk_name (last ordered), fs_count = length ordered,
           fs_champion = map_option sk_id champion, fs_champion_version = map_option sk_version champion,
           fs_latest = sk_id (last ordered), fs_latest_version = sk_version (last ordered),
           fs_versions = ordered\<rparr>)"

definition list_skill_families :: "registry \<Rightarrow> family_summary list res" where
  "list_skill_families rows =
     res_all (map (family_summary_of rows)
       (sort (remdups (map sk_family (list_skills any_query rows)))))"

text \<open>How a handler turns the exceptions of the registry into a response.\<close>

definition http_error :: "string \<Rightarrow> exn \<Rightarrow> exn" where
  "http_error missing e = (case e of
       KeyError _ \<Rightarrow> HTTPException 404 missing
     | ValueError m \<Rightarrow> HTTPException 400 m
     | _ \<Rightarrow> e)"

definition get_skill_family :: "registry \<Rightarrow> string \<Rightarrow> family_summary res" where
  "get_skill_family rows family = (case family_summary_of rows family of
       Inl (KeyError _) \<Rightarrow> Inl (HTTPException 404 ''skill_family_not_found'')
     | r \<Rightarrow> r)"

record version_response =
  ver_skill :: skill_detail
  ver_parent :: string
  ver_immutable_parent :: bool

definition create_skill_version :: "reg_env \<Rightarrow> string \<Rightarrow> int \<Rightarrow> string \<Rightarrow> version_request \<Rightarrow> registry
    \<Rightarrow> version_response res \<times> registry" where
  "create_skill_version env uuid now i q rows =
     (case create_version env uuid now i q rows of
        (Inl e, rows') \<Rightarrow> (Inl (http_error ''skill_not_found'' e), rows')
      | (Inr k, rows') \<Rightarrow>
          (res_map (\<lambda>p. \<lparr>ver_skill = k, ver_parent = i, ver_immutable_parent = sk_immutable p\<rparr>)
             (get rows' i), rows'))"

record promotion_response =
  pm_skill :: skill_detail
  pm_previous :: stage
  pm_current :: stage
  pm_family :: family_summary

definition promote_skill :: "string \<Rightarrow> string \<Rightarrow> string option \<Rightarrow> string option \<Rightarrow> (nat \<Rightarrow> int) \<Rightarrow> registry
    \<Rightarrow> promotion_response res \<times> registry" where
  "promote_skill i target actor reason clk rows =
     (case get rows i of
        Inl e \<Rightarrow> (Inl (http_error ''skill_not_found'' e), rows)
      | Inr before \<Rightarrow> (case promote i target actor reason clk rows of
          (Inl e, rows') \<Rightarrow> (Inl (http_error ''skill_not_found'' e), rows')
        | (Inr k, rows') \<Rightarrow>
            (res_map (\<lambda>f. \<lparr>pm_skill = k, pm_previous = sk_stage before, pm_current = sk_stage k,
                pm_family = f\<rparr>) (family_summary_of rows' (sk_family k)), rows')))"

record rollback_response =
  rb_skill :: skill_detail
  rb_replaced :: "string option"
  rb_family :: family_summary

definition prior_champion :: "registry \<Rightarrow> skill_detail \<Rightarrow> string option" where
  "prior_champion rows k = map_option sk_id (List.find (\<lambda>c. sk_id c \<noteq> sk_id k)
     (list_skills (any_query\<lparr>lq_family := Some (sk_family k), lq_stage := Some ''champion''\<rparr>) rows))"

definition rollback_family_to_skill :: "string \<Rightarrow> string option \<Rightarrow> string option \<Rightarrow> (nat \<Rightarrow> int) \<Rightarrow> registry
    \<Rightarrow> rollback_response res \<times> registry" where
  "rollback_family_to_skill i actor reason clk rows =
     (case get rows i of
        Inl e \<Rightarrow> (Inl (http_error ''skill_not_found'' e), rows)
      | Inr k \<Rightarrow>
          (let prior = prior_champion rows k in
           case promote (sk_id k) ''champion'' actor
               (Some (str_or reason ''manual_champion_rollback'')) clk rows of
             (Inl e, rows') \<Rightarrow> (Inl (http_error ''skill_not_found'' e), rows')
           | (Inr r, rows') \<Rightarrow>
               (res_map (\<lambda>f. \<lparr>rb_skill = r, rb_replaced = prior, rb_family = f\<rparr>)
                  (family_summary_of rows' (sk_family r)), rows')))"

section \<open>What the family operations guarantee\<close>

lemma stage_text_inj [simp]: "stage_text a = stage_text b \<longleftrightarrow> a = b"
  by (metis option.inject parse_stage_text)

lemma in_list_family:
  assumes "family \<noteq> []"
  shows "k \<in> set (list_skills (any_query\<lparr>lq_family := Some family\<rparr>) rows) \<longleftrightarrow>
    (\<exists>r \<in> set rows. k = to_record r \<and> row_family r = Some family)"
  using assms
  by (auto simp: list_skills_def any_query_def row_selected_def matches_def str_true_def tag_selected_def)

lemma in_list_champions:
  assumes "family \<noteq> []"
  shows "k \<in> set (list_skills (any_query\<lparr>lq_family := Some family, lq_stage := Some ''champion''\<rparr>) rows) \<longleftrightarrow>
    (\<exists>r \<in> set rows. k = to_record r \<and> row_family r = Some family \<and> row_stage r = Champion)"
proof -
  have "stage_text g = ''champion'' \<longleftrightarrow> g = Champion" for g by (cases g) simp_all
  then show ?thesis using assms
    by (auto simp: list_skills_def any_query_def row_selected_def matches_def str_true_def tag_selected_def)
qed

lemma family_nonempty: "row_ok env r \<Longrightarrow> row_family r = Some (sk_family (to_detail r)) \<and> sk_family (to_detail r) \<noteq> []"
  using sk_family_row_ok [of env r] by (auto simp: row_ok_def str_true_def)

text \<open>A summary is total on the families of the registry, and its champion is the family's champion.\<close>

lemma family_summary_total:
  assumes "r \<in> set rows" "row_family r = Some family" "family \<noteq> []"
  shows "\<exists>s. family_summary_of rows family = Inr s \<and> fs_family s = family \<and>
    set (fs_versions s) = {to_record q |q. q \<in> set rows \<and> row_family q = Some family}"
proof -
  let ?l = "list_skills (any_query\<lparr>lq_family := Some family\<rparr>) rows"
  have mem: "set ?l = {to_record q |q. q \<in> set rows \<and> row_family q = Some family}"
    using in_list_family [OF assms(3)] by blast
  then have "?l \<noteq> []" using assms by fastforce
  then show ?thesis using mem by (simp add: family_summary_of_def Let_def)
qed

lemma last_opt_filter: "last_opt (filter P xs) = Some x \<Longrightarrow> x \<in> set xs \<and> P x"
proof -
  assume h: "last_opt (filter P xs) = Some x"
  then have "filter P xs \<noteq> []" "x = last (filter P xs)" by (auto simp: last_opt_def split: if_splits)
  then have "x \<in> set (filter P xs)" by (metis last_in_set)
  then show ?thesis unfolding set_filter by blast
qed

lemma last_opt_None: "last_opt (filter P xs) = None \<longleftrightarrow> (\<forall>x \<in> set xs. \<not> P x)"
  by (simp add: last_opt_def filter_empty_conv)

lemma family_summary_champion:
  assumes "family_summary_of rows family = Inr s" "family \<noteq> []"
  shows "case fs_champion s of None \<Rightarrow> set (champions rows family) = {}
    | Some i \<Rightarrow> i \<in> set (champions rows family)"
proof -
  let ?o = "sort_key family_order (list_skills (any_query\<lparr>lq_family := Some family\<rparr>) rows)"
  let ?c = "last_opt (filter (\<lambda>k. sk_stage k = Champion) ?o)"
  have s: "fs_champion s = map_option sk_id ?c"
    using assms(1) by (auto simp: family_summary_of_def Let_def split: if_splits)
  show ?thesis
  proof (cases ?c)
    case None
    then have no: "sk_stage k \<noteq> Champion" if "k \<in> set ?o" for k
      using that by (simp add: last_opt_None)
    have "row_stage r \<noteq> Champion" if "r \<in> set rows" "row_family r = Some family" for r
      using no [of "to_record r"] that by (auto simp: in_list_family [OF assms(2)])
    then have "set (champions rows family) = {}" by (auto simp: champions_def)
    then show ?thesis using s None by simp
  next
    case (Some k)
    from last_opt_filter [OF this] have "k \<in> set ?o" "sk_stage k = Champion" by simp_all
    then have "sk_id k \<in> set (champions rows family)"
      by (auto simp: set_champions in_list_family [OF assms(2)])
    then show ?thesis using s Some by simp
  qed
qed

lemma find_SomeD: "List.find P xs = Some x \<Longrightarrow> x \<in> set xs \<and> P x"
  by (induction xs) (auto split: if_splits)

lemma prior_champion_iff:
  assumes "family \<noteq> []" "sk_family k = family"
  shows "case prior_champion rows k of
      None \<Rightarrow> set (champions rows family) \<subseteq> {sk_id k}
    | Some j \<Rightarrow> j \<in> set (champions rows family) - {sk_id k}"
proof -
  let ?l = "list_skills (any_query\<lparr>lq_family := Some family, lq_stage := Some ''champion''\<rparr>) rows"
  have mem: "j \<in> sk_id ` set ?l \<longleftrightarrow> j \<in> set (champions rows family)" for j
  proof
    assume "j \<in> sk_id ` set ?l"
    then obtain r where "r \<in> set rows" "j = row_id r" "row_family r = Some family" "row_stage r = Champion"
      using in_list_champions [OF assms(1)] by fastforce
    then show "j \<in> set (champions rows family)" unfolding set_champions by blast
  next
    assume "j \<in> set (champions rows family)"
    then obtain r where "r \<in> set rows" "row_id r = j" "row_family r = Some family" "row_stage r = Champion"
      unfolding set_champions by blast
    then have "to_record r \<in> set ?l" "sk_id (to_record r) = j"
      using in_list_champions [OF assms(1)] by auto
    then show "j \<in> sk_id ` set ?l" by blast
  qed
  show ?thesis
  proof (cases "List.find (\<lambda>c. sk_id c \<noteq> sk_id k) ?l")
    case None
    then have all: "\<forall>c \<in> set ?l. sk_id c = sk_id k" unfolding find_None_iff by blast
    have "set (champions rows family) \<subseteq> {sk_id k}"
    proof
      fix j
      assume "j \<in> set (champions rows family)"
      then have "j \<in> sk_id ` set ?l" by (simp only: mem)
      then obtain c where "c \<in> set ?l" "j = sk_id c" by (rule imageE)
      with all show "j \<in> {sk_id k}" by blast
    qed
    then show ?thesis using None assms(2) unfolding prior_champion_def by simp
  next
    case (Some c)
    from find_SomeD [OF this] have "c \<in> set ?l" "sk_id c \<noteq> sk_id k" by blast+
    then have "sk_id c \<in> set (champions rows family) - {sk_id k}"
      using mem [of "sk_id c"] by (metis DiffI image_eqI singletonD)
    then show ?thesis using Some assms(2) unfolding prior_champion_def by simp
  qed
qed

text \<open>A rollback makes the skill the only champion of its family and names the one it replaced.\<close>

lemma rollback_champion:
  assumes inv: "reg_inv env rows" and one: "one_champion rows"
    and get: "get rows i = Inr k" and dep: "deployable Champion k"
  shows "\<exists>resp rows'. rollback_family_to_skill i actor reason clk rows = (Inr resp, rows') \<and>
    set (champions rows' (sk_family k)) = {i} \<and> fs_champion (rb_family resp) = Some i \<and>
    (case rb_replaced resp of None \<Rightarrow> set (champions rows (sk_family k)) \<subseteq> {i}
     | Some j \<Rightarrow> set (champions rows (sk_family k)) = {j} \<and> j \<noteq> i)"
proof -
  obtain r where r: "find_row rows i = Some r" "k = to_detail r" using get by (auto simp: get_Inr)
  then have ok: "row_ok env r" and i: "row_id r = i"
    using inv by (auto simp: reg_inv_def dest: find_row_Some)
  note fam = family_nonempty [OF ok, folded r(2)]
  let ?reason = "Some (str_or reason ''manual_champion_rollback'')"
  obtain k' rows' where p: "promote i ''champion'' actor ?reason clk rows = (Inr k', rows')"
    "sk_family k' = sk_family k" "set (champions rows' (sk_family k)) = {i}"
    using promote_champion [OF inv get dep, of actor ?reason clk] by blast
  obtain c where c: "c \<in> set rows'" "row_family c = Some (sk_family k)"
    using p(3) by (auto simp: set_champions set_eq_iff)
  obtain s where s: "family_summary_of rows' (sk_family k) = Inr s"
    using family_summary_total [OF c] fam by blast
  have "fs_champion s = Some i"
    using family_summary_champion [OF s] fam p(3) by (auto split: option.splits)
  moreover have "case prior_champion rows k of None \<Rightarrow> set (champions rows (sk_family k)) \<subseteq> {i}
      | Some j \<Rightarrow> set (champions rows (sk_family k)) = {j} \<and> j \<noteq> i"
  proof (cases "prior_champion rows k")
    case None
    then show ?thesis using prior_champion_iff [OF conjunct2 [OF fam] refl, of rows] r i by simp
  next
    case (Some j)
    then have j: "j \<in> set (champions rows (sk_family k))" "j \<noteq> i"
      using prior_champion_iff [OF conjunct2 [OF fam] refl, of rows] r i by simp_all
    then have "set (champions rows (sk_family k)) = {j}"
      using one unfolding one_champion_def by blast
    with j Some show ?thesis by simp
  qed
  moreover have "sk_id k = i" using r i by simp
  ultimately show ?thesis
    using p s get by (simp add: rollback_family_to_skill_def Let_def)
qed

end
