(* ===== verification/Recommendations.thy ===== *)
theory Recommendations
  imports Skill_Executors Registry_Spec "HOL-Library.Product_Lexorder"
begin

text \<open>
  \<open>app/recommendations.py\<close>: the ranking of approved skills by their performance history, with the
  context fallback score when there is none.
\<close>

section \<open>The requests and answers\<close>

record recommend_request =
  rr_account :: json
  rr_symbol :: "string option"
  rr_asset :: string
  rr_regime :: "string option"
  rr_bucket :: "string option"
  rr_top :: nat
  rr_tags :: "string list"
  rr_backtest :: bool

definition recommend_request_ok :: "recommend_request \<Rightarrow> bool" where
  "recommend_request_ok q \<longleftrightarrow> 1 \<le> rr_top q \<and> rr_top q \<le> 20 \<and> opt_len_in 0 20 (rr_symbol q) \<and>
     opt_len_in 0 120 (rr_regime q) \<and> opt_len_in 0 120 (rr_bucket q)"

record recommended =
  rec_skill :: skill_record
  rec_score :: pyfloat
  rec_reason :: string
  rec_performance :: dict
  rec_backtest :: dict

record recommendation =
  rn_state :: string
  rn_skills :: "recommended list"
  rn_rejected :: nat
  rn_metadata :: dict

section \<open>Matching and scores\<close>

text \<open>A wanted value that the context gives differently.\<close>

definition context_conflict :: "dict \<Rightarrow> string \<Rightarrow> string option \<Rightarrow> bool" where
  "context_conflict c key wanted \<longleftrightarrow>
     str_true wanted \<and> truthy (jget c key) \<and> jget c key \<noteq> JStr (the wanted)"

definition tags_meet :: "string list \<Rightarrow> skill_record \<Rightarrow> bool" where
  "tags_meet tags k \<longleftrightarrow> lower ` set tags \<inter> lower ` set (sk_tags k) \<noteq> {}"

definition context_matches :: "recommend_request \<Rightarrow> skill_record \<Rightarrow> bool" where
  "context_matches q k \<longleftrightarrow>
     (rr_tags q = [] \<or> tags_meet (rr_tags q) k) \<and>
     \<not> context_conflict (sk_context k) ''asset_class'' (Some (rr_asset q)) \<and>
     \<not> context_conflict (sk_context k) ''strategy_bucket'' (rr_bucket q) \<and>
     \<not> context_conflict (sk_context k) ''regime'' (rr_regime q)"

definition performance_by_skill :: "json \<Rightarrow> (string, dict) pydict" where
  "performance_by_skill rank = (case jget (obj_or_empty rank) ''data'' of
       JArr items \<Rightarrow> dmerge [] (concat (map (\<lambda>i. (case i of
           JObj d \<Rightarrow> if truthy (jget d ''skill_id'') then [(py_str (jget d ''skill_id''), d)] else []
         | _ \<Rightarrow> [])) items))
     | _ \<Rightarrow> [])"

definition backtest_data :: "json \<Rightarrow> dict" where
  "backtest_data r = obj_or_empty (jget (obj_or_empty r) ''data'')"

definition backtest_passed :: "json \<Rightarrow> bool" where
  "backtest_passed r \<longleftrightarrow> truthy (jget (backtest_data r) ''passed'')"

definition add_if :: "bool \<Rightarrow> rat \<Rightarrow> pyfloat \<Rightarrow> pyfloat" where
  "add_if b x y = (if b then f_add y (to_b64 x) else y)"

definition fallback_score :: "recommend_request \<Rightarrow> skill_record \<Rightarrow> pyfloat" where
  "fallback_score q k =
     f_round 4 (py_min
       (add_if (sk_stage k = Champion) (5 / 100)
         (add_if (str_true (rr_regime q) \<and> jget (sk_context k) ''regime'' = JStr (the (rr_regime q))) (1 / 10)
           (add_if (str_true (rr_bucket q) \<and>
               jget (sk_context k) ''strategy_bucket'' = JStr (the (rr_bucket q))) (1 / 10)
             (add_if (rr_tags q \<noteq> [] \<and> tags_meet (rr_tags q) k) (1 / 10) (Fin (1 / 2))))))
       (to_b64 (80 / 100)))"

definition base_score :: "recommend_request \<Rightarrow> skill_record \<Rightarrow> dict \<Rightarrow> pyfloat res" where
  "base_score q k performance =
     (if truthy (jget performance ''skill_score'') then to_float (jget performance ''skill_score'')
      else Inr (fallback_score q k))"

definition boosted :: "bool \<Rightarrow> bool \<Rightarrow> pyfloat \<Rightarrow> pyfloat" where
  "boosted passed champion x =
     (let y = (if passed then py_min (Fin 1) (f_add x (to_b64 (5 / 100))) else x)
      in if champion then py_min (Fin 1) (f_add y (to_b64 (3 / 100))) else y)"

definition recommend_reason :: "bool \<Rightarrow> bool \<Rightarrow> bool \<Rightarrow> bool \<Rightarrow> string" where
  "recommend_reason ranked enabled passed champion =
     (if ranked then ''Ranked by Database_Agent skill performance history.''
      else if enabled
      then ''Approved skill with no matching performance history yet; using context fallback score.''
      else ''Database_Agent not configured; using approved-skill context fallback score.'')
     @ (if passed then '' Backtest passed.'' else [])
     @ (if champion then '' Current champion for its skill family.'' else [])"

section \<open>The ranking\<close>

text \<open>The loop: per skill, \<open>None\<close> if it is rejected for its backtest.\<close>

definition recommend_one :: "database \<Rightarrow> network \<Rightarrow> recommend_request \<Rightarrow> (string, dict) pydict
    \<Rightarrow> skill_record \<Rightarrow> recommended option res" where
  "recommend_one db send q lookup k =
     (let response = get_skill_backtest_status db send (sk_id k); backtest = backtest_data response;
          passed = truthy (jget backtest ''passed''); champion = (sk_stage k = Champion);
          performance = (case dget lookup (sk_id k) of Some p \<Rightarrow> p | None \<Rightarrow> [])
      in if rr_backtest q \<and> \<not> backtest_passed response then Inr None
         else res_map (\<lambda>x. Some
           \<lparr>rec_skill = k, rec_score = clamp01 (boosted passed champion x),
            rec_reason = recommend_reason (performance \<noteq> []) (db_enabled db) passed champion,
            rec_performance = performance, rec_backtest = backtest\<rparr>) (base_score q k performance))"

text \<open>\<open>sort(key=(champion, score, version), reverse=True)\<close>, which keeps the order of equal keys.\<close>

definition score_val :: "pyfloat \<Rightarrow> rat" where
  "score_val x = (case x of Fin r \<Rightarrow> r | _ \<Rightarrow> 0)"

definition rank_key :: "recommended \<Rightarrow> bool \<times> rat \<times> string" where
  "rank_key r = (sk_stage (rec_skill r) = Champion, score_val (rec_score r), sk_version (rec_skill r))"

definition sort_desc :: "recommended list \<Rightarrow> recommended list" where
  "sort_desc xs = rev (sort_key rank_key (rev xs))"

definition approved_candidates :: "registry \<Rightarrow> recommend_request \<Rightarrow> skill_record list" where
  "approved_candidates rows q =
     filter (\<lambda>k. sk_stage k \<noteq> Retired \<and> context_matches q k)
       (list_skills (any_query\<lparr>lq_validation := Some ''validated'', lq_approval := Some ''approved''\<rparr>) rows)"

definition rank_status :: "json \<Rightarrow> json" where
  "rank_status rank = (case rank of JObj r \<Rightarrow> jget r ''status'' | _ \<Rightarrow> JNull)"

definition recommend_skills :: "registry \<Rightarrow> database \<Rightarrow> network \<Rightarrow> recommend_request
    \<Rightarrow> recommendation res" where
  "recommend_skills rows db send q =
     (let skills = approved_candidates rows q; enabled = JBool (db_enabled db) in
      if skills = [] then
        Inr \<lparr>rn_state = ''no_approved_skills'', rn_skills = [], rn_rejected = 0,
          rn_metadata = [(''database_client_enabled'', enabled)]\<rparr>
      else
       (let rank = rank_skills db send \<lparr>rk_account = rr_account q, rk_symbol = rr_symbol q,
              rk_bucket = rr_bucket q, rk_regime = rr_regime q, rk_limit = int (max (rr_top q) 20)\<rparr>;
            lookup = performance_by_skill rank
        in res_bind (res_all (map (recommend_one db send q lookup) skills)) (\<lambda>rs.
          (let recs = List.map_filter id rs; dropped = length (filter (\<lambda>r. r = None) rs);
               selected = take (rr_top q) (sort_desc recs)
           in if rr_backtest q \<and> recs = [] then
                Inr \<lparr>rn_state = ''no_backtest_passed_skills'', rn_skills = [], rn_rejected = dropped,
                  rn_metadata = [(''database_client_enabled'', enabled),
                    (''database_rank_status'', rank_status rank), (''require_backtest_passed'', JBool True),
                    (''backtest_status_by_skill'', JObj (dmerge [] (map (\<lambda>k. (sk_id k,
                       JObj (backtest_data (get_skill_backtest_status db send (sk_id k))))) skills))),
                    (''advisory_only'', JBool True), (''risk_gate_required'', JBool True)]\<rparr>
              else
                Inr \<lparr>rn_state = (if lookup \<noteq> [] then ''ranked'' else ''fallback_no_database''),
                  rn_skills = selected,
                  rn_rejected = (length recs - length selected) + dropped,
                  rn_metadata = [(''database_client_enabled'', enabled),
                    (''database_rank_status'', rank_status rank),
                    (''require_backtest_passed'', JBool (rr_backtest q)),
                    (''rejected_for_backtest'', JInt (int dropped)), (''advisory_only'', JBool True),
                    (''risk_gate_required'', JBool True), (''version_aware'', JBool True),
                    (''retired_skills_excluded'', JBool True)]\<rparr>))))"

section \<open>What a recommendation guarantees\<close>

lemma set_sort_desc [simp]: "set (sort_desc xs) = set xs"
  by (simp add: sort_desc_def)

lemma length_sort_desc [simp]: "length (sort_desc xs) = length xs"
  by (simp add: sort_desc_def)

lemma sorted_sort_desc: "sorted_wrt (\<lambda>a b. rank_key b \<le> rank_key a) (sort_desc xs)"
proof -
  have "sorted (map rank_key (sort_key rank_key (rev xs)))" by (rule sorted_sort_key)
  then show ?thesis unfolding sort_desc_def sorted_wrt_rev sorted_map .
qed

lemma sorted_wrt_take: "sorted_wrt P xs \<Longrightarrow> sorted_wrt P (take n xs)"
  by (metis append_take_drop_id sorted_wrt_append)

lemma set_map_filter_id: "x \<in> set (List.map_filter id xs) \<longleftrightarrow> Some x \<in> set xs"
  by (induction xs) (auto simp: List.map_filter_simps split: option.splits)

lemma length_map_filter_id:
  "length (List.map_filter id xs) + length (filter (\<lambda>r. r = None) xs) = length xs"
  by (induction xs) (auto simp: List.map_filter_simps split: option.splits)

lemma approved_candidates_iff:
  "k \<in> set (approved_candidates rows q) \<longleftrightarrow>
     (\<exists>r \<in> set rows. k = to_record r \<and> row_validation r = Validated \<and> row_approval r = Approved \<and>
        row_stage r \<noteq> Retired \<and> context_matches q k)"
  by (auto simp: approved_candidates_def listed_approved)

lemma recommend_one_Some:
  assumes "recommend_one db send q lookup k = Inr (Some r)"
  shows "rec_skill r = k \<and> f_unit (rec_score r) \<and>
    (rr_backtest q \<longrightarrow> truthy (jget (rec_backtest r) ''passed'')) \<and>
    rec_backtest r = backtest_data (get_skill_backtest_status db send (sk_id k))"
  using assms
  by (auto simp: recommend_one_def Let_def res_map_eq_Inr clamp01_unit backtest_passed_def
      split: if_splits)

definition ranked_before :: "recommended \<Rightarrow> recommended \<Rightarrow> bool" where
  "ranked_before a b \<longleftrightarrow> rank_key b \<le> rank_key a"

text \<open>
  Every recommendation is of an approved candidate, scored between 0 and 1, backtested when that is
  asked for; the list is ranked; and every candidate is either returned or counted as rejected.
\<close>

definition recommendation_ok :: "registry \<Rightarrow> recommend_request \<Rightarrow> recommendation \<Rightarrow> bool" where
  "recommendation_ok rows q n \<longleftrightarrow>
     length (rn_skills n) \<le> rr_top q \<and>
     length (rn_skills n) + rn_rejected n = length (approved_candidates rows q) \<and>
     sorted_wrt ranked_before (rn_skills n) \<and>
     (\<forall>r \<in> set (rn_skills n). rec_skill r \<in> set (approved_candidates rows q) \<and> f_unit (rec_score r) \<and>
        (rr_backtest q \<longrightarrow> truthy (jget (rec_backtest r) ''passed'')))"

lemma recommend_skills_ok:
  assumes "recommend_skills rows db send q = Inr n"
  shows "recommendation_ok rows q n"
proof (cases "approved_candidates rows q = []")
  case True
  then show ?thesis using assms by (auto simp: recommend_skills_def recommendation_ok_def)
next
  case False
  define lookup where "lookup = performance_by_skill (rank_skills db send \<lparr>rk_account = rr_account q,
    rk_symbol = rr_symbol q, rk_bucket = rr_bucket q, rk_regime = rr_regime q,
    rk_limit = int (max (rr_top q) 20)\<rparr>)"
  obtain rs where rs: "res_all (map (recommend_one db send q lookup) (approved_candidates rows q)) = Inr rs"
    and n: "rn_skills n = (if rr_backtest q \<and> List.map_filter id rs = [] then []
        else take (rr_top q) (sort_desc (List.map_filter id rs)))"
      "rn_rejected n = (if rr_backtest q \<and> List.map_filter id rs = [] then length (filter (\<lambda>r. r = None) rs)
        else length (List.map_filter id rs) - length (take (rr_top q) (sort_desc (List.map_filter id rs)))
          + length (filter (\<lambda>r. r = None) rs))"
    using assms False by (auto simp: recommend_skills_def Let_def lookup_def split: if_splits)
  have map: "map (recommend_one db send q lookup) (approved_candidates rows q) = map Inr rs"
    using rs by (simp add: res_all_Inr)
  then have len: "length rs = length (approved_candidates rows q)" by (metis length_map)
  have each: "\<exists>k \<in> set (approved_candidates rows q). recommend_one db send q lookup k = Inr (Some r)"
    if "r \<in> set (rn_skills n)" for r
  proof -
    have "r \<in> set (List.map_filter id rs)"
      using that by (auto simp: n(1) split: if_splits dest: in_set_takeD)
    then have "Inr (Some r) \<in> set (map Inr rs)" by (simp add: set_map_filter_id)
    then have "Inr (Some r) \<in> set (map (recommend_one db send q lookup) (approved_candidates rows q))"
      by (simp only: map)
    then obtain k where k: "k \<in> set (approved_candidates rows q)"
      "Inr (Some r) = recommend_one db send q lookup k" unfolding set_map by (rule imageE) simp
    from k(2) [symmetric] k(1) show ?thesis by (rule bexI)
  qed
  have "length (rn_skills n) + rn_rejected n = length (approved_candidates rows q)"
    using length_map_filter_id [of rs] len
    by (cases "rr_backtest q \<and> List.map_filter id rs = []") (simp_all only: n if_True if_False
        list.size length_take length_sort_desc, simp_all)
  moreover have "sorted_wrt ranked_before (rn_skills n)"
    using sorted_sort_desc by (simp add: n(1) ranked_before_def [abs_def] sorted_wrt_take)
  moreover have "length (rn_skills n) \<le> rr_top q" by (simp add: n(1))
  moreover have "rec_skill r \<in> set (approved_candidates rows q) \<and> f_unit (rec_score r) \<and>
      (rr_backtest q \<longrightarrow> truthy (jget (rec_backtest r) ''passed''))" if "r \<in> set (rn_skills n)" for r
  proof -
    from each [OF that] obtain k where "k \<in> set (approved_candidates rows q)"
      "recommend_one db send q lookup k = Inr (Some r)" by blast
    with recommend_one_Some [OF this(2)] show ?thesis by blast
  qed
  ultimately show ?thesis unfolding recommendation_ok_def by blast
qed

section \<open>Properties\<close>

definition kept :: "database \<Rightarrow> network \<Rightarrow> recommend_request \<Rightarrow> skill_record \<Rightarrow> bool" where
  "kept db send q k \<longleftrightarrow>
     (if rr_backtest q then backtest_passed (get_skill_backtest_status db send (sk_id k)) else True)"

lemma recommend_one_None: "recommend_one db send q lookup k = Inr None \<longleftrightarrow> \<not> kept db send q k"
  by (auto simp: recommend_one_def kept_def Let_def res_map_eq_Inr)

lemma recommended_kept:
  "res_all (map (recommend_one db send q lookup) ks) = Inr rs \<Longrightarrow>
     map rec_skill (List.map_filter id rs) = filter (kept db send q) ks"
proof (induction ks arbitrary: rs)
  case (Cons k ks)
  then obtain r rs' where r: "recommend_one db send q lookup k = Inr r" "rs = r # rs'"
    "res_all (map (recommend_one db send q lookup) ks) = Inr rs'"
    by (auto simp: res_bind_def split: sum.splits)
  show ?case
  proof (cases r)
    case None
    then show ?thesis using r Cons.IH [OF r(3)] recommend_one_None [of db send q lookup k]
      by (simp add: List.map_filter_simps)
  next
    case (Some a)
    then show ?thesis using r Cons.IH [OF r(3)] recommend_one_Some [of db send q lookup k a]
        recommend_one_None [of db send q lookup k]
      by (simp add: List.map_filter_simps)
  qed
qed (simp add: List.map_filter_simps)

lemma recommend_skills_ranking:
  assumes "recommend_skills rows db send q = Inr n"
  shows "\<exists>ranking. rn_skills n = take (rr_top q) ranking \<and> sorted_wrt ranked_before ranking \<and>
    image_mset rec_skill (mset ranking) = filter_mset (kept db send q) (mset (approved_candidates rows q))"
proof (cases "approved_candidates rows q = []")
  case True
  then show ?thesis using assms by (auto simp: recommend_skills_def)
next
  case False
  define lookup where "lookup = performance_by_skill (rank_skills db send \<lparr>rk_account = rr_account q,
    rk_symbol = rr_symbol q, rk_bucket = rr_bucket q, rk_regime = rr_regime q,
    rk_limit = int (max (rr_top q) 20)\<rparr>)"
  obtain rs where rs: "res_all (map (recommend_one db send q lookup) (approved_candidates rows q)) = Inr rs"
    and n: "rn_skills n = (if rr_backtest q \<and> List.map_filter id rs = [] then []
        else take (rr_top q) (sort_desc (List.map_filter id rs)))"
    using assms False by (auto simp: recommend_skills_def Let_def lookup_def split: if_splits)
  let ?ranking = "sort_desc (List.map_filter id rs)"
  have "rn_skills n = take (rr_top q) ?ranking" by (simp add: n sort_desc_def)
  moreover have "sorted_wrt ranked_before ?ranking"
    using sorted_sort_desc by (simp add: ranked_before_def [abs_def])
  moreover have "image_mset rec_skill (mset ?ranking) =
      filter_mset (kept db send q) (mset (approved_candidates rows q))"
    using recommended_kept [OF rs] by (simp add: sort_desc_def flip: mset_map mset_filter)
  ultimately show ?thesis by blast
qed

text \<open>C34. What a recommendation is: the candidates are the approved, validated skills that are not
  retired and match the context; those that passed the backtest, if one is asked for, are ranked with
  champions first, then by score; the answer is the top of that ranking, every score lies between 0
  and 1, and every candidate that is not returned is counted as rejected.\<close>

theorem recommendations_ranked:
  assumes "recommend_skills rows db send q = Inr n"
  shows "(\<exists>ranking. rn_skills n = take (rr_top q) ranking \<and> sorted_wrt ranked_before ranking \<and>
      image_mset rec_skill (mset ranking) = filter_mset (kept db send q) (mset (approved_candidates rows q))) \<and>
    length (rn_skills n) + rn_rejected n = length (approved_candidates rows q) \<and>
    (\<forall>r \<in> set (rn_skills n). f_unit (rec_score r) \<and>
      (\<exists>s \<in> set rows. rec_skill r = to_record s \<and> row_validation s = Validated \<and>
         row_approval s = Approved \<and> row_stage s \<noteq> Retired \<and> context_matches q (rec_skill r)))"
proof (intro conjI ballI)
  fix r
  assume "r \<in> set (rn_skills n)"
  then have r: "rec_skill r \<in> set (approved_candidates rows q)" "f_unit (rec_score r)"
    using recommend_skills_ok [OF assms] by (simp_all add: recommendation_ok_def)
  from r(2) show "f_unit (rec_score r)" .
  from r(1) show "\<exists>s \<in> set rows. rec_skill r = to_record s \<and> row_validation s = Validated \<and>
      row_approval s = Approved \<and> row_stage s \<noteq> Retired \<and> context_matches q (rec_skill r)"
    by (auto simp: approved_candidates_iff)
qed (use recommend_skills_ranking [OF assms] recommend_skills_ok [OF assms] in
    \<open>simp_all add: recommendation_ok_def\<close>)

definition demo_database :: database where
  "demo_database = \<lparr>db_url = [], db_key = None, db_timeout = Fin 1\<rparr>"

definition demo_recommend :: recommend_request where
  "demo_recommend = \<lparr>rr_account = JInt 1, rr_symbol = None, rr_asset = ''us_equity'', rr_regime = None,
     rr_bucket = None, rr_top = 5, rr_tags = [], rr_backtest = False\<rparr>"

lemma demo_candidates:
  "approved_candidates demo_approved demo_recommend = [to_record (hd demo_approved)]"
  by code_simp

theorem recommendations_ranked_witness:
  "\<exists>n. recommend_skills demo_approved demo_database (\<lambda>_. HttpDown []) demo_recommend = Inr n \<and>
     length (rn_skills n) + rn_rejected n = 1"
proof -
  have "performance_by_skill (rank_skills demo_database send r) = []" for send r
    by (simp add: performance_by_skill_def rank_skills_def db_request_def db_enabled_def
        demo_database_def dict_simps)
  then obtain n where n: "recommend_skills demo_approved demo_database (\<lambda>_. HttpDown []) demo_recommend = Inr n"
    unfolding recommend_skills_def demo_candidates
    by (simp add: recommend_one_def base_score_def Let_def demo_recommend_def dict_simps dget_def)
  from recommendations_ranked [OF this] show ?thesis by (intro exI [of _ n] conjI n) (simp add: demo_candidates)
qed

end
