(* ===== verification/Performance_Policy.thy ===== *)
theory Performance_Policy
  imports Py_Json
begin

text \<open>
  \<open>app/performance_policy.py\<close>: the review of the deltas that the learning agent recommends. A
  delta dictionary maps a bucket, a symbol or a risk parameter to a float.
\<close>

section \<open>Requests and actions\<close>

type_synonym deltas = "(string, pyfloat) pydict"

record learning_result =
  lr_state :: string
  lr_mode :: string
  lr_confidence :: pyfloat
  lr_plans :: nat
  lr_score :: pyfloat
  lr_buckets :: deltas
  lr_assets :: deltas
  lr_risk :: deltas
  lr_guardrails :: dict
  lr_reasoning :: "string list"

record policy_request =
  pq_learning :: learning_result
  pq_min :: pyfloat
  pq_pause :: pyfloat

datatype action_kind = IncreaseWeight | DecreaseWeight | PauseBucket | IncreaseBias | DecreaseBias
  | ReduceRisk | RequireReview | KeepObserving

datatype target_kind = BucketTarget | SymbolTarget | RiskTarget | GuardrailTarget

datatype priority = Low | Medium | High

record policy_action =
  pa_type :: target_kind
  pa_target :: string
  pa_action :: action_kind
  pa_delta :: "pyfloat option"
  pa_auto :: bool
  pa_priority :: priority
  pa_reason :: string

fun action_text :: "action_kind \<Rightarrow> string" where
  "action_text IncreaseWeight = ''increase_weight''"
| "action_text DecreaseWeight = ''decrease_weight''"
| "action_text PauseBucket = ''pause_strategy_bucket''"
| "action_text IncreaseBias = ''increase_bias''"
| "action_text DecreaseBias = ''decrease_bias''"
| "action_text ReduceRisk = ''reduce_risk''"
| "action_text RequireReview = ''require_human_review''"
| "action_text KeepObserving = ''keep_observing''"

record policy_response =
  po_state :: string
  po_count :: nat
  po_actions :: "policy_action list"
  po_rejected :: "policy_action list"
  po_reasoning :: "string list"
  po_metadata :: dict

section \<open>The guardrails\<close>

definition human_review_required :: "learning_result \<Rightarrow> bool" where
  "human_review_required r \<longleftrightarrow> truthy (jget_or (lr_guardrails r) ''requires_human_review'' (JBool True))"

definition learning_allows_auto_apply :: "learning_result \<Rightarrow> bool" where
  "learning_allows_auto_apply r \<longleftrightarrow> truthy (jget_or (lr_guardrails r) ''auto_apply'' (JBool False))"

definition auto_apply_allowed :: "policy_request \<Rightarrow> bool" where
  "auto_apply_allowed q \<longleftrightarrow>
     learning_allows_auto_apply (pq_learning q) \<and> \<not> human_review_required (pq_learning q) \<and>
     f_le (pq_min q) (lr_confidence (pq_learning q))"

definition min_action_delta :: pyfloat where
  "min_action_delta = to_b64 (1 / 1000000)"

definition high_priority_risk_reduction :: pyfloat where
  "high_priority_risk_reduction = to_b64 (- 2 / 1000)"

definition priority_of :: "pyfloat \<Rightarrow> priority" where
  "priority_of delta =
     (if f_le (to_b64 (1 / 10)) (f_abs delta) then High
      else if f_le (to_b64 (3 / 100)) (f_abs delta) then Medium else Low)"

definition meaningful :: "pyfloat \<Rightarrow> bool" where
  "meaningful delta \<longleftrightarrow> \<not> f_le (f_abs delta) min_action_delta"

section \<open>The actions\<close>

definition bucket_action :: "policy_request \<Rightarrow> string \<times> pyfloat \<Rightarrow> policy_action" where
  "bucket_action q bd = (case bd of (bucket, delta) \<Rightarrow>
     if f_le delta (pq_pause q) then
       \<lparr>pa_type = BucketTarget, pa_target = bucket, pa_action = PauseBucket, pa_delta = Some delta,
        pa_auto = False, pa_priority = High,
        pa_reason = ''Learning_Agent recommended a large negative bucket delta ('' @ float_repr delta
          @ ''); pause requires review.''\<rparr>
     else
       (let act = (if f_lt (Fin 0) delta then IncreaseWeight else DecreaseWeight) in
        \<lparr>pa_type = BucketTarget, pa_target = bucket, pa_action = act, pa_delta = Some delta,
         pa_auto = auto_apply_allowed q, pa_priority = priority_of delta,
         pa_reason = ''Learning_Agent recommended '' @ action_text act @ '' for strategy bucket ''
           @ [char_of (39::int)] @ bucket @ [char_of (39::int)] @ '' with delta '' @ float_repr delta
           @ ''.''\<rparr>))"

definition symbol_action :: "policy_request \<Rightarrow> string \<times> pyfloat \<Rightarrow> policy_action" where
  "symbol_action q bd = (case bd of (symbol, delta) \<Rightarrow>
     (let act = (if f_lt (Fin 0) delta then IncreaseBias else DecreaseBias) in
      \<lparr>pa_type = SymbolTarget, pa_target = symbol, pa_action = act, pa_delta = Some delta,
       pa_auto = auto_apply_allowed q, pa_priority = priority_of delta,
       pa_reason = ''Learning_Agent recommended '' @ action_text act @ '' for symbol ''
         @ [char_of (39::int)] @ symbol @ [char_of (39::int)] @ '' with delta '' @ float_repr delta
         @ ''.''\<rparr>))"

definition risk_action :: "string \<times> pyfloat \<Rightarrow> policy_action" where
  "risk_action bd = (case bd of (key, delta) \<Rightarrow>
     if f_lt delta (Fin 0) then
       \<lparr>pa_type = RiskTarget, pa_target = key, pa_action = ReduceRisk, pa_delta = Some delta,
        pa_auto = False,
        pa_priority = (if f_le delta high_priority_risk_reduction then High else Medium),
        pa_reason = ''Learning_Agent recommended reducing risk parameter '' @ [char_of (39::int)] @ key
          @ [char_of (39::int)] @ '' by '' @ float_repr delta @ ''.''\<rparr>
     else
       \<lparr>pa_type = RiskTarget, pa_target = key, pa_action = KeepObserving, pa_delta = Some delta,
        pa_auto = False, pa_priority = Low,
        pa_reason = ''Positive risk delta for '' @ [char_of (39::int)] @ key @ [char_of (39::int)]
          @ '' is not auto-curated; keep observing.''\<rparr>)"

definition curate_deltas :: "(string \<times> pyfloat \<Rightarrow> policy_action) \<Rightarrow> deltas \<Rightarrow> policy_action list" where
  "curate_deltas f d = map f (filter (\<lambda>(_, delta). meaningful delta) d)"

definition review_action :: policy_action where
  "review_action = \<lparr>pa_type = GuardrailTarget, pa_target = ''human_review'', pa_action = RequireReview,
     pa_delta = None, pa_auto = False, pa_priority = High,
     pa_reason = ''Learning_Agent guardrails require human review before applying policy changes.''\<rparr>"

definition observe_action :: policy_action where
  "observe_action = \<lparr>pa_type = GuardrailTarget, pa_target = ''policy'', pa_action = KeepObserving,
     pa_delta = None, pa_auto = False, pa_priority = Low,
     pa_reason = ''No meaningful policy delta was provided by Learning_Agent.''\<rparr>"

section \<open>The curation\<close>

definition delta_actions :: "policy_request \<Rightarrow> policy_action list" where
  "delta_actions q =
     curate_deltas (bucket_action q) (lr_buckets (pq_learning q))
     @ curate_deltas (symbol_action q) (lr_assets (pq_learning q))
     @ curate_deltas risk_action (lr_risk (pq_learning q))"

definition observation_only :: "learning_result \<Rightarrow> bool" where
  "observation_only r \<longleftrightarrow> lr_state r \<in> {''warmup'', ''insufficient_data''}"

definition curate_performance_policy :: "policy_request \<Rightarrow> policy_response" where
  "curate_performance_policy q =
     (let r = pq_learning q in
      if observation_only r then
        \<lparr>po_state = ''observation_only'', po_count = 0, po_actions = [], po_rejected = [],
         po_reasoning = [''Learning state is '' @ lr_state r @ ''; policy changes are observation-only.''],
         po_metadata = [(''learning_state'', JStr (lr_state r)),
           (''confidence_score'', JFloat (lr_confidence r)),
           (''reviewed_closed_plans'', JInt (int (lr_plans r)))]\<rparr>
      else
       (let review = human_review_required r; low = f_lt (lr_confidence r) (pq_min q);
            a1 = delta_actions q @ (if review then [review_action] else []);
            a2 = (if low then map (\<lambda>a. a\<lparr>pa_auto := False\<rparr>) a1 else a1);
            a3 = (if a2 = [] then [observe_action] else a2)
        in \<lparr>po_state = (if list_ex (\<lambda>a. pa_action a = RequireReview) a3 then ''review_required''
              else ''approved_for_review''),
            po_count = length a3, po_actions = a3, po_rejected = [],
            po_reasoning =
              (if review then [''Human review is required by Learning_Agent guardrails.''] else [])
              @ (if low then [''Confidence '' @ fixed2 (lr_confidence r) @ '' is below apply threshold ''
                   @ fixed2 (pq_min q) @ ''; auto_apply disabled.''] else [])
              @ (if a2 = [] then [''No actionable deltas found; keep observing.''] else [])
              @ lr_reasoning r,
            po_metadata = [(''learning_state'', JStr (lr_state r)), (''learning_mode'', JStr (lr_mode r)),
              (''confidence_score'', JFloat (lr_confidence r)),
              (''performance_score'', JFloat (lr_score r)),
              (''reviewed_closed_plans'', JInt (int (lr_plans r))),
              (''auto_apply_allowed'', JBool (auto_apply_allowed q))]\<rparr>))"

section \<open>What the curation guarantees\<close>

text \<open>An action may apply itself only if every guardrail allows it and it is no pause or risk change.\<close>

definition auto_ok :: "policy_request \<Rightarrow> policy_action \<Rightarrow> bool" where
  "auto_ok q a \<longleftrightarrow> (pa_auto a \<longrightarrow>
     auto_apply_allowed q \<and>
     (\<exists>delta. pa_delta a = Some delta \<and> meaningful delta \<and>
       (pa_type a = BucketTarget \<and> \<not> f_le delta (pq_pause q) \<and>
          pa_action a = (if f_lt (Fin 0) delta then IncreaseWeight else DecreaseWeight) \<or>
        pa_type a = SymbolTarget \<and>
          pa_action a = (if f_lt (Fin 0) delta then IncreaseBias else DecreaseBias))))"

lemma in_curate_deltas: "a \<in> set (curate_deltas f d) \<longleftrightarrow>
    (\<exists>n delta. (n, delta) \<in> set d \<and> meaningful delta \<and> a = f (n, delta))"
  by (auto simp: curate_deltas_def)

lemma actions_auto_ok:
  "meaningful delta \<Longrightarrow> auto_ok q (bucket_action q (n, delta))"
  "meaningful delta \<Longrightarrow> auto_ok q (symbol_action q (n, delta))"
  "auto_ok q (risk_action (n, delta))"
  "auto_ok q review_action" "auto_ok q observe_action"
  by (simp_all add: auto_ok_def bucket_action_def symbol_action_def risk_action_def
      review_action_def observe_action_def Let_def)

lemma delta_actions_auto_ok: "a \<in> set (delta_actions q) \<Longrightarrow> auto_ok q a"
  by (auto simp: delta_actions_def in_curate_deltas actions_auto_ok)

lemma auto_ok_off: "auto_ok q (a\<lparr>pa_auto := False\<rparr>)"
  by (simp add: auto_ok_def)

lemma no_review_action:
  "pa_action (bucket_action q x) \<noteq> RequireReview" "pa_action (symbol_action q x) \<noteq> RequireReview"
  "pa_action (risk_action x) \<noteq> RequireReview"
  by (simp_all add: bucket_action_def symbol_action_def risk_action_def Let_def split: prod.split)

lemma delta_actions_no_review: "a \<in> set (delta_actions q) \<Longrightarrow> pa_action a \<noteq> RequireReview"
  by (auto simp: delta_actions_def curate_deltas_def no_review_action)

section \<open>Properties\<close>

lemma auto_fields:
  "pa_auto (bucket_action q (n, delta)) \<Longrightarrow> pa_target (bucket_action q (n, delta)) = n \<and>
     pa_delta (bucket_action q (n, delta)) = Some delta \<and> \<not> f_le delta (pq_pause q) \<and>
     pa_action (bucket_action q (n, delta)) = (if f_lt (Fin 0) delta then IncreaseWeight else DecreaseWeight)"
  "pa_target (symbol_action q (n, delta)) = n" "pa_delta (symbol_action q (n, delta)) = Some delta"
  "pa_action (symbol_action q (n, delta)) = (if f_lt (Fin 0) delta then IncreaseBias else DecreaseBias)"
  "\<not> pa_auto (risk_action (n, delta))" "\<not> pa_auto review_action" "\<not> pa_auto observe_action"
  by (cases "f_le delta (pq_pause q)") (simp_all add: bucket_action_def symbol_action_def
      risk_action_def review_action_def observe_action_def Let_def)

definition directed :: "policy_request \<Rightarrow> policy_action \<Rightarrow> pyfloat \<Rightarrow> bool" where
  "directed q a delta \<longleftrightarrow> pa_delta a = Some delta \<and> meaningful delta \<and>
    ((pa_target a, delta) \<in> set (lr_buckets (pq_learning q)) \<and> \<not> f_le delta (pq_pause q) \<and>
       pa_action a = (if f_lt (Fin 0) delta then IncreaseWeight else DecreaseWeight) \<or>
     (pa_target a, delta) \<in> set (lr_assets (pq_learning q)) \<and>
       pa_action a = (if f_lt (Fin 0) delta then IncreaseBias else DecreaseBias))"

lemma delta_actions_auto:
  assumes "a \<in> set (delta_actions q)" "pa_auto a"
  shows "\<exists>delta. directed q a delta"
proof -
  let ?r = "pq_learning q"
  consider n delta where "(n, delta) \<in> set (lr_buckets ?r)" "meaningful delta" "a = bucket_action q (n, delta)"
    | n delta where "(n, delta) \<in> set (lr_assets ?r)" "meaningful delta" "a = symbol_action q (n, delta)"
    | n delta where "a = risk_action (n, delta)"
    using assms(1) unfolding delta_actions_def set_append Un_iff in_curate_deltas by blast
  then show ?thesis
  proof cases
    case 1
    then show ?thesis using assms(2) auto_fields(1) [of q] unfolding directed_def by metis
  next
    case 2
    then show ?thesis using auto_fields(2-4) [of q] unfolding directed_def by metis
  qed (use assms(2) auto_fields(5) in blast)
qed

lemma observation_no_actions:
  "observation_only (pq_learning q) \<Longrightarrow> po_actions (curate_performance_policy q) = []"
  by (simp add: curate_performance_policy_def Let_def)

text \<open>C37. A policy change may apply itself only under every guardrail: the learning agent allows it
  and asks for no human review, its confidence reaches the threshold and it is past its warm-up; and
  then it is a change of weight or bias in the direction of a meaningful delta the agent gave for that
  very target: pauses, risk changes and observations never apply themselves.\<close>

theorem policy_auto_apply:
  assumes "a \<in> set (po_actions (curate_performance_policy q))" and "pa_auto a"
  shows "learning_allows_auto_apply (pq_learning q) \<and> \<not> human_review_required (pq_learning q) \<and>
    f_le (pq_min q) (lr_confidence (pq_learning q)) \<and> \<not> observation_only (pq_learning q) \<and>
    po_state (curate_performance_policy q) = ''approved_for_review'' \<and>
    (\<exists>delta. directed q a delta)"
proof -
  have obs: "\<not> observation_only (pq_learning q)"
    using assms(1) observation_no_actions by force
  let ?review = "human_review_required (pq_learning q)"
  let ?low = "f_lt (lr_confidence (pq_learning q)) (pq_min q)"
  let ?a1 = "delta_actions q @ (if ?review then [review_action] else [])"
  have acts: "po_actions (curate_performance_policy q) =
      (if ?a1 = [] then [observe_action] else if ?low then map (\<lambda>a. a\<lparr>pa_auto := False\<rparr>) ?a1 else ?a1)"
    using obs by (simp add: curate_performance_policy_def Let_def)
  have a: "a \<in> set (delta_actions q)" and low: "\<not> ?low"
    using assms auto_fields(6,7) unfolding acts by (auto split: if_splits)
  have allowed: "auto_apply_allowed q" using delta_actions_auto_ok [OF a] assms(2) by (simp add: auto_ok_def)
  then have "\<not> ?review" by (simp add: auto_apply_allowed_def)
  moreover have "delta_actions q \<noteq> []" using a by auto
  ultimately have "po_state (curate_performance_policy q) = ''approved_for_review''"
    using obs low delta_actions_no_review
    by (simp add: curate_performance_policy_def Let_def list_ex_iff)
  with obs allowed delta_actions_auto [OF a assms(2)] show ?thesis
    by (simp add: auto_apply_allowed_def)
qed

definition demo_policy :: policy_request where
  "demo_policy = \<lparr>pq_learning = \<lparr>lr_state = ''active'', lr_mode = ''m'', lr_confidence = Fin 1,
       lr_plans = 9, lr_score = Fin 1, lr_buckets = [(''b'', Fin (1 / 2))], lr_assets = [], lr_risk = [],
       lr_guardrails = [(''requires_human_review'', JBool False), (''auto_apply'', JBool True)],
       lr_reasoning = []\<rparr>, pq_min = Fin (1 / 2), pq_pause = Fin (- 1 / 2)\<rparr>"

theorem policy_auto_apply_witness:
  "learning_allows_auto_apply (pq_learning demo_policy) \<and>
     po_state (curate_performance_policy demo_policy) = ''approved_for_review''"
proof -
  have m: "meaningful (Fin (1 / 2))" by (simp add: meaningful_def min_action_delta_def float_simps)
  have "bucket_action demo_policy (''b'', Fin (1 / 2)) \<in>
      set (po_actions (curate_performance_policy demo_policy))"
    by (simp add: curate_performance_policy_def demo_policy_def observation_only_def delta_actions_def
        curate_deltas_def m human_review_required_def dict_simps float_simps jget_or_def)
  moreover have "pa_auto (bucket_action demo_policy (''b'', Fin (1 / 2)))"
    by (simp add: bucket_action_def demo_policy_def auto_apply_allowed_def learning_allows_auto_apply_def
        human_review_required_def dict_simps float_simps jget_or_def)
  ultimately show ?thesis using policy_auto_apply by blast
qed

end
