(* ===== verification/Security.thy ===== *)
theory Security
  imports Remote_Sandbox
begin

text \<open>
  \<open>app/security.py\<close>: the role keys of the HTTP interface, the role each route requires and the
  middleware that decides every request.
\<close>

section \<open>Configuration\<close>

datatype role = Read | Execute | Admin

fun role_text :: "role \<Rightarrow> string" where
  "role_text Read = ''read''"
| "role_text Execute = ''execute''"
| "role_text Admin = ''admin''"

record auth_config =
  au_read :: string
  au_execute :: string
  au_admin :: string
  au_required :: bool
  au_production :: bool

definition env_key :: "(string \<Rightarrow> string option) \<Rightarrow> string \<Rightarrow> string" where
  "env_key env name = strip (getenv env name [])"

definition or_else :: "string \<Rightarrow> string \<Rightarrow> string" where
  "or_else x y = (if x = [] then y else x)"

definition auth_from_env :: "(string \<Rightarrow> string option) \<Rightarrow> auth_config res" where
  "auth_from_env env =
     (let production = is_production env;
          shared = env_key env ''CURATOR_API_KEY'';
          adm = or_else (env_key env ''CURATOR_ADMIN_API_KEY'') shared;
          exe = or_else (or_else (env_key env ''CURATOR_EXECUTE_API_KEY'') shared) adm;
          rd = or_else (or_else (or_else (env_key env ''CURATOR_READ_API_KEY'') shared) exe) adm;
          required = production \<or> rd \<noteq> [] \<or> exe \<noteq> [] \<or> adm \<noteq> [] \<or>
            env_bool env ''CURATOR_REQUIRE_API_KEY'' False;
          missing = map (\<lambda>(r, k). role_text r)
            (filter (\<lambda>(r, k). k = []) [(Read, rd), (Execute, exe), (Admin, adm)])
      in if required \<and> missing \<noteq> [] then
           Inl (RuntimeError (''Curator API authentication is required but API keys are missing ''
             @ ''for roles: '' @ join '','' missing
             @ ''. Configure CURATOR_API_KEY or role-specific keys.''))
         else Inr \<lparr>au_read = rd, au_execute = exe, au_admin = adm, au_required = required,
           au_production = production\<rparr>)"

section \<open>Roles of routes\<close>

definition open_paths :: "string list" where
  "open_paths = [''/health'', ''/ready'', ''/version'', ''/docs'', ''/docs/oauth2-redirect'',
     ''/openapi.json'', ''/redoc'']"

definition admin_suffixes :: "string list" where
  "admin_suffixes = [''/approve'', ''/approve-from-backtest'', ''/deprecate'', ''/versions'',
     ''/promote'', ''/rollback'']"

definition required_role :: "string \<Rightarrow> string \<Rightarrow> role option" where
  "required_role m path =
     (if path \<in> set open_paths then None
      else if m = ''POST'' \<and> path \<in> {''/skills/register'', ''/curate/performance-policy''} then Some Admin
      else if m = ''POST'' \<and> startswith path ''/skills/'' \<and> list_ex (endswith path) admin_suffixes
      then Some Admin
      else if m = ''POST'' \<and> (path = ''/skills/shadow-ensemble'' \<or> endswith path ''/execute'')
      then Some Execute
      else Some Read)"

definition constant_time_match :: "string \<Rightarrow> string \<Rightarrow> bool" where
  "constant_time_match supplied expected \<longleftrightarrow>
     supplied \<noteq> [] \<and> expected \<noteq> [] \<and> utf8 supplied = utf8 expected"

definition accepted_keys :: "role \<Rightarrow> auth_config \<Rightarrow> string list" where
  "accepted_keys r c = [au_admin c] @ (if r \<in> {Read, Execute} then [au_execute c] else [])
     @ (if r = Read then [au_read c] else [])"

definition authorized :: "string \<Rightarrow> role \<Rightarrow> auth_config \<Rightarrow> bool" where
  "authorized supplied r c \<longleftrightarrow>
     list_ex (constant_time_match supplied) (rev (remdups (rev (accepted_keys r c))))"

text \<open>\<open>_auth_error\<close> and the middleware; the timestamp of the error body is a parameter.\<close>

datatype verdict = Pass | Deny "int \<times> dict"

definition auth_error :: "string \<Rightarrow> string option \<Rightarrow> int \<Rightarrow> string \<Rightarrow> role \<Rightarrow> int \<times> dict" where
  "auth_error stamp correlation code err r =
     (code,
      [(''status'', JStr ''error''), (''agent_type'', JStr ''curator-agent''), (''version'', JStr ''0.1.0''),
       (''schema_version'', JStr ''1.0''), (''timestamp'', JStr stamp),
       (''correlation_id'', opt_json correlation), (''data'', JNull),
       (''metadata'', JObj [(''required_role'', JStr (role_text r))]),
       (''error'', JObj [(''code'', JStr err), (''message'',
          JStr (if code = 401 then ''API key is required.'' else ''API key is not authorized.''))]),
       (''confidence_score'', JNull)])"

definition api_key_middleware :: "auth_config \<Rightarrow> string \<Rightarrow> string option \<Rightarrow> string \<Rightarrow> string
    \<Rightarrow> string option \<Rightarrow> verdict" where
  "api_key_middleware c stamp correlation m path key =
     (case required_role (upper m) path of
        None \<Rightarrow> Pass
      | Some r \<Rightarrow>
          if \<not> au_required c then Pass
          else if \<not> str_true key then Deny (auth_error stamp correlation 401 ''missing_api_key'' r)
          else if \<not> authorized (the key) r c
          then Deny (auth_error stamp correlation 403 ''insufficient_api_key_role'' r)
          else Pass)"

section \<open>What the access control guarantees\<close>

lemma or_else_Nil [simp]: "or_else x y = [] \<longleftrightarrow> x = [] \<and> y = []"
  by (simp add: or_else_def)

lemma auth_from_env_ok:
  assumes "auth_from_env env = Inr c"
  shows "(au_production c \<longleftrightarrow> is_production env) \<and> (is_production env \<longrightarrow> au_required c) \<and>
    (au_required c \<longrightarrow> au_read c \<noteq> [] \<and> au_execute c \<noteq> [] \<and> au_admin c \<noteq> []) \<and>
    (\<not> au_required c \<longrightarrow> au_read c = [] \<and> au_execute c = [] \<and> au_admin c = [])"
  using assms unfolding auth_from_env_def Let_def by (auto split: if_splits)

lemma match_iff: "constant_time_match s e \<longleftrightarrow> s \<noteq> [] \<and> s = e"
  using utf8_inj by (auto simp: constant_time_match_def)

lemma authorized_iff: "authorized s r c \<longleftrightarrow> s \<noteq> [] \<and> s \<in> set (accepted_keys r c)"
  by (auto simp: authorized_def match_iff list_ex_iff)

fun role_rank :: "role \<Rightarrow> nat" where
  "role_rank Read = 0"
| "role_rank Execute = 1"
| "role_rank Admin = 2"

instantiation role :: linorder
begin

definition less_eq_role :: "role \<Rightarrow> role \<Rightarrow> bool" where
  "less_eq_role a b \<longleftrightarrow> role_rank a \<le> role_rank b"

definition less_role :: "role \<Rightarrow> role \<Rightarrow> bool" where
  "less_role a b \<longleftrightarrow> role_rank a < role_rank b"

instance
proof
  fix a b :: role
  show "a \<le> b \<Longrightarrow> b \<le> a \<Longrightarrow> a = b" by (cases a; cases b) (simp_all add: less_eq_role_def)
qed (auto simp: less_eq_role_def less_role_def)

end

lemma authorized_mono: "a \<le> b \<Longrightarrow> authorized s b c \<Longrightarrow> authorized s a c"
  by (cases a; cases b) (auto simp: authorized_iff accepted_keys_def less_eq_role_def)

lemma middleware_Pass:
  "api_key_middleware c stamp corr m path key = Pass \<longleftrightarrow>
     (case required_role (upper m) path of None \<Rightarrow> True
      | Some r \<Rightarrow> au_required c \<longrightarrow> (\<exists>s. key = Some s \<and> s \<noteq> [] \<and> s \<in> set (accepted_keys r c)))"
  by (auto simp: api_key_middleware_def authorized_iff str_true_def split: option.split)

lemma upper_POST: "upper ''POST'' = ''POST''"
  by (simp add: text_simps)

text \<open>The routes that change the registry.\<close>

definition admin_route :: "string \<Rightarrow> bool" where
  "admin_route path \<longleftrightarrow> path \<in> {''/skills/register'', ''/curate/performance-policy''} \<or>
     (\<exists>i suffix. suffix \<in> set admin_suffixes \<and> path = ''/skills/'' @ i @ suffix)"

lemma required_role_admin: "admin_route path \<Longrightarrow> required_role ''POST'' path = Some Admin"
proof -
  assume r: "admin_route path"
  then have "startswith path ''/skills/'' \<or> path = ''/curate/performance-policy''"
    by (auto simp: admin_route_def startswith_iff)
  then have "path \<notin> set open_paths" by (auto simp: open_paths_def startswith_def)
  moreover have "path \<in> {''/skills/register'', ''/curate/performance-policy''} \<or>
      startswith path ''/skills/'' \<and> list_ex (endswith path) admin_suffixes"
  proof (cases "path \<in> {''/skills/register'', ''/curate/performance-policy''}")
    case False
    then obtain i suffix where x: "suffix \<in> set admin_suffixes" "path = ''/skills/'' @ i @ suffix"
      using r unfolding admin_route_def by blast
    have "endswith path suffix" unfolding x(2) endswith_iff by (rule exI [of _ "''/skills/'' @ i"]) simp
    moreover have "startswith path ''/skills/''" unfolding x(2) by (rule startswith_append)
    ultimately show ?thesis using x(1) unfolding list_ex_iff by blast
  qed blast
  ultimately show ?thesis by (auto simp: required_role_def)
qed

lemma required_role_None: "required_role m path = None \<longleftrightarrow> path \<in> set open_paths"
  by (auto simp: required_role_def)

section \<open>Properties\<close>

text \<open>The key of a role.\<close>

fun role_key :: "auth_config \<Rightarrow> role \<Rightarrow> string" where
  "role_key c Read = au_read c"
| "role_key c Execute = au_execute c"
| "role_key c Admin = au_admin c"

lemma ex_role: "(\<exists>b. P b) \<longleftrightarrow> P Read \<or> P Execute \<or> P Admin"
  by (auto intro: role.exhaust) (case_tac b; blast)

lemma accepted_keys_iff: "s \<in> set (accepted_keys r c) \<longleftrightarrow> (\<exists>b. r \<le> b \<and> s = role_key c b)"
  unfolding ex_role by (cases r) (auto simp: accepted_keys_def less_eq_role_def)

text \<open>A production environment with one shared key, for the examples.\<close>

definition demo_environment :: "string \<Rightarrow> string option" where
  "demo_environment = [''APP_ENV'' \<mapsto> ''production'', ''CURATOR_API_KEY'' \<mapsto> ''k'',
     ''CURATOR_ADMIN_API_KEY'' \<mapsto> ''boss'']"

definition demo_auth :: auth_config where
  "demo_auth = \<lparr>au_read = ''k'', au_execute = ''k'', au_admin = ''boss'', au_required = True,
     au_production = True\<rparr>"

lemma demo_production: "is_production demo_environment"
proof -
  have "getenv demo_environment ''APP_ENV'' d = ''production''" for d
    by (simp add: getenv_def demo_environment_def)
  moreover have "lower (strip ''production'') = ''production''"
    by (simp add: text_simps)
  ultimately show ?thesis by (simp add: is_production_def)
qed

lemma demo_keys:
  "env_key demo_environment ''CURATOR_API_KEY'' = ''k''"
  "env_key demo_environment ''CURATOR_ADMIN_API_KEY'' = ''boss''"
  "env_key demo_environment ''CURATOR_EXECUTE_API_KEY'' = []"
  "env_key demo_environment ''CURATOR_READ_API_KEY'' = []"
  by (simp_all add: env_key_def demo_environment_def getenv_def text_simps)

lemma demo_auth_from_env: "auth_from_env demo_environment = Inr demo_auth"
  by (simp add: auth_from_env_def demo_production demo_keys or_else_def demo_auth_def Let_def)

text \<open>C15. In production the service does not start without keys, and with them every request is
  decided by its key alone: it passes if its path is one of the open operational paths or if it
  carries the non-empty key of a role at or above the one its method and path require.\<close>

theorem production_access:
  assumes "is_production env" and "auth_from_env env = Inr c"
  shows "api_key_middleware c stamp corr m path key = Pass \<longleftrightarrow>
    path \<in> set open_paths \<or>
    (\<exists>r b. required_role (upper m) path = Some r \<and> r \<le> b \<and> key = Some (role_key c b))"
proof -
  have keys: "au_required c" "role_key c b \<noteq> []" for b
    using auth_from_env_ok [OF assms(2)] assms(1) by (cases b; simp)+
  show ?thesis
    using required_role_None [of "upper m" path]
    by (cases "required_role (upper m) path") (auto simp: middleware_Pass accepted_keys_iff keys)
qed

theorem production_access_witness:
  "api_key_middleware demo_auth ''t'' None ''GET'' ''/skills'' (Some ''boss'') = Pass"
proof -
  have "required_role (upper ''GET'') ''/skills'' = Some Read"
    by (simp add: required_role_def open_paths_def text_simps)
  moreover have "Read \<le> Admin" "Some ''boss'' = Some (role_key demo_auth Admin)"
    by (simp_all add: less_eq_role_def demo_auth_def)
  ultimately show ?thesis
    using production_access [OF demo_production demo_auth_from_env, of "''t''" None "''GET''" "''/skills''"]
    by blast
qed

text \<open>Registering, approving, deprecating, versioning, promoting, rolling back and curating
  policy need the admin key. Whenever access control is on, a POST to one of these routes with any
  other key, or none, is answered with 403 or 401 and does not reach its handler.\<close>

theorem admin_routes_need_admin_key:
  assumes "auth_from_env env = Inr c" and "au_required c" and "upper m = ''POST''" and "admin_route path"
  shows "api_key_middleware c stamp corr m path key =
    (if key = Some (au_admin c) then Pass
     else if key = None \<or> key = Some [] then Deny (auth_error stamp corr 401 ''missing_api_key'' Admin)
     else Deny (auth_error stamp corr 403 ''insufficient_api_key_role'' Admin))"
proof -
  have "au_admin c \<noteq> []" using auth_from_env_ok [OF assms(1)] assms(2) by simp
  then show ?thesis
    using assms(2,3) required_role_admin [OF assms(4)]
    by (auto simp: api_key_middleware_def authorized_iff accepted_keys_def str_true_def)
qed

theorem admin_routes_need_admin_key_witness:
  "api_key_middleware demo_auth ''t'' None ''POST'' ''/skills/a/approve'' (Some ''k'') =
     Deny (auth_error ''t'' None 403 ''insufficient_api_key_role'' Admin)"
proof -
  have "admin_route ''/skills/a/approve''"
    unfolding admin_route_def admin_suffixes_def
    by (rule disjI2, rule exI [of _ "''a''"], rule exI [of _ "''/approve''"]) simp
  from admin_routes_need_admin_key [OF demo_auth_from_env _ upper_POST this] show ?thesis
    by (simp add: demo_auth_def)
qed

end
