(* ===== verification/Curator_App.thy ===== *)
theory Curator_App
  imports Version_Api Recommendations Performance_Policy Security
begin

text \<open>
  \<open>app/main.py\<close>, \<open>app/main_legacy.py\<close>, \<open>app/seed_skills.py\<close>, \<open>app/readiness.py\<close> and
  \<open>app/system_contract.py\<close>: how the application is put together at start-up, and its HTTP
  handlers. A handler returns the data of its response or the exception that becomes the
  response; the time stamps of the responses are parameters.
\<close>

section \<open>Seeding\<close>

text \<open>\<open>DEFAULT_SKILL_CODE\<close>, line by line.\<close>

definition default_skill_code :: string where
  "default_skill_code = join newline
     [[],
      ''def score_signal(final_score):'',
      ''    if final_score >= 0.55:'',
      ''        return {\"result\": \"pass\", \"confidence\": final_score, \"reason\": \"score passed threshold\"}'',
      ''    return {\"result\": \"observe\", \"confidence\": final_score, \"reason\": \"score below threshold\"}'',
      []]"

definition seed_request :: "(string \<Rightarrow> string option) \<Rightarrow> create_request" where
  "seed_request env =
     \<lparr>cr_id = Some (getenv env ''CURATOR_SEED_BACKTEST_SKILL_ID'' ''hourly-sma-crossover''),
      cr_family = None, cr_version = ''1.0.0'', cr_parent = None, cr_stage = Candidate,
      cr_name = getenv env ''CURATOR_SEED_BACKTEST_SKILL_NAME'' ''Hourly Backtest Reference Skill'',
      cr_description = ''Deterministic reference skill used to align Backtest_Agent stored results with Curator_Agent lifecycle.'',
      cr_code = default_skill_code, cr_tags = [''backtest'', ''reference'', ''score''],
      cr_context = [(''asset_class'', JStr ''us_equity''), (''strategy_bucket'', JStr ''value_rebound'')],
      cr_input_schema = [(''final_score'', JStr ''float'')],
      cr_output_schema = [(''result'', JStr ''str''), (''confidence'', JStr ''float''),
        (''reason'', JStr ''str'')],
      cr_source = Some ''Curator_Agent''\<rparr>"

text \<open>
  \<open>seed_default_backtest_skill\<close>: an invalid request or a conflicting registration escapes; a
  refused approval does not.
\<close>

definition seed_skill :: "(string \<Rightarrow> string option) \<Rightarrow> reg_env \<Rightarrow> string \<Rightarrow> int \<Rightarrow> (nat \<Rightarrow> int) \<Rightarrow> registry
    \<Rightarrow> skill_detail res \<times> registry" where
  "seed_skill env renv uuid now clk rows =
     (let q = seed_request env in
      if \<not> create_request_ok q then (Inl (ValueError ''validation_error''), rows)
      else (case register renv uuid now q rows of
          (Inl e, rows1) \<Rightarrow> (Inl e, rows1)
        | (Inr k, rows1) \<Rightarrow>
            if lower (strip (getenv env ''CURATOR_SEED_BACKTEST_SKILL_APPROVED'' ''true''))
                \<in> {''1'', ''true'', ''yes'', ''y'', ''on''} then
              (case approve (sk_id k) (Some ''curator-seed'')
                  (Some ''deterministic backtest skill seed'') clk rows1 of
                 (Inl (ValueError _), rows2) \<Rightarrow> (Inr k, rows2)
               | r \<Rightarrow> r)
            else (Inr k, rows1)))"

section \<open>Start-up\<close>

text \<open>\<open>_build_isolated_executor\<close>: the remote worker if its URL is set, else the local container.\<close>

datatype isolated = RemoteWorker remote | LocalContainer optional_config container

definition no_container_args :: container_args where
  "no_container_args = \<lparr>ca_image = None, ca_docker = None, ca_memory = None, ca_cpus = None,
     ca_pids = None, ca_root = None, ca_require_root = None\<rparr>"

definition build_isolated_executor :: "host \<Rightarrow> isolated res" where
  "build_isolated_executor h =
     (let env = h_env h; url = strip (getenv env ''CURATOR_SANDBOX_WORKER_URL'' []) in
      if url \<noteq> [] then res_map RemoteWorker (remote_init env (Some url) None None)
      else if env_bool env ''CURATOR_REQUIRE_SANDBOX_WORKER'' False then
        Inl (RuntimeError
          ''CURATOR_REQUIRE_SANDBOX_WORKER=true but CURATOR_SANDBOX_WORKER_URL is missing.'')
      else res_map (LocalContainer (optional_init env)) (container_init h no_container_args))"

text \<open>What \<open>main_legacy.create_app\<close> closes over, and what \<open>main.create_app\<close> adds to it.\<close>

record legacy_app =
  ap_database :: database
  ap_auth :: auth_config
  ap_seed :: "string option"
  ap_telemetry :: bool

record app = legacy_app +
  ap_isolated :: isolated
  ap_seeded :: "string option"

text \<open>
  \<open>main_legacy.create_app\<close>: the seed if it is enabled, then the access control; an exception ends
  the start-up.
\<close>

definition seed_if_enabled :: "(string \<Rightarrow> string option) \<Rightarrow> reg_env \<Rightarrow> string \<Rightarrow> int \<Rightarrow> (nat \<Rightarrow> int)
    \<Rightarrow> registry \<Rightarrow> string option res \<times> registry" where
  "seed_if_enabled env renv uuid now clk rows =
     (if env_bool env ''CURATOR_SEED_BACKTEST_SKILL'' True then
        (case seed_skill env renv uuid now clk rows of
           (r, rows1) \<Rightarrow> (res_map (\<lambda>k. Some (sk_id k)) r, rows1))
      else (Inr None, rows))"

definition legacy_create_app :: "(string \<Rightarrow> string option) \<Rightarrow> reg_env \<Rightarrow> string \<Rightarrow> int \<Rightarrow> (nat \<Rightarrow> int)
    \<Rightarrow> database \<Rightarrow> registry \<Rightarrow> legacy_app res \<times> registry" where
  "legacy_create_app env renv uuid now clk db rows =
     (case seed_if_enabled env renv uuid now clk rows of
        (Inl e, rows1) \<Rightarrow> (Inl e, rows1)
      | (Inr seed, rows1) \<Rightarrow>
          (res_map (\<lambda>auth. \<lparr>ap_database = db, ap_auth = auth, ap_seed = seed,
              ap_telemetry = env_bool env ''CURATOR_REQUIRE_DATABASE_TELEMETRY'' False\<rparr>)
            (auth_from_env env), rows1))"

text \<open>
  \<open>_seeded_backtest_skill_id\<close> and \<open>main.create_app\<close>: the registry, the database client, the
  executor, then the application of \<open>main_legacy\<close>, in this order.
\<close>

definition seeded_backtest_skill_id :: "(string \<Rightarrow> string option) \<Rightarrow> registry \<Rightarrow> string option" where
  "seeded_backtest_skill_id env rows =
     (let i = getenv env ''CURATOR_SEED_BACKTEST_SKILL_ID'' ''hourly-sma-crossover'' in
      if \<not> env_bool env ''CURATOR_SEED_BACKTEST_SKILL'' True then None
      else (case get rows i of Inl _ \<Rightarrow> None | Inr _ \<Rightarrow> Some i))"

definition create_app :: "host \<Rightarrow> reg_env \<Rightarrow> string \<Rightarrow> int \<Rightarrow> (nat \<Rightarrow> int) \<Rightarrow> registry \<Rightarrow> app res \<times> registry" where
  "create_app h renv uuid now clk table =
     (let env = h_env h in
      case init_db table of Inl e \<Rightarrow> (Inl e, table) | Inr rows \<Rightarrow>
      (case database_init env None None None of Inl e \<Rightarrow> (Inl e, rows) | Inr db \<Rightarrow>
      (case build_isolated_executor h of Inl e \<Rightarrow> (Inl e, rows) | Inr ex \<Rightarrow>
      (case legacy_create_app env renv uuid now clk db rows of (r, rows1) \<Rightarrow>
         (res_map (\<lambda>a. legacy_app.extend a
             \<lparr>ap_isolated = ex, ap_seeded = seeded_backtest_skill_id env rows1\<rparr>) r, rows1)))))"

text \<open>
  Importing \<open>app.main\<close>: the import of \<open>main_legacy\<close> already builds an application with its own
  registry and database client on the same file, then \<open>app = create_app()\<close> builds the one that is
  served. Each has its own readings of the clock and of \<open>uuid4\<close>.
\<close>

definition import_legacy :: "(string \<Rightarrow> string option) \<Rightarrow> reg_env \<Rightarrow> string \<Rightarrow> int \<Rightarrow> (nat \<Rightarrow> int)
    \<Rightarrow> registry \<Rightarrow> legacy_app res \<times> registry" where
  "import_legacy env renv uuid now clk table =
     (case init_db table of Inl e \<Rightarrow> (Inl e, table) | Inr rows \<Rightarrow>
      (case database_init env None None None of Inl e \<Rightarrow> (Inl e, rows)
       | Inr db \<Rightarrow> legacy_create_app env renv uuid now clk db rows))"

record readings =
  rd_stamp :: string
  rd_uuid :: string
  rd_now :: int
  rd_clock :: "nat \<Rightarrow> int"

definition start_service :: "host \<Rightarrow> reg_env \<Rightarrow> readings \<Rightarrow> readings \<Rightarrow> registry \<Rightarrow> app res \<times> registry" where
  "start_service h renv rd1 rd2 table =
     (case import_legacy (h_env h) renv (rd_uuid rd1) (rd_now rd1) (rd_clock rd1) table of
        (Inl e, rows) \<Rightarrow> (Inl e, rows)
      | (Inr _, rows) \<Rightarrow> create_app h renv (rd_uuid rd2) (rd_now rd2) (rd_clock rd2) rows)"

text \<open>The flags \<open>create_app\<close> leaves on \<open>app.state\<close>.\<close>

definition state_flags :: "app \<Rightarrow> dict" where
  "state_flags a =
     (let worker = (case ap_isolated a of RemoteWorker _ \<Rightarrow> True | LocalContainer _ _ \<Rightarrow> False) in
      [(''skill_schema_contracts_enabled'', JBool True),
       (''confidence_calibration_enabled'', JBool True),
       (''performance_decay_advisory_enabled'', JBool True),
       (''champion_challenger_shadow_enabled'', JBool True),
       (''sandbox_worker_enabled'', JBool worker),
       (''sandbox_worker_url'', (case ap_isolated a of
          RemoteWorker rm \<Rightarrow> JStr (rm_url rm) | LocalContainer _ _ \<Rightarrow> JNull)),
       (''container_sandbox_enabled'', (case ap_isolated a of
          RemoteWorker _ \<Rightarrow> JBool True | LocalContainer cfg _ \<Rightarrow> JBool (op_enabled cfg))),
       (''container_sandbox_fallback_enabled'', (case ap_isolated a of
          RemoteWorker _ \<Rightarrow> JBool False | LocalContainer cfg _ \<Rightarrow> JBool (op_fallback cfg)))])"

text \<open>The executor of the application, in the world of one request.\<close>

record world =
  wd_host :: host
  wd_net :: net
  wd_parse :: parser
  wd_skill :: skill_world
  wd_send :: network

definition isolated_exec :: "isolated \<Rightarrow> world \<Rightarrow> nat executor" where
  "isolated_exec ex w = (case ex of
       RemoteWorker rm \<Rightarrow> remote_exec rm (wd_net w)
     | LocalContainer cfg c \<Rightarrow> local_exec cfg (wd_host w) c (wd_parse w) (wd_skill w))"

definition app_exec :: "app \<Rightarrow> registry \<Rightarrow> world \<Rightarrow> nat executor" where
  "app_exec a rows w =
     performance_execute (ap_database a) (wd_send w) (schema_execute rows (isolated_exec (ap_isolated a) w))"

section \<open>Operational endpoints\<close>

definition contract_response :: "string \<Rightarrow> string \<Rightarrow> json \<Rightarrow> dict \<Rightarrow> json \<Rightarrow> json \<Rightarrow> dict" where
  "contract_response stamp status data metadata err confidence =
     [(''status'', JStr status), (''agent_type'', JStr ''curator-agent''), (''version'', JStr ''0.1.0''),
      (''schema_version'', JStr ''1.0''), (''timestamp'', JStr stamp), (''correlation_id'', JNull),
      (''data'', data), (''metadata'', JObj metadata), (''error'', err),
      (''confidence_score'', confidence)]"

definition version_endpoint :: "string \<Rightarrow> dict" where
  "version_endpoint stamp = contract_response stamp ''success''
     (JObj [(''agent_type'', JStr ''curator-agent''), (''version'', JStr ''0.1.0''),
        (''service_version'', JStr ''0.2.0''), (''schema_version'', JStr ''1.0''),
        (''api_contract'', JStr ''multi-agent-trading-api-contract'')])
     [(''required_operational_endpoints'', JArr [JStr ''/health'', JStr ''/ready'', JStr ''/version''])]
     JNull JNull"

definition health_data :: "'a legacy_app_scheme \<Rightarrow> json" where
  "health_data a = JObj
     [(''status'', JStr ''healthy''), (''storage'', JStr ''sqlite''), (''execution_enabled'', JBool True),
      (''execution_mode'', JStr ''restricted_process_signal_only''),
      (''database_telemetry_enabled'', JBool (db_enabled (ap_database a))),
      (''database_telemetry_required'', JBool (ap_telemetry a)),
      (''database_backtest_status_enabled'', JBool (db_enabled (ap_database a))),
      (''seeded_backtest_skill_id'', opt_json (ap_seed a))]"

text \<open>The defaults of \<open>StandardResponse\<close>, the envelope of the other handlers.\<close>

definition standard_response :: "json \<Rightarrow> dict" where
  "standard_response data =
     [(''status'', JStr ''success''), (''agent_type'', JStr ''curator-agent''), (''version'', JStr ''0.1.0''),
      (''data'', data)]"

text \<open>The optimistic \<open>/ready\<close> of \<open>main_legacy\<close>, which \<open>readiness.py\<close> takes off the routes.\<close>

definition legacy_ready :: "string \<Rightarrow> 'a legacy_app_scheme \<Rightarrow> dict" where
  "legacy_ready stamp a = contract_response stamp ''success''
     (JObj [(''ready'', JBool True), (''storage'', JStr ''sqlite''), (''execution_enabled'', JBool True),
        (''database_telemetry_enabled'', JBool (db_enabled (ap_database a))),
        (''database_telemetry_required'', JBool (ap_telemetry a)),
        (''database_backtest_status_enabled'', JBool (db_enabled (ap_database a))),
        (''seeded_backtest_skill_id'', opt_json (ap_seed a)),
        (''performance_policy_endpoint'', JStr ''/curate/performance-policy''),
        (''skill_register_endpoint'', JStr ''/skills/register''),
        (''skill_list_endpoint'', JStr ''/skills''),
        (''skill_search_endpoint'', JStr ''/skills/search''),
        (''skill_recommend_endpoint'', JStr ''/skills/recommend''),
        (''skill_backtest_status_endpoint'', JStr ''/skills/{skill_id}/backtest-status''),
        (''skill_approve_from_backtest_endpoint'', JStr ''/skills/{skill_id}/approve-from-backtest''),
        (''skill_execute_endpoint'', JStr ''/skills/{skill_id}/execute'')])
     [(''contract_source'', JStr ''curator-agent-runtime-contract'')] JNull (JFloat (Fin 1))"

text \<open>
  \<open>executor_readiness\<close>: the chain of decorators, outermost first, each with what its
  \<open>readiness()\<close> returns if it has one; at most twelve are visited.
\<close>

definition no_probe :: dict where
  "no_probe = [(''ready'', JBool True), (''mode'', JStr ''process''),
     (''secure_execution_ready'', JBool False), (''degraded'', JBool True),
     (''reason'', JStr ''executor_has_no_runtime_probe''), (''isolation'', best_effort)]"

definition executor_readiness :: "json option list \<Rightarrow> dict" where
  "executor_readiness chain =
     (case List.find (\<lambda>p. case p of Some (JObj _) \<Rightarrow> True | _ \<Rightarrow> False) (take 12 chain) of
        Some (Some (JObj d)) \<Rightarrow> d | _ \<Rightarrow> no_probe)"

definition isolated_readiness :: "isolated \<Rightarrow> world \<Rightarrow> dict res" where
  "isolated_readiness ex w = (case ex of
       RemoteWorker rm \<Rightarrow> remote_readiness rm (wd_net w)
     | LocalContainer cfg c \<Rightarrow> Inr (optional_readiness cfg (container_readiness (wd_host w) c (Fin 3))))"

definition ready_blockers :: "dict \<Rightarrow> bool \<Rightarrow> string list" where
  "ready_blockers execution database_ready =
     (if truthy (jget execution ''ready'') then []
      else [py_str (py_or (jget execution ''reason'') (JStr ''execution_runtime_unavailable''))])
     @ (if database_ready then [] else [''required_database_telemetry_not_configured''])"

definition runtime_ready :: "string \<Rightarrow> app \<Rightarrow> (string \<Rightarrow> string option) \<Rightarrow> dict \<Rightarrow> int \<times> dict" where
  "runtime_ready stamp a env execution =
     (let required = env_bool env ''CURATOR_REQUIRE_DATABASE_TELEMETRY'' False;
          enabled = db_enabled (ap_database a); database_ready = (enabled \<or> \<not> required);
          ok = (truthy (jget execution ''ready'') \<and> database_ready)
      in (if ok then 200 else 503,
          contract_response stamp (if ok then ''success'' else ''unavailable'')
            (JObj [(''ready'', JBool ok), (''storage'', JStr ''sqlite''), (''execution_enabled'', JBool True),
               (''execution'', JObj execution), (''database_telemetry_enabled'', JBool enabled),
               (''database_telemetry_required'', JBool required),
               (''database_telemetry_ready'', JBool database_ready),
               (''database_backtest_status_enabled'', JBool enabled),
               (''seeded_backtest_skill_id'', opt_json (ap_seeded a)),
               (''performance_policy_endpoint'', JStr ''/curate/performance-policy''),
               (''skill_register_endpoint'', JStr ''/skills/register''),
               (''skill_list_endpoint'', JStr ''/skills''),
               (''skill_search_endpoint'', JStr ''/skills/search''),
               (''skill_recommend_endpoint'', JStr ''/skills/recommend''),
               (''skill_backtest_status_endpoint'', JStr ''/skills/{skill_id}/backtest-status''),
               (''skill_approve_from_backtest_endpoint'',
                  JStr ''/skills/{skill_id}/approve-from-backtest''),
               (''skill_execute_endpoint'', JStr ''/skills/{skill_id}/execute''),
               (''blockers'', JArr (map JStr (ready_blockers execution database_ready)))])
            [(''contract_source'', JStr ''curator-agent-runtime-contract''),
             (''readiness_contract'', JStr ''curator-agent-runtime-readiness.v1''),
             (''liveness_endpoint'', JStr ''/health'')]
            (if ok then JNull else JObj [(''code'', JStr ''runtime_not_ready''), (''message'',
               JStr ''One or more required Curator runtime dependencies are unavailable.'')])
            (JFloat (Fin 1))))"

end
