(* ===== verification/Worker_Service.thy ===== *)
theory Worker_Service
  imports Curator_App
begin

text \<open>
  \<open>create_worker_app\<close> of \<open>app/sandbox_worker.py\<close>: what the worker closes over, and what this means
  for a request that somebody captured and sends again.
\<close>

section \<open>Start-up of the worker\<close>

record worker_app =
  wk_key :: string
  wk_limits :: worker_limits
  wk_executor :: container
  wk_guard :: guard
  wk_permits :: nat

definition create_worker_app :: "host \<Rightarrow> container option \<Rightarrow> string option \<Rightarrow> worker_limits option
    \<Rightarrow> guard option \<Rightarrow> worker_app res" where
  "create_worker_app h executor key limits g =
     res_bind (require_worker_api_key (h_env h) key) (\<lambda>k.
     res_bind (case limits of Some l \<Rightarrow> Inr l | None \<Rightarrow> limits_from_env (h_env h)) (\<lambda>l.
     res_bind (case executor of Some c \<Rightarrow> Inr c | None \<Rightarrow> container_init h no_container_args) (\<lambda>c.
       if wl_concurrency l < 0 then Inl (ValueError ''semaphore initial value must be >= 0'')
       else Inr \<lparr>wk_key = k, wk_limits = l, wk_executor = c,
         wk_guard = (case g of Some g \<Rightarrow> g | None \<Rightarrow> new_guard (wl_skew l * 2)),
         wk_permits = nat (wl_concurrency l)\<rparr>)))"

lemma create_worker_app_Inr:
  "create_worker_app h executor key None None = Inr w \<Longrightarrow>
     wk_guard w = new_guard (wl_skew (wk_limits w) * 2) \<and> limits_from_env (h_env h) = Inr (wk_limits w) \<and>
     require_worker_api_key (h_env h) key = Inr (wk_key w) \<and>
     wk_permits w = nat (wl_concurrency (wk_limits w))"
  by (auto simp: create_worker_app_def split: if_splits)

section \<open>The life of a nonce\<close>

lemma to_b64_int: "0 \<le> n \<Longrightarrow> n \<le> 2 ^ 53 \<Longrightarrow> to_b64 (of_int n) = Fin (of_int n)"
proof (cases "n = 0")
  case False
  assume n: "0 \<le> n" "n \<le> 2 ^ 53"
  have "(of_int n :: rat) = of_int n * 2 powi 0 \<and> \<bar>n\<bar> \<le> 2 ^ 53 \<and> (-1074::int) \<le> 0" using n by simp
  then have "b64_rep (of_int n)" unfolding b64_rep_def by blast
  moreover have "(0::rat) < of_int n" using n False by simp
  ultimately have r: "rnd_pos (of_int n) = of_int n" by (rule rnd_pos_rep [rotated])
  have "(of_int n :: rat) \<le> of_int (2 ^ 53)" using n(2) by (simp only: of_int_le_iff)
  also have "\<dots> < b64_max_exp"
    unfolding b64_max_exp_def of_int_power of_int_numeral by (rule power_strict_increasing) simp_all
  finally show ?thesis using r n False by (simp add: to_b64_def)
qed (simp add: to_b64_def)

lemma expiry_after:
  assumes "of_int n \<le> y" "0 \<le> n" "n \<le> 2 ^ 52" "0 \<le> gd_ttl g" "gd_ttl g \<le> 2 ^ 52"
    and "c < of_int (n + gd_ttl g)"
  shows "\<not> f_le (expiry g (Fin y)) (Fin c)"
proof -
  have "to_b64 (of_int (n + gd_ttl g)) = Fin (of_int (n + gd_ttl g))"
    using assms(2-5) by (intro to_b64_int) simp_all
  moreover have "f_le (to_b64 (of_int (n + gd_ttl g))) (to_b64 (y + of_int (gd_ttl g)))"
    using assms(1) by (intro to_b64_mono) simp
  ultimately have "f_le (Fin (of_int (n + gd_ttl g))) (expiry g (Fin y))" by (simp add: expiry_def)
  then show ?thesis
    using assms(6) by (cases "expiry g (Fin y)") (auto simp: f_le_def simp del: of_int_add)
qed

lemma f_le_trans: "f_le a b \<Longrightarrow> f_le b c \<Longrightarrow> f_le a c"
  by (cases a; cases b; cases c) (auto simp: f_le_def)

lemma consume_ttl: "gd_ttl (snd (consume n t g)) = gd_ttl g \<and> gd_max (snd (consume n t g)) = gd_max g"
  by (simp add: consume_def Let_def split: sum.split)

lemma serve_ttl: "gd_ttl (serve mac key l rs g) = gd_ttl g \<and> gd_max (serve mac key l rs g) = gd_max g"
proof (induction rs arbitrary: g)
  case (Cons x rs)
  obtain now clock r where x: "x = (now, clock, r)" by (cases x) auto
  show ?case
    using authenticate_guard [of mac key l now clock r g] consume_ttl Cons.IH unfolding x serve_simps by metis
qed simp

lemma forwarded_fresh:
  assumes "authenticate mac key l now clock r g = (Forward, g')" "wr_path r \<noteq> ''/health''"
    and "wr_timestamp r = Some ts" "parse_int ts = Some t"
  shows "\<bar>now - t\<bar> \<le> wl_skew l"
  using assms by (auto simp: authenticate_Forward header_check_None str_or_def split: if_splits)

section \<open>Properties\<close>


text \<open>A worker whose environment holds a key and nothing else.\<close>

definition worker_key :: string where
  "worker_key = replicate 32 (CHR ''k'')"

definition worker_host :: host where
  "worker_host = demo_host\<lparr>h_env := [''CURATOR_SANDBOX_WORKER_API_KEY'' \<mapsto> worker_key]\<rparr>"

definition default_limits :: worker_limits where
  "default_limits = \<lparr>wl_body = 65536, wl_skew = 30, wl_concurrency = 2, wl_queue = Fin 1\<rparr>"

definition worker_example :: worker_app where
  "worker_example = \<lparr>wk_key = worker_key, wk_limits = default_limits, wk_executor = demo_container,
     wk_guard = new_guard 60, wk_permits = 2\<rparr>"

lemma worker_example: "create_worker_app worker_host (Some demo_container) None None None = Inr worker_example"
proof -
  have env: "getenv (h_env worker_host) n d =
      (if n = ''CURATOR_SANDBOX_WORKER_API_KEY'' then worker_key else d)" for n d
    by (simp add: worker_host_def getenv_def)
  have k: "strip worker_key = worker_key" by (simp add: worker_key_def text_simps)
  have key: "require_worker_api_key (h_env worker_host) None = Inr worker_key"
    unfolding require_worker_api_key_def env by (simp add: k) (simp add: worker_key_def)
  have lim: "limits_from_env (h_env worker_host) = Inr default_limits"
    unfolding limits_from_env_def env_int_def env_float_def env
    by (simp add: text_simps float_simps default_limits_def)
  show ?thesis
    by (simp add: create_worker_app_def key lim worker_example_def) (simp add: default_limits_def)
qed

text \<open>A request with a given time stamp, signed for the hash of the examples.\<close>

definition stamped :: "string \<Rightarrow> worker_request" where
  "stamped ts = demo_worker_request\<lparr>wr_timestamp := Some ts\<rparr>"

lemma stamped_forwarded:
  assumes "parse_int ts = Some t" "\<bar>now - t\<bar> \<le> 30" "list_all is_ascii ts" "ts \<noteq> []"
    and "consume ''aaaaaaaaaaaaaaaa'' clock g = (Inr True, g')"
  shows "authenticate demo_mac worker_key default_limits now clock (stamped ts) g = (Forward, g')"
proof -
  have m: "\<exists>m. signature_message \<lparr>sf_method = ''GET'', sf_path = ''/ready'', sf_timestamp = ts,
      sf_nonce = ''aaaaaaaaaaaaaaaa'', sf_body = []\<rparr> = Inr m"
    using assms(3) by (simp add: signature_message_eq text_simps is_ascii_def)
  show ?thesis
    unfolding authenticate_Forward size_check_None header_check_None verify_iff request_fields_def
    using m assms by (simp add: stamped_def demo_worker_request_def default_limits_def worker_key_def
        demo_mac_def demo_nonce_ok is_ascii_def str_true_def str_or_def)
qed

definition held_guard :: "rat \<Rightarrow> guard" where
  "held_guard e = (new_guard 60)\<lparr>gd_entries := [(''aaaaaaaaaaaaaaaa'', Fin e)]\<rparr>"

lemma first_admitted: "consume ''aaaaaaaaaaaaaaaa'' (Fin 0) (new_guard 60) = (Inr True, held_guard 60)"
  using demo_consume by (simp add: held_guard_def)


text \<open>
  At the edge of the window the two clock readings disagree: a request stamped thirty seconds ahead
  is still fresh half a second after its nonce expired, and is then passed on a second time.
\<close>

lemma early_stamp_replayed:
  "authenticate demo_mac worker_key default_limits \<lfloor>0::rat\<rfloor> (Fin 0) (stamped ''30'') (wk_guard worker_example) =
     (Forward, held_guard 60) \<and>
   authenticate demo_mac worker_key default_limits \<lfloor>121 / 2 :: rat\<rfloor> (Fin (121 / 2)) (stamped ''30'') (held_guard 60) =
     (Forward, held_guard (241 / 2))"
proof
  have p: "parse_int ''30'' = Some 30" "list_all is_ascii ''30''" by (simp_all add: text_simps is_ascii_def)
  show "authenticate demo_mac worker_key default_limits \<lfloor>0::rat\<rfloor> (Fin 0) (stamped ''30'') (wk_guard worker_example) =
     (Forward, held_guard 60)"
    using stamped_forwarded [OF p(1) _ p(2), of 0] first_admitted by (simp add: worker_example_def)
  have "consume ''aaaaaaaaaaaaaaaa'' (Fin (121 / 2)) (held_guard 60) = (Inr True, held_guard (241 / 2))"
    by (simp add: consume_def held_guard_def new_guard_def dhas_def dset_def expiry_def float_simps)
  moreover have "\<lfloor>121 / 2 :: rat\<rfloor> = 60" by (simp add: float_simps)
  ultimately show "authenticate demo_mac worker_key default_limits \<lfloor>121 / 2 :: rat\<rfloor> (Fin (121 / 2)) (stamped ''30'')
      (held_guard 60) = (Forward, held_guard (241 / 2))"
    using stamped_forwarded [OF p(1) _ p(2), of 60] by simp
qed

end
