(* ===== verification/Curator_Http.thy ===== *)
theory Curator_Http
  imports Curator_App
begin

text \<open>
  The HTTP handlers of \<open>app/main_legacy.py\<close>: registration, listing, approval, the approval gated
  by a backtest, deprecation and the execution of a skill with its telemetry.
\<close>

section \<open>Requests\<close>

text \<open>
  The bodies of the lifecycle routes and the constraints of their fields; a bound on a float refuses
  only a value that compares beyond it, so not a number passes.
\<close>

record lifecycle_request =
  lf_reason :: "string option"
  lf_actor :: "string option"

record promotion_request = lifecycle_request +
  pr_stage :: stage

record approval_request = lifecycle_request +
  aq_require :: bool
  aq_allow_missing :: bool

definition lifecycle_request_ok :: "'a lifecycle_request_scheme \<Rightarrow> bool" where
  "lifecycle_request_ok q \<longleftrightarrow> opt_len_in 0 1000 (lf_reason q) \<and> opt_len_in 0 120 (lf_actor q)"

definition float_in :: "rat \<Rightarrow> rat \<Rightarrow> pyfloat \<Rightarrow> bool" where
  "float_in lo hi x \<longleftrightarrow> \<not> f_lt x (to_b64 lo) \<and> \<not> f_lt (to_b64 hi) x"

definition policy_request_ok :: "policy_request \<Rightarrow> bool" where
  "policy_request_ok q \<longleftrightarrow>
     float_in 0 1 (lr_confidence (pq_learning q)) \<and> float_in 0 1 (lr_score (pq_learning q)) \<and>
     float_in 0 1 (pq_min q) \<and> float_in (- 1) 0 (pq_pause q)"

section \<open>Routes over the registry, the ranking and the policy\<close>

definition curate_performance_policy_endpoint :: "policy_request \<Rightarrow> policy_response" where
  "curate_performance_policy_endpoint q = curate_performance_policy q"

definition list_skills_endpoint :: "string option \<Rightarrow> string option \<Rightarrow> string option \<Rightarrow> registry
    \<Rightarrow> skill_record list" where
  "list_skills_endpoint tag validation approval rows =
     list_skills (any_query\<lparr>lq_tag := tag, lq_validation := validation, lq_approval := approval\<rparr>) rows"

definition search_skills_endpoint :: "string option \<Rightarrow> string option \<Rightarrow> registry \<Rightarrow> skill_record list" where
  "search_skills_endpoint q approval rows = search (str_or q []) approval rows"

definition recommend_skills_endpoint :: "registry \<Rightarrow> database \<Rightarrow> network \<Rightarrow> recommend_request
    \<Rightarrow> recommendation res" where
  "recommend_skills_endpoint rows db send q = recommend_skills rows db send q"

section \<open>Lifecycle handlers\<close>

text \<open>\<open>/skills/register\<close>: a refused registration escapes as it is.\<close>

definition register_skill :: "reg_env \<Rightarrow> string \<Rightarrow> int \<Rightarrow> create_request \<Rightarrow> registry
    \<Rightarrow> skill_detail res \<times> registry" where
  "register_skill env uuid now q rows = register env uuid now q rows"

definition get_skill :: "string \<Rightarrow> registry \<Rightarrow> skill_detail res" where
  "get_skill i rows = (case get rows i of
       Inl _ \<Rightarrow> Inl (HTTPException 404 ''skill_not_found'') | Inr k \<Rightarrow> Inr k)"

definition approve_skill :: "string \<Rightarrow> string option \<Rightarrow> string option \<Rightarrow> (nat \<Rightarrow> int) \<Rightarrow> registry
    \<Rightarrow> skill_detail res \<times> registry" where
  "approve_skill i actor reason clk rows = (case approve i actor reason clk rows of
       (Inl e, rows') \<Rightarrow> (Inl (http_error ''skill_not_found'' e), rows')
     | (Inr k, rows') \<Rightarrow> (Inr k, rows'))"

definition deprecate_skill :: "string \<Rightarrow> string option \<Rightarrow> string option \<Rightarrow> (nat \<Rightarrow> int) \<Rightarrow> registry
    \<Rightarrow> skill_detail res \<times> registry" where
  "deprecate_skill i actor reason clk rows = (case deprecate i actor reason clk rows of
       (Inl (KeyError _), rows') \<Rightarrow> (Inl (HTTPException 404 ''skill_not_found''), rows')
     | r \<Rightarrow> r)"

section \<open>The backtest gate\<close>

text \<open>
  \<open>_backtest_status_from_database\<close>: the response model accepts the optional fields of its types;
  a field it refuses is a \<open>ValueError\<close>.
\<close>

record backtest_status =
  bs_skill :: string
  bs_database :: string
  bs_passed :: bool
  bs_status :: string
  bs_run :: "string option"
  bs_score :: "pyfloat option"
  bs_profit :: "pyfloat option"
  bs_win_rate :: "pyfloat option"
  bs_drawdown :: "pyfloat option"
  bs_runs :: int
  bs_reasons :: "string list"
  bs_raw :: dict

definition refused :: exn where
  "refused = ValueError ''validation_error''"

definition opt_str_field :: "json \<Rightarrow> string option res" where
  "opt_str_field v = (case v of JNull \<Rightarrow> Inr None | JStr s \<Rightarrow> Inr (Some s) | _ \<Rightarrow> Inl refused)"

definition opt_float_field :: "json \<Rightarrow> pyfloat option res" where
  "opt_float_field v = (if v = JNull then Inr None else (case to_float v of
       Inr x \<Rightarrow> Inr (Some x) | Inl _ \<Rightarrow> Inl refused))"

definition py_int :: "json \<Rightarrow> int res" where
  "py_int v = (case v of
       JInt n \<Rightarrow> Inr n
     | JBool b \<Rightarrow> Inr (if b then 1 else 0)
     | JFloat x \<Rightarrow> int_of_float x
     | JStr s \<Rightarrow> (case parse_int s of Some n \<Rightarrow> Inr n
         | None \<Rightarrow> Inl (ValueError ''invalid literal for int() with base 10''))
     | _ \<Rightarrow> Inl (TypeError ''int() argument must be a string or a real number''))"

definition str_list_field :: "json \<Rightarrow> string list res" where
  "str_list_field v = (case v of
       JArr xs \<Rightarrow> res_all (map (\<lambda>x. case x of JStr s \<Rightarrow> Inr s | _ \<Rightarrow> Inl refused) xs)
     | _ \<Rightarrow> Inr [])"

definition backtest_status_from :: "string \<Rightarrow> json \<Rightarrow> backtest_status res" where
  "backtest_status_from skill response =
     (let data = obj_or_empty (jget (obj_or_empty response) ''data'') in
      res_bind (py_int (py_or (jget data ''total_runs'') (JInt 0))) (\<lambda>runs.
      res_bind (opt_str_field (jget data ''latest_run_id'')) (\<lambda>run.
      res_bind (opt_float_field (jget data ''latest_score'')) (\<lambda>score.
      res_bind (opt_float_field (jget data ''latest_profit_factor'')) (\<lambda>profit.
      res_bind (opt_float_field (jget data ''latest_win_rate'')) (\<lambda>win.
      res_bind (opt_float_field (jget data ''latest_max_drawdown'')) (\<lambda>dd.
      res_bind (str_list_field (jget data ''reasons'')) (\<lambda>reasons.
        Inr \<lparr>bs_skill = skill,
          bs_database = (case response of
              JObj r \<Rightarrow> py_str (jget_or r ''status'' (JStr ''unknown'')) | _ \<Rightarrow> ''unknown''),
          bs_passed = truthy (jget data ''passed''),
          bs_status = py_str (jget_or data ''status'' (JStr ''unknown'')),
          bs_run = run, bs_score = score, bs_profit = profit, bs_win_rate = win, bs_drawdown = dd,
          bs_runs = runs, bs_reasons = reasons, bs_raw = obj_or_empty response\<rparr>))))))))"

definition skill_backtest_status :: "database \<Rightarrow> network \<Rightarrow> string \<Rightarrow> registry \<Rightarrow> backtest_status res" where
  "skill_backtest_status db send i rows =
     res_bind (get_skill i rows) (\<lambda>_. backtest_status_from i (get_skill_backtest_status db send i))"

definition backtest_allows :: "approval_request \<Rightarrow> backtest_status \<Rightarrow> bool" where
  "backtest_allows q s \<longleftrightarrow> \<not> (aq_require q \<and> \<not> bs_passed s) \<or>
     aq_allow_missing q \<and> bs_database s = ''skipped''"

definition backtest_reason :: "backtest_status \<Rightarrow> string" where
  "backtest_reason s = ''backtest_status='' @ bs_status s @ ''; latest_run_id=''
     @ (case bs_run s of None \<Rightarrow> ''None'' | Some r \<Rightarrow> r)"

definition approve_from_backtest :: "database \<Rightarrow> network \<Rightarrow> string \<Rightarrow> approval_request \<Rightarrow> (nat \<Rightarrow> int)
    \<Rightarrow> registry \<Rightarrow> (skill_detail \<times> backtest_status) res \<times> registry" where
  "approve_from_backtest db send i q clk rows =
     (case skill_backtest_status db send i rows of
        Inl e \<Rightarrow> (Inl e, rows)
      | Inr s \<Rightarrow>
          if \<not> backtest_allows q s then (Inl (HTTPException 400 ''skill_backtest_not_passed''), rows)
          else (case approve i (lf_actor q) (Some (str_or (lf_reason q) (backtest_reason s))) clk rows of
              (Inl (ValueError m), rows') \<Rightarrow> (Inl (HTTPException 400 m), rows')
            | (r, rows') \<Rightarrow> (res_map (\<lambda>k. (k, s)) r, rows')))"

section \<open>Executing a skill\<close>

record execute_request =
  ex_inputs :: dict
  ex_function :: "string option"
  ex_timeout :: pyfloat
  ex_account :: json
  ex_symbol :: "string option"
  ex_bucket :: "string option"
  ex_regime :: "string option"
  ex_run :: "string option"
  ex_metadata :: dict

definition execute_request_ok :: "execute_request \<Rightarrow> bool" where
  "execute_request_ok q \<longleftrightarrow>
     opt_len_in 0 120 (ex_function q) \<and> float_in (1 / 10) 5 (ex_timeout q) \<and>
     opt_len_in 0 20 (ex_symbol q) \<and> opt_len_in 0 120 (ex_bucket q) \<and>
     opt_len_in 0 120 (ex_regime q) \<and> opt_len_in 0 120 (ex_run q)"

text \<open>\<open>_correlation_id_from_execute_request\<close>.\<close>

definition correlation_id :: "execute_request \<Rightarrow> string option" where
  "correlation_id q =
     map_option py_str (List.find (\<lambda>v. v \<noteq> JNull \<and> v \<noteq> JStr [])
       [jget (ex_metadata q) ''correlation_id'', jget (ex_metadata q) ''trace_id'', opt_json (ex_run q)])"

definition skill_exec_request :: "skill_detail \<Rightarrow> execute_request \<Rightarrow> exec_request" where
  "skill_exec_request k q = \<lparr>rq_skill = sk_id k, rq_code = sk_code k, rq_inputs = ex_inputs q,
     rq_function = ex_function q, rq_timeout = ex_timeout q\<rparr>"

definition telemetry_metadata :: "skill_detail \<Rightarrow> execute_request \<Rightarrow> dict \<Rightarrow> dict" where
  "telemetry_metadata k q d =
     (let m = dmerge (ex_metadata q)
        [(''function_name'', jget d ''function_name''), (''code_hash'', JStr (sk_hash k)),
         (''advisory_only'', JBool True)]
      in if str_true (correlation_id q) then dset ''correlation_id'' (JStr (the (correlation_id q))) m
         else m)"

definition telemetry_payload :: "skill_detail \<Rightarrow> execute_request \<Rightarrow> dict \<Rightarrow> dict" where
  "telemetry_payload k q d =
     (let output = obj_or_empty (jget d ''output'') in
      [(''account_id'', ex_account q), (''skill_id'', JStr (sk_id k)), (''skill_name'', JStr (sk_name k)),
       (''symbol'', opt_json (ex_symbol q)), (''strategy_bucket'', opt_json (ex_bucket q)),
       (''market_regime'', opt_json (ex_regime q)), (''signal'', jget output ''signal''),
       (''confidence'', jget output ''confidence''), (''reason'', jget output ''reason''),
       (''input_payload'', JObj (ex_inputs q)), (''output_payload'', JObj output),
       (''execution_status'', jget_or d ''execution_status'' (JStr ''unknown'')),
       (''error'', jget d ''error''), (''elapsed_ms'', jget d ''elapsed_ms''),
       (''source_agent'', JStr ''curator-agent''), (''run_id'', opt_json (ex_run q)),
       (''metadata'', JObj (telemetry_metadata k q d))])"

definition telemetry_report :: "database \<Rightarrow> bool \<Rightarrow> string option \<Rightarrow> dict \<Rightarrow> json" where
  "telemetry_report db required correlation t = JObj
     [(''status'', jget t ''status''), (''enabled'', JBool (db_enabled db)),
      (''required'', JBool required), (''correlation_id'', opt_json correlation),
      (''execution_log_id'', (case jget t ''data'' of JObj e \<Rightarrow> jget e ''execution_log_id'' | _ \<Rightarrow> JNull)),
      (''error'', jget t ''error'')]"

text \<open>What follows the execution: the telemetry, and the refusal when it is required and failed.\<close>

definition record_execution :: "database \<Rightarrow> network \<Rightarrow> bool \<Rightarrow> skill_detail \<Rightarrow> execute_request \<Rightarrow> dict
    \<Rightarrow> dict res" where
  "record_execution db send required k q d =
     (case create_skill_execution_log db send (telemetry_payload k q d) (correlation_id q) of
        JObj t \<Rightarrow>
          if required \<and> jget t ''status'' \<noteq> JStr ''success''
          then Inl (HTTPException 503 ''database_telemetry_required_but_failed'')
          else Inr (dset ''database_telemetry'' (telemetry_report db required (correlation_id q) t) d)
      | _ \<Rightarrow> Inl no_get)"

definition execute_skill :: "registry \<Rightarrow> 's executor \<Rightarrow> database \<Rightarrow> network \<Rightarrow> bool \<Rightarrow> string
    \<Rightarrow> execute_request \<Rightarrow> 's \<Rightarrow> dict res \<times> 's" where
  "execute_skill rows exec db send required i q s =
     (case get rows i of
        Inl _ \<Rightarrow> (Inl (HTTPException 404 ''skill_not_found''), s)
      | Inr k \<Rightarrow>
          if sk_validation k \<noteq> Validated
          then (Inl (HTTPException 400 ''only_validated_skills_can_execute''), s)
          else if sk_approval k \<noteq> Approved
          then (Inl (HTTPException 400 ''only_approved_skills_can_execute''), s)
          else (case exec (skill_exec_request k q) s of
              (Inl e, s') \<Rightarrow> (Inl e, s')
            | (Inr d, s') \<Rightarrow> (record_execution db send required k q d, s')))"

section \<open>What the handlers guarantee\<close>

text \<open>A request an executor may be given: the stored code of an approved skill.\<close>

definition approved_request :: "registry \<Rightarrow> exec_request \<Rightarrow> bool" where
  "approved_request rows q \<longleftrightarrow> (\<exists>k. get rows (rq_skill q) = Inr k \<and> rq_code q = sk_code k \<and>
     sk_validation k = Validated \<and> sk_approval k = Approved)"

lemma get_sk_id: "get rows i = Inr k \<Longrightarrow> sk_id k = i"
  by (auto simp: get_Inr dest: find_row_Some)

lemma execute_skill_Inr:
  assumes "execute_skill rows exec db send required i q s = (Inr d, t)"
  obtains k e where "get rows i = Inr k" "sk_validation k = Validated" "sk_approval k = Approved"
    "exec (skill_exec_request k q) s = (Inr e, t)" "record_execution db send required k q e = Inr d"
  using assms by (auto simp: execute_skill_def split: sum.splits if_splits prod.splits)

lemma skill_exec_approved:
  "get rows i = Inr k \<Longrightarrow> sk_validation k = Validated \<Longrightarrow> sk_approval k = Approved \<Longrightarrow>
     approved_request rows (skill_exec_request k q)"
  using get_sk_id [of rows i k] by (simp add: approved_request_def skill_exec_request_def)

lemma record_execution_Inr:
  "record_execution db send required k q e = Inr d \<Longrightarrow>
     succeeded d = succeeded e \<and> jget d ''output'' = jget e ''output'' \<and>
     jget d ''performance_intelligence'' = jget e ''performance_intelligence''"
  by (auto simp: record_execution_def succeeded_def split: json.splits if_splits)

lemma approve_Inr:
  assumes "approve i actor reason clk rows = (Inr k, rows')"
  shows "sk_approval k = Approved \<and> sk_validation k = Validated \<and> sk_immutable k"
  using assms unfolding approve_eq
  by (auto simp: transition_eq get_Inr update_row_def no_change_def split: option.splits if_splits)

end
