(* ===== verification/Service.thy ===== *)
theory Service
  imports Curator_Http
begin

text \<open>
  The service as a whole: the routes of \<open>app/main_legacy.py\<close>, \<open>app/version_api.py\<close>,
  \<open>app/shadow_ensemble.py\<close> and \<open>app/readiness.py\<close> behind the middleware of \<open>app/security.py\<close>, from
  the start-up of \<open>app/main.py\<close> over any sequence of requests. A request is the call of a route with
  its parameters and parsed body, and the key of its header; routing by path and the parsing of the
  bodies are FastAPI's, and a body outside its model is answered before the handler.
\<close>

section \<open>Calls\<close>

datatype call =
    GetVersion
  | GetHealth
  | GetReady
  | CuratePolicy policy_request
  | RegisterSkill create_request
  | ListSkills "string option" "string option" "string option"
  | SearchSkills "string option" "string option"
  | RecommendSkills recommend_request
  | ApproveSkill string lifecycle_request
  | BacktestStatus string
  | ApproveFromBacktest string approval_request
  | DeprecateSkill string lifecycle_request
  | ExecuteSkill string execute_request
  | GetSkill string
  | ListFamilies
  | GetFamily string
  | CreateVersion string version_request
  | PromoteSkill string promotion_request
  | RollbackSkill string lifecycle_request
  | ShadowEnsemble ensemble_request

text \<open>The decorators of the handlers: method and path.\<close>

fun call_method :: "call \<Rightarrow> string" where
  "call_method (CuratePolicy _) = ''POST''"
| "call_method (RegisterSkill _) = ''POST''"
| "call_method (RecommendSkills _) = ''POST''"
| "call_method (ApproveSkill _ _) = ''POST''"
| "call_method (ApproveFromBacktest _ _) = ''POST''"
| "call_method (DeprecateSkill _ _) = ''POST''"
| "call_method (ExecuteSkill _ _) = ''POST''"
| "call_method (CreateVersion _ _) = ''POST''"
| "call_method (PromoteSkill _ _) = ''POST''"
| "call_method (RollbackSkill _ _) = ''POST''"
| "call_method (ShadowEnsemble _) = ''POST''"
| "call_method _ = ''GET''"

fun call_path :: "call \<Rightarrow> string" where
  "call_path GetVersion = ''/version''"
| "call_path GetHealth = ''/health''"
| "call_path GetReady = ''/ready''"
| "call_path (CuratePolicy _) = ''/curate/performance-policy''"
| "call_path (RegisterSkill _) = ''/skills/register''"
| "call_path (ListSkills _ _ _) = ''/skills''"
| "call_path (SearchSkills _ _) = ''/skills/search''"
| "call_path (RecommendSkills _) = ''/skills/recommend''"
| "call_path (ApproveSkill i _) = ''/skills/'' @ i @ ''/approve''"
| "call_path (BacktestStatus i) = ''/skills/'' @ i @ ''/backtest-status''"
| "call_path (ApproveFromBacktest i _) = ''/skills/'' @ i @ ''/approve-from-backtest''"
| "call_path (DeprecateSkill i _) = ''/skills/'' @ i @ ''/deprecate''"
| "call_path (ExecuteSkill i _) = ''/skills/'' @ i @ ''/execute''"
| "call_path (GetSkill i) = ''/skills/'' @ i"
| "call_path ListFamilies = ''/skill-families''"
| "call_path (GetFamily f) = ''/skill-families/'' @ f"
| "call_path (CreateVersion i _) = ''/skills/'' @ i @ ''/versions''"
| "call_path (PromoteSkill i _) = ''/skills/'' @ i @ ''/promote''"
| "call_path (RollbackSkill i _) = ''/skills/'' @ i @ ''/rollback''"
| "call_path (ShadowEnsemble _) = ''/skills/shadow-ensemble''"

text \<open>Whether the body of a call is one its request model accepts.\<close>

fun call_ok :: "call \<Rightarrow> bool" where
  "call_ok (CuratePolicy q) = policy_request_ok q"
| "call_ok (RegisterSkill q) = create_request_ok q"
| "call_ok (RecommendSkills q) = recommend_request_ok q"
| "call_ok (ApproveSkill _ q) = lifecycle_request_ok q"
| "call_ok (ApproveFromBacktest _ q) = lifecycle_request_ok q"
| "call_ok (DeprecateSkill _ q) = lifecycle_request_ok q"
| "call_ok (ExecuteSkill _ q) = execute_request_ok q"
| "call_ok (CreateVersion _ q) = version_request_ok q"
| "call_ok (PromoteSkill _ q) = lifecycle_request_ok q"
| "call_ok (RollbackSkill _ q) = lifecycle_request_ok q"
| "call_ok (ShadowEnsemble q) = ensemble_request_ok q"
| "call_ok _ = True"

section \<open>Handlers\<close>

text \<open>The data of an answer.\<close>

datatype answer =
    Document dict
  | Coded "int \<times> dict"
  | Policy policy_response
  | Skill skill_detail
  | Skills "skill_record list"
  | Recommended recommendation
  | Backtest backtest_status
  | ApprovedSkill skill_detail backtest_status
  | Families "family_summary list"
  | Family family_summary
  | NewVersion version_response
  | Promoted promotion_response
  | RolledBack rollback_response
  | Ensemble ensemble_result

text \<open>
  The state is the table and the fallback counter of the executor. The handlers are coroutines
  that do not wait for anything while they use the registry, so requests change it one at a time.
\<close>

type_synonym state = "registry \<times> nat"

definition reading :: "('a \<Rightarrow> answer) \<Rightarrow> 'a res \<Rightarrow> state \<Rightarrow> answer res \<times> state" where
  "reading f r s = (res_map f r, s)"

definition writing :: "('a \<Rightarrow> answer) \<Rightarrow> 'a res \<times> registry \<Rightarrow> nat \<Rightarrow> answer res \<times> state" where
  "writing f x n = (case x of (r, rows) \<Rightarrow> (res_map f r, (rows, n)))"

definition running :: "('a \<Rightarrow> answer) \<Rightarrow> 'a res \<times> nat \<Rightarrow> registry \<Rightarrow> answer res \<times> state" where
  "running f x rows = (case x of (r, n) \<Rightarrow> (res_map f r, (rows, n)))"

fun handle :: "app \<Rightarrow> reg_env \<Rightarrow> world \<Rightarrow> readings \<Rightarrow> call \<Rightarrow> state \<Rightarrow> answer res \<times> state" where
  "handle a env w rd GetVersion s = reading Document (Inr (version_endpoint (rd_stamp rd))) s"
| "handle a env w rd GetHealth s = reading Document (Inr (standard_response (health_data a))) s"
| "handle a env w rd GetReady s =
     reading (\<lambda>d. Coded (runtime_ready (rd_stamp rd) a (h_env (wd_host w)) d))
       (isolated_readiness (ap_isolated a) w) s"
| "handle a env w rd (CuratePolicy q) s = reading Policy (Inr (curate_performance_policy_endpoint q)) s"
| "handle a env w rd (RegisterSkill q) (rows, n) =
     writing Skill (register_skill env (rd_uuid rd) (rd_now rd) q rows) n"
| "handle a env w rd (ListSkills t v p) (rows, n) =
     reading Skills (Inr (list_skills_endpoint t v p rows)) (rows, n)"
| "handle a env w rd (SearchSkills q p) (rows, n) =
     reading Skills (Inr (search_skills_endpoint q p rows)) (rows, n)"
| "handle a env w rd (RecommendSkills q) (rows, n) = reading Recommended
     (recommend_skills_endpoint rows (ap_database a) (wd_send w) q) (rows, n)"
| "handle a env w rd (ApproveSkill i q) (rows, n) =
     writing Skill (approve_skill i (lf_actor q) (lf_reason q) (rd_clock rd) rows) n"
| "handle a env w rd (BacktestStatus i) (rows, n) = reading Backtest
     (skill_backtest_status (ap_database a) (wd_send w) i rows) (rows, n)"
| "handle a env w rd (ApproveFromBacktest i q) (rows, n) = writing (\<lambda>(k, b). ApprovedSkill k b)
     (approve_from_backtest (ap_database a) (wd_send w) i q (rd_clock rd) rows) n"
| "handle a env w rd (DeprecateSkill i q) (rows, n) =
     writing Skill (deprecate_skill i (lf_actor q) (lf_reason q) (rd_clock rd) rows) n"
| "handle a env w rd (ExecuteSkill i q) (rows, n) = running Document
     (execute_skill rows (app_exec a rows w) (ap_database a)
        (wd_send w) (ap_telemetry a) i q n) rows"
| "handle a env w rd (GetSkill i) (rows, n) = reading Skill (get_skill i rows) (rows, n)"
| "handle a env w rd ListFamilies (rows, n) = reading Families (list_skill_families rows) (rows, n)"
| "handle a env w rd (GetFamily f) (rows, n) = reading Family (get_skill_family rows f) (rows, n)"
| "handle a env w rd (CreateVersion i q) (rows, n) =
     writing NewVersion (create_skill_version env (rd_uuid rd) (rd_now rd) i q rows) n"
| "handle a env w rd (PromoteSkill i q) (rows, n) = writing Promoted
     (promote_skill i (stage_text (pr_stage q)) (lf_actor q) (lf_reason q) (rd_clock rd) rows) n"
| "handle a env w rd (RollbackSkill i q) (rows, n) =
     writing RolledBack (rollback_family_to_skill i (lf_actor q) (lf_reason q) (rd_clock rd) rows) n"
| "handle a env w rd (ShadowEnsemble q) (rows, n) =
     running Ensemble (execute_shadow_ensemble rows (app_exec a rows w) q n) rows"

text \<open>A request through the middleware, and a run of requests.\<close>

record http_call =
  hc_call :: call
  hc_key :: "string option"
  hc_correlation :: "string option"

datatype reply = Denied "int \<times> dict" | Unprocessable | Handled "answer res"

definition respond :: "app \<Rightarrow> reg_env \<Rightarrow> world \<Rightarrow> readings \<Rightarrow> http_call \<Rightarrow> state \<Rightarrow> reply \<times> state" where
  "respond a env w rd q s =
     (case api_key_middleware (ap_auth a) (rd_stamp rd) (hc_correlation q)
         (call_method (hc_call q)) (call_path (hc_call q)) (hc_key q) of
        Deny r \<Rightarrow> (Denied r, s)
      | Pass \<Rightarrow>
          if call_ok (hc_call q)
          then (case handle a env w rd (hc_call q) s of (r, s') \<Rightarrow> (Handled r, s'))
          else (Unprocessable, s))"

definition serve_all :: "app \<Rightarrow> reg_env \<Rightarrow> (world \<times> readings \<times> http_call) list \<Rightarrow> state \<Rightarrow> state" where
  "serve_all a env qs s = fold (\<lambda>(w, rd, q) s. snd (respond a env w rd q s)) qs s"

end
