(* ===== verification/Service_Spec.thy ===== *)
theory Service_Spec
  imports Service
begin

text \<open>
  What the running service guarantees: from the start-up on, whatever requests it gets, its registry
  only takes the steps of \<open>SkillRegistry\<close>, so every theorem about the histories of the registry is one about
  the service; and with access control on, nobody without the admin key moves it at all.
\<close>

section \<open>What the service does to the registry\<close>

lemma writing_rows [simp]: "fst (snd (writing f x n)) = snd x"
  by (simp add: writing_def split: prod.split)

lemma running_rows [simp]: "fst (snd (running f x rows)) = rows"
  by (simp add: running_def split: prod.split)

lemma reading_state [simp]: "snd (reading f r s) = s"
  by (simp add: reading_def)

lemma snd_approve_skill: "snd (approve_skill i actor reason clk rows) = snd (approve i actor reason clk rows)"
  by (auto simp: approve_skill_def split: prod.split sum.split)

lemma snd_deprecate_skill:
  "snd (deprecate_skill i actor reason clk rows) = snd (deprecate i actor reason clk rows)"
  by (auto simp: deprecate_skill_def split: prod.split sum.split exn.split)

lemma snd_approve_from_backtest:
  "snd (approve_from_backtest db send i q clk rows) = rows \<or>
   (\<exists>reason. snd (approve_from_backtest db send i q clk rows) = snd (approve i (lf_actor q) reason clk rows))"
  by (auto simp: approve_from_backtest_def split: prod.split sum.split exn.split) (metis snd_conv)+

lemma snd_create_skill_version:
  "snd (create_skill_version env uuid now i q rows) = snd (create_version env uuid now i q rows)"
  by (auto simp: create_skill_version_def split: prod.split sum.split)

lemma snd_promote_skill:
  "snd (promote_skill i g actor reason clk rows) = rows \<or>
   snd (promote_skill i g actor reason clk rows) = snd (promote i g actor reason clk rows)"
  by (auto simp: promote_skill_def split: prod.split sum.split)

lemma snd_rollback:
  "snd (rollback_family_to_skill i actor reason clk rows) = rows \<or>
   (\<exists>reason'. snd (rollback_family_to_skill i actor reason clk rows) =
      snd (promote i ''champion'' actor reason' clk rows))"
proof (cases "get rows i")
  case (Inr k)
  then have "sk_id k = i" by (rule get_sk_id)
  with Inr show ?thesis
    by (auto simp: rollback_family_to_skill_def Let_def split: prod.split sum.split) (metis snd_conv)+
qed (simp add: rollback_family_to_skill_def)

lemmas handler_rows = snd_approve_skill snd_deprecate_skill snd_create_skill_version

text \<open>A handler leaves the table or takes one step of the registry, and only the admin routes do.\<close>

lemma handle_step:
  assumes "call_ok c" "rd_uuid rd \<noteq> []" "\<And>q. c = RegisterSkill q \<Longrightarrow> allowed (cr_stage q)"
  shows "fst (snd (handle a env w rd c s)) = fst s \<or>
    reg_step env allowed (fst s) (fst (snd (handle a env w rd c s)))"
proof (cases s)
  case (Pair rows n)
  show ?thesis
  proof (cases c)
    case (RegisterSkill q)
    then show ?thesis using assms Pair by (auto simp: register_skill_def intro: register_step)
  next
    case (ApproveFromBacktest i q)
    then show ?thesis
      using snd_approve_from_backtest [of "ap_database a" "wd_send w" i q "rd_clock rd" rows] Pair
      by (auto intro: approve_step)
  next
    case (CreateVersion i q)
    then show ?thesis using assms Pair by (auto simp: handler_rows intro: version_step)
  next
    case (PromoteSkill i q)
    then show ?thesis
      using snd_promote_skill [of i "stage_text (pr_stage q)" "lf_actor q" "lf_reason q" "rd_clock rd" rows] Pair
      by (auto intro: promote_step)
  next
    case (RollbackSkill i q)
    then show ?thesis
      using snd_rollback [of i "lf_actor q" "lf_reason q" "rd_clock rd" rows] Pair
      by (auto intro: promote_step)
  qed (auto simp: Pair handler_rows intro: reg_step.intros)
qed

lemma admin_routes:
  "admin_route ''/skills/register''" "admin_route ''/curate/performance-policy''"
  "admin_route (''/skills/'' @ i @ ''/approve'')" "admin_route (''/skills/'' @ i @ ''/approve-from-backtest'')"
  "admin_route (''/skills/'' @ i @ ''/deprecate'')" "admin_route (''/skills/'' @ i @ ''/versions'')"
  "admin_route (''/skills/'' @ i @ ''/promote'')" "admin_route (''/skills/'' @ i @ ''/rollback'')"
proof -
  have r: "admin_route (''/skills/'' @ i @ suffix)" if "suffix \<in> set admin_suffixes" for suffix
    using that unfolding admin_route_def by blast
  show "admin_route (''/skills/'' @ i @ ''/approve'')" "admin_route (''/skills/'' @ i @ ''/approve-from-backtest'')"
    "admin_route (''/skills/'' @ i @ ''/deprecate'')" "admin_route (''/skills/'' @ i @ ''/versions'')"
    "admin_route (''/skills/'' @ i @ ''/promote'')" "admin_route (''/skills/'' @ i @ ''/rollback'')"
    by (rule r, simp add: admin_suffixes_def)+
qed (simp_all add: admin_route_def)

lemma handle_reads:
  assumes "\<not> (call_method c = ''POST'' \<and> admin_route (call_path c))"
  shows "fst (snd (handle a env w rd c s)) = fst s"
proof (cases s)
  case (Pair rows n)
  show ?thesis using assms admin_routes unfolding Pair by (cases c) auto
qed

text \<open>What a request may register.\<close>

definition registers :: "(stage \<Rightarrow> bool) \<Rightarrow> readings \<Rightarrow> http_call \<Rightarrow> bool" where
  "registers allowed rd q \<longleftrightarrow> rd_uuid rd \<noteq> [] \<and>
     (case hc_call q of RegisterSkill c \<Rightarrow> allowed (cr_stage c) | _ \<Rightarrow> True)"

lemma respond_step:
  assumes "registers allowed rd q"
  shows "fst (snd (respond a env w rd q s)) = fst s \<or>
    reg_step env allowed (fst s) (fst (snd (respond a env w rd q s)))"
proof -
  have "rd_uuid rd \<noteq> []" "\<And>c. hc_call q = RegisterSkill c \<Longrightarrow> allowed (cr_stage c)"
    using assms by (auto simp: registers_def)
  with handle_step [of "hc_call q" rd allowed a env w s] show ?thesis
    by (auto simp: respond_def split: verdict.split prod.split)
qed

lemma respond_no_admin:
  assumes "auth_from_env e = Inr (ap_auth a)" "au_required (ap_auth a)" "hc_key q \<noteq> Some (au_admin (ap_auth a))"
  shows "fst (snd (respond a env w rd q s)) = fst s"
proof (cases "call_method (hc_call q) = ''POST'' \<and> admin_route (call_path (hc_call q))")
  case True
  then have "required_role (upper (call_method (hc_call q))) (call_path (hc_call q)) = Some Admin"
    by (simp add: upper_POST required_role_admin)
  moreover have "au_admin (ap_auth a) \<noteq> []" using auth_from_env_ok [OF assms(1)] assms(2) by simp
  ultimately show ?thesis
    using assms(2,3) by (auto simp: respond_def middleware_Pass accepted_keys_def split: verdict.split)
next
  case False
  then have "fst (snd (handle a env w rd (hc_call q) s)) = fst s" by (rule handle_reads)
  then show ?thesis by (simp add: respond_def split: verdict.split prod.split) (metis fst_conv snd_conv)
qed

lemma serve_all_simps [simp]:
  "serve_all a env [] s = s"
  "serve_all a env ((w, rd, q) # qs) s = serve_all a env qs (snd (respond a env w rd q s))"
  by (simp_all add: serve_all_def)

lemma serve_all_steps:
  "(\<And>w rd q. (w, rd, q) \<in> set qs \<Longrightarrow> registers allowed rd q) \<Longrightarrow>
     (reg_step env allowed)\<^sup>*\<^sup>* (fst s) (fst (serve_all a env qs s))"
proof (induction qs arbitrary: s)
  case (Cons x qs)
  obtain w rd q where x: "x = (w, rd, q)" by (cases x)
  have "registers allowed rd q" by (rule Cons.prems [of w]) (simp add: x)
  then have "(reg_step env allowed)\<^sup>*\<^sup>* (fst s) (fst (snd (respond a env w rd q s)))"
    using respond_step [of allowed rd q a env w s] by auto
  moreover have "(reg_step env allowed)\<^sup>*\<^sup>* (fst (snd (respond a env w rd q s))) (fst (serve_all a env (x # qs) s))"
    unfolding x serve_all_simps by (rule Cons.IH) (use Cons.prems in auto)
  ultimately show ?case by (rule rtranclp_trans)
qed simp

section \<open>What the start-up does to the registry\<close>

definition seed_enabled :: "(string \<Rightarrow> string option) \<Rightarrow> bool" where
  "seed_enabled env \<longleftrightarrow> env_bool env ''CURATOR_SEED_BACKTEST_SKILL'' True"

definition seed_approved :: "(string \<Rightarrow> string option) \<Rightarrow> bool" where
  "seed_approved env \<longleftrightarrow> lower (strip (getenv env ''CURATOR_SEED_BACKTEST_SKILL_APPROVED'' ''true''))
     \<in> {''1'', ''true'', ''yes'', ''y'', ''on''}"

lemma seed_skill_steps:
  assumes "uuid \<noteq> []" "allowed Candidate"
  shows "(reg_step env allowed)\<^sup>*\<^sup>* rows (snd (seed_skill e env uuid now clk rows))"
proof (cases "create_request_ok (seed_request e)")
  case True
  obtain r rows1 where r: "register env uuid now (seed_request e) rows = (r, rows1)" by fastforce
  have one: "reg_step env allowed rows rows1"
    using register_step [OF True, of allowed uuid env rows now] assms r
    by (simp add: seed_request_def)
  have two: "reg_step env allowed rows1 (snd (approve i actor reason clk rows1))" for i actor reason
    by (rule approve_step)
  have "snd (seed_skill e env uuid now clk rows) = rows1 \<or>
    (\<exists>i actor reason. snd (seed_skill e env uuid now clk rows) = snd (approve i actor reason clk rows1))"
    using True r by (auto simp: seed_skill_def Let_def split: sum.split prod.split exn.split) (metis snd_conv)+
  then show ?thesis using one two by (metis r_into_rtranclp rtranclp.rtrancl_into_rtrancl)
qed (simp add: seed_skill_def Let_def)

lemma seed_skill_Inr:
  assumes "seed_skill e env uuid now clk rows = (Inr k, rows')" "reg_inv env rows"
  shows "get rows' (sk_id k) = Inr k \<and> sk_hash k = code_hash env default_skill_code \<and>
    (seed_approved e \<and> sk_validation k = Validated \<longrightarrow> sk_approval k = Approved)"
proof -
  obtain k1 rows1 where reg: "register env uuid now (seed_request e) rows = (Inr k1, rows1)"
    using assms(1) by (auto simp: seed_skill_def Let_def split: if_splits sum.splits prod.splits)
  note found = register_found [OF reg assms(2)]
  have code: "cr_code (seed_request e) = default_skill_code" by (simp add: seed_request_def)
  obtain x where x: "find_row rows1 (sk_id k1) = Some x" "k1 = to_detail x"
    using found by (auto simp: get_Inr)
  show ?thesis
  proof (cases "seed_approved e")
    case False
    then have "k = k1" "rows' = rows1"
      using assms(1) reg by (auto simp: seed_skill_def Let_def seed_approved_def split: if_splits)
    with False found code show ?thesis by simp
  next
    case True
    then have "(case approve (sk_id k1) (Some ''curator-seed'') (Some ''deterministic backtest skill seed'') clk rows1 of
        (Inl (ValueError _), rows2) \<Rightarrow> (Inr k1, rows2) | r \<Rightarrow> r) = (Inr k, rows')"
      using assms(1) reg by (auto simp: seed_skill_def Let_def seed_approved_def split: if_splits)
    then show ?thesis using x found code
      by (auto simp: approve_eq transition_eq get_Inr find_row_update_where update_row_def no_change_def
          dest: find_row_Some split: if_splits)
  qed
qed

lemma legacy_create_app_steps:
  assumes "uuid \<noteq> []" "allowed Candidate"
  shows "(reg_step env allowed)\<^sup>*\<^sup>* rows (snd (legacy_create_app e env uuid now clk db rows))"
  using seed_skill_steps [of uuid allowed env rows e now clk] assms
  by (auto simp: legacy_create_app_def seed_if_enabled_def split: prod.split sum.split)

lemma init_db_step: "init_db table = Inr rows \<Longrightarrow> (reg_step env allowed)\<^sup>*\<^sup>* table rows"
  by (rule r_into_rtranclp) (rule restart_step)

lemma init_then_legacy:
  "init_db table = Inr rows \<Longrightarrow> uuid \<noteq> [] \<Longrightarrow> allowed Candidate \<Longrightarrow>
     (reg_step env allowed)\<^sup>*\<^sup>* table (snd (legacy_create_app e env uuid now clk db rows))"
  by (rule rtranclp_trans [OF init_db_step legacy_create_app_steps])

lemma create_app_steps:
  assumes "uuid \<noteq> []" "allowed Candidate"
  shows "(reg_step env allowed)\<^sup>*\<^sup>* table (snd (create_app h env uuid now clk table))"
  using init_db_step [of table _ env allowed] init_then_legacy [of table _ uuid allowed env "h_env h" now clk] assms
  by (auto simp: create_app_def Let_def split: sum.split prod.split) (metis snd_conv)

lemma import_legacy_steps:
  assumes "uuid \<noteq> []" "allowed Candidate"
  shows "(reg_step env allowed)\<^sup>*\<^sup>* table (snd (import_legacy e env uuid now clk table))"
  using init_db_step [of table _ env allowed] init_then_legacy [of table _ uuid allowed env e now clk] assms
  by (auto simp: import_legacy_def split: sum.split)

lemma start_service_steps:
  assumes "rd_uuid rd1 \<noteq> []" "rd_uuid rd2 \<noteq> []" "allowed Candidate"
  shows "(reg_step env allowed)\<^sup>*\<^sup>* table (snd (start_service h env rd1 rd2 table))"
proof -
  obtain r rows where i: "import_legacy (h_env h) env (rd_uuid rd1) (rd_now rd1) (rd_clock rd1) table = (r, rows)"
    by fastforce
  have one: "(reg_step env allowed)\<^sup>*\<^sup>* table rows"
    using import_legacy_steps [of "rd_uuid rd1" allowed env table "h_env h" "rd_now rd1" "rd_clock rd1"] assms i
    by simp
  have two: "(reg_step env allowed)\<^sup>*\<^sup>* rows
      (snd (create_app h env (rd_uuid rd2) (rd_now rd2) (rd_clock rd2) rows))"
    by (rule create_app_steps) (use assms in simp_all)
  show ?thesis using one rtranclp_trans [OF one two] i by (cases r) (simp_all add: start_service_def)
qed

lemma start_service_Inr:
  assumes "start_service h env rd1 rd2 table = (Inr a, rows)" "reg_inv env table"
    and "rd_uuid rd1 \<noteq> []" "rd_uuid rd2 \<noteq> []"
  obtains table' where "reg_inv env table'" "build_isolated_executor h = Inr (ap_isolated a)"
    "seed_if_enabled (h_env h) env (rd_uuid rd2) (rd_now rd2) (rd_clock rd2) table' = (Inr (ap_seed a), rows)"
    "auth_from_env (h_env h) = Inr (ap_auth a)"
proof -
  obtain x mid where i: "import_legacy (h_env h) env (rd_uuid rd1) (rd_now rd1) (rd_clock rd1) table = (Inr x, mid)"
    and c: "create_app h env (rd_uuid rd2) (rd_now rd2) (rd_clock rd2) mid = (Inr a, rows)"
    using assms(1) by (auto simp: start_service_def split: sum.splits prod.splits)
  have "(reg_step env (\<lambda>_. True))\<^sup>*\<^sup>* table mid"
    using import_legacy_steps [of "rd_uuid rd1" "\<lambda>_. True" env table "h_env h" "rd_now rd1" "rd_clock rd1"] assms i
    by simp
  then have mid: "reg_inv env mid" by (rule reg.run_inv) (rule assms)
  obtain table' where t: "init_db mid = Inr table'"
    using c by (auto simp: create_app_def Let_def split: sum.splits)
  have "reg_inv env table'"
    by (rule reg.run_inv [OF init_db_step [OF t, of env "\<lambda>_. True"] mid])
  then show ?thesis
    using that [of table'] c t
    by (cases "auth_from_env (h_env h)") (auto simp: create_app_def Let_def legacy_create_app_def
        legacy_app.extend_def split: sum.splits prod.splits)
qed

section \<open>A concrete start\<close>

text \<open>The service started on an empty table in an empty environment, and a local application.\<close>

definition demo_readings :: readings where
  "demo_readings = \<lparr>rd_stamp = ''t'', rd_uuid = ''u'', rd_now = 0, rd_clock = (\<lambda>_. 1)\<rparr>"

definition seed_id :: string where
  "seed_id = ''hourly-sma-crossover''"

definition seed_draft :: skill_row where
  "seed_draft = new_row demo_env seed_id seed_id 0 (seed_request (\<lambda>_. None))"

definition seed_note :: lifecycle_note where
  "seed_note = make_note ''approved'' (Some ''curator-seed'') (Some ''deterministic backtest skill seed'') 1"

definition seed_approve :: "skill_row \<Rightarrow> skill_row" where
  "seed_approve = update_row \<lparr>ch_approval = Some Approved, ch_stage = None, ch_immutable = Some True\<rparr> seed_note 1"

lemma env_defaults: "getenv (\<lambda>_. None) n d = d" "env_bool (\<lambda>_. None) n b = b"
  by (simp_all add: getenv_def env_bool_def)

lemma seed_defaults: "seed_approved (\<lambda>_. None)" "seed_enabled (\<lambda>_. None)"
  "create_request_ok (seed_request (\<lambda>_. None))"
  subgoal by (simp add: seed_approved_def env_defaults text_simps)
  subgoal by (simp add: seed_enabled_def env_defaults)
  subgoal by (simp add: create_request_ok_def seed_request_def env_defaults len_in_def opt_len_in_def default_skill_code_def)
  done

lemma seed_draft_eqs [simp]: "row_id seed_draft = seed_id" "row_family seed_draft = Some seed_id"
  "row_hash seed_draft = default_skill_code" "row_validation seed_draft = Validated" "row_version seed_draft = ''1.0.0''"
  "row_notes seed_draft = []"
  subgoal by (simp add: seed_draft_def)
  subgoal by (simp add: seed_draft_def)
  subgoal by (simp add: seed_draft_def new_row_def Let_def code_hash_def demo_env_def seed_request_def)
  subgoal unfolding seed_draft_def by code_simp
  subgoal by (simp add: seed_draft_def new_row_def Let_def seed_request_def)
  subgoal by (simp add: seed_draft_def new_row_def Let_def)
  done

lemma seed_cr: "cr_id (seed_request (\<lambda>_. None)) = Some seed_id" "cr_family (seed_request (\<lambda>_. None)) = None"
  "cr_code (seed_request (\<lambda>_. None)) = default_skill_code" "cr_parent (seed_request (\<lambda>_. None)) = None"
  by (simp_all add: seed_request_def env_defaults seed_id_def)

lemma seed_one:
  assumes "register demo_env ''u'' 0 (seed_request (\<lambda>_. None)) rows = (Inr (to_detail x), [x])"
    and "row_validation x = Validated"
  shows "seed_skill (\<lambda>_. None) demo_env ''u'' 0 (\<lambda>_. 1) rows = (Inr (to_detail (seed_approve x)), [seed_approve x])"
  using seed_defaults(1) assms unfolding seed_approved_def
  by (simp add: seed_skill_def Let_def seed_defaults approve_eq transition_eq update_where_def no_change_def
      seed_approve_def seed_note_def)

lemma seed_first: "seed_skill (\<lambda>_. None) demo_env ''u'' 0 (\<lambda>_. 1) [] =
    (Inr (to_detail (seed_approve seed_draft)), [seed_approve seed_draft])"
proof (rule seed_one)
  show "register demo_env ''u'' 0 (seed_request (\<lambda>_. None)) [] = (Inr (to_detail seed_draft), [seed_draft])"
    by (simp add: register_def Let_def seed_cr str_or_def find_row_def find_version_def parent_error_def
        get_def str_true_def seed_id_def) (simp add: seed_draft_def seed_id_def find_row_def)
qed simp

lemma seed_again: "seed_skill (\<lambda>_. None) demo_env ''u'' 0 (\<lambda>_. 1) [seed_approve seed_draft] =
    (Inr (to_detail (seed_approve (seed_approve seed_draft))), [seed_approve (seed_approve seed_draft)])"
proof (rule seed_one)
  show "register demo_env ''u'' 0 (seed_request (\<lambda>_. None)) [seed_approve seed_draft] =
      (Inr (to_detail (seed_approve seed_draft)), [seed_approve seed_draft])"
    by (simp add: register_def Let_def seed_cr str_or_def find_row_def code_hash_def seed_approve_def)
      (simp add: seed_id_def demo_env_def)
qed (simp add: seed_approve_def)

lemma seed_approve_id [simp]: "row_id (seed_approve x) = row_id x"
  by (simp add: seed_approve_def)

lemma init_seeded: "init_db [] = Inr []" "init_db [seed_approve seed_draft] = Inr [seed_approve seed_draft]"
  by (simp_all add: init_db_def version_keys_def backfill_row_def seed_approve_def update_row_def seed_id_def
     str_true_def)

lemma start_example:
  "\<exists>a. start_service demo_host demo_env demo_readings demo_readings [] =
      (Inr a, [seed_approve (seed_approve seed_draft)]) \<and> ap_seed a = Some seed_id"
proof -
  have env: "h_env demo_host = (\<lambda>_. None)" by (simp add: demo_host_def)
  have db: "\<exists>d. database_init (\<lambda>_. None) None None None = Inr d"
    by (simp add: database_init_def env_float_def env_defaults text_simps float_simps)
  have ex: "\<exists>x. build_isolated_executor demo_host = Inr x"
    by (simp add: build_isolated_executor_def Let_def env env_defaults text_simps container_init_def no_container_args_def)
  have auth: "\<exists>c. auth_from_env (\<lambda>_. None) = Inr c"
    by (simp add: auth_from_env_def env_key_def is_production_def env_defaults Let_def or_else_def text_simps)
  show ?thesis
    using db ex auth seed_defaults(2) unfolding seed_enabled_def
    by (auto simp: start_service_def import_legacy_def create_app_def legacy_create_app_def seed_if_enabled_def
        demo_readings_def env init_seeded seed_first seed_again legacy_app.extend_def Let_def)
qed

definition demo_app :: app where
  "demo_app = \<lparr>ap_database = demo_database, ap_auth = demo_auth, ap_seed = None, ap_telemetry = False,
     ap_isolated = LocalContainer \<lparr>op_enabled = True, op_fallback = False\<rparr> demo_container,
     ap_seeded = None\<rparr>"

definition demo_world :: world where
  "demo_world = \<lparr>wd_host = demo_host, wd_net = demo_net, wd_parse = env_parse demo_env,
     wd_skill = demo_skill_world, wd_send = (\<lambda>_. HttpDown [])\<rparr>"

section \<open>Properties\<close>

text \<open>C4. The service keeps to the lifecycle. Started on any table its registry can have, and whatever
  requests it then serves, its table is again one its registry can have, reached by registry
  operations that register at no stage but candidate and those the requests ask for. When the
  start succeeds, the access control and the executor are those of the environment, and the seeded
  skill, if seeding is on, is in the table with the built-in code, approved if it is validated and
  the environment does not say otherwise.\<close>

theorem service_sound:
  assumes "(reg_step env allowed)\<^sup>*\<^sup>* [] table" and "allowed Candidate"
    and "rd_uuid rd1 \<noteq> []" "rd_uuid rd2 \<noteq> []"
    and "start_service h env rd1 rd2 table = (Inr a, rows)"
    and "\<And>w rd q. (w, rd, q) \<in> set qs \<Longrightarrow> registers allowed rd q"
  shows "(reg_step env allowed)\<^sup>*\<^sup>* table (fst (serve_all a env qs (rows, n))) \<and>
    auth_from_env (h_env h) = Inr (ap_auth a) \<and> build_isolated_executor h = Inr (ap_isolated a) \<and>
    (case ap_seed a of
       None \<Rightarrow> \<not> seed_enabled (h_env h)
     | Some i \<Rightarrow> seed_enabled (h_env h) \<and> (\<exists>k. get rows i = Inr k \<and>
         sk_hash k = code_hash env default_skill_code \<and>
         (seed_approved (h_env h) \<and> sk_validation k = Validated \<longrightarrow> sk_approval k = Approved)))"
proof -
  have inv: "reg_inv env table" by (rule reg.run_inv [OF assms(1) reg_inv_empty])
  obtain table' where t: "reg_inv env table'" "build_isolated_executor h = Inr (ap_isolated a)"
    "seed_if_enabled (h_env h) env (rd_uuid rd2) (rd_now rd2) (rd_clock rd2) table' = (Inr (ap_seed a), rows)"
    "auth_from_env (h_env h) = Inr (ap_auth a)"
    using start_service_Inr [OF assms(5) inv assms(3,4)] by blast
  have run: "(reg_step env allowed)\<^sup>*\<^sup>* table rows"
    using start_service_steps [of rd1 rd2 allowed env table h] assms by simp
  moreover have "(reg_step env allowed)\<^sup>*\<^sup>* rows (fst (serve_all a env qs (rows, n)))"
    using serve_all_steps [of qs allowed env "(rows, n)" a] assms(6) by simp
  moreover have "case ap_seed a of
       None \<Rightarrow> \<not> seed_enabled (h_env h)
     | Some i \<Rightarrow> seed_enabled (h_env h) \<and> (\<exists>k. get rows i = Inr k \<and>
         sk_hash k = code_hash env default_skill_code \<and>
         (seed_approved (h_env h) \<and> sk_validation k = Validated \<longrightarrow> sk_approval k = Approved))"
    using t(3) seed_skill_Inr [OF _ t(1)]
    by (auto simp: seed_if_enabled_def seed_enabled_def res_map_eq_Inr split: if_splits prod.splits)
  ultimately show ?thesis using t by simp
qed

theorem service_sound_witness:
  "\<exists>a. start_service demo_host demo_env demo_readings demo_readings [] =
      (Inr a, [seed_approve (seed_approve seed_draft)]) \<and>
    (reg_step demo_env (\<lambda>g. g = Candidate))\<^sup>*\<^sup>* []
      (fst (serve_all a demo_env [(demo_world, demo_readings, \<lparr>hc_call = DeprecateSkill seed_id
         \<lparr>lf_reason = None, lf_actor = None\<rparr>, hc_key = None, hc_correlation = None\<rparr>)]
         ([seed_approve (seed_approve seed_draft)], 0)))"
proof -
  obtain a where a: "start_service demo_host demo_env demo_readings demo_readings [] =
      (Inr a, [seed_approve (seed_approve seed_draft)])" using start_example by blast
  have u: "rd_uuid demo_readings \<noteq> []" by (simp add: demo_readings_def)
  show ?thesis
    using service_sound [OF rtranclp.rtrancl_refl _ u u a, of "\<lambda>g. g = Candidate"
        "[(demo_world, demo_readings, \<lparr>hc_call = DeprecateSkill seed_id
         \<lparr>lf_reason = None, lf_actor = None\<rparr>, hc_key = None, hc_correlation = None\<rparr>)]" 0] a u
    by (auto simp: registers_def)
qed

text \<open>C16. Only the admin changes the registry. With access control on, any number of requests, to
  whatever routes and with whatever bodies, none of which carries the admin key, leave the table exactly
  as it was.\<close>

theorem only_admin_changes_registry:
  assumes "auth_from_env e = Inr (ap_auth a)" and "au_required (ap_auth a)"
    and "\<And>w rd q. (w, rd, q) \<in> set qs \<Longrightarrow> hc_key q \<noteq> Some (au_admin (ap_auth a))"
  shows "fst (serve_all a env qs s) = fst s"
  using assms(3)
proof (induction qs arbitrary: s)
  case (Cons x qs)
  obtain w rd q where x: "x = (w, rd, q)" by (cases x)
  have "hc_key q \<noteq> Some (au_admin (ap_auth a))" by (rule Cons.prems [of w rd]) (simp add: x)
  then have "fst (snd (respond a env w rd q s)) = fst s"
    by (rule respond_no_admin [OF assms(1,2)])
  moreover have "fst (serve_all a env qs (snd (respond a env w rd q s))) = fst (snd (respond a env w rd q s))"
    by (rule Cons.IH) (meson Cons.prems list.set_intros(2))
  ultimately show ?case by (simp add: x)
qed simp

theorem only_admin_changes_registry_witness:
  "fst (serve_all demo_app demo_env [(demo_world, demo_readings, \<lparr>hc_call = RollbackSkill ''a''
     \<lparr>lf_reason = None, lf_actor = None\<rparr>, hc_key = Some ''k'', hc_correlation = None\<rparr>)] (demo_approved, 0)) =
   demo_approved"
  using only_admin_changes_registry [of demo_environment demo_app "[(demo_world, demo_readings,
     \<lparr>hc_call = RollbackSkill ''a'' \<lparr>lf_reason = None, lf_actor = None\<rparr>, hc_key = Some ''k'',
      hc_correlation = None\<rparr>)]" demo_env "(demo_approved, 0)"]
  by (simp add: demo_auth_from_env demo_app_def) (simp add: demo_auth_def)

end
