(* ===== verification/Edge_Cases.thy ===== *)
theory Edge_Cases
  imports Worker_Service Service_Spec
begin

text \<open>
  Behaviours of the code at its edges that a reader of the documentation would not expect, each as
  the outcome of a concrete call of the model.
\<close>

section \<open>Lifecycle\<close>

text \<open>Registration takes the deployment stage of the request as it is: two drafts of one family are champions.\<close>

lemma unapproved_champions:
  "map (\<lambda>r. (row_id r, row_family r, row_stage r, row_approval r))
     (snd (register demo_env ''v'' 1 (demo_request ''b'' ''2''\<lparr>cr_stage := Champion\<rparr>)
       (snd (register demo_env ''u'' 0 (demo_request ''a'' ''1''\<lparr>cr_stage := Champion\<rparr>) [])))) =
   [(''a'', Some ''fam'', Champion, Draft), (''b'', Some ''fam'', Champion, Draft)]"
  by code_simp

text \<open>A deprecated skill can be approved again, and the start-up does so with the seeded one.\<close>

definition seed_deprecated :: skill_row where
  "seed_deprecated = update_row \<lparr>ch_approval = Some Deprecated, ch_stage = Some Retired, ch_immutable = Some True\<rparr>
     (make_note ''deprecated'' None None 2) 2 (seed_approve seed_draft)"

lemma deprecated_seed_reapproved:
  "row_approval seed_deprecated = Deprecated \<and>
   seed_skill (\<lambda>_. None) demo_env ''u'' 0 (\<lambda>_. 1) [seed_deprecated] =
     (Inr (to_detail (seed_approve seed_deprecated)), [seed_approve seed_deprecated]) \<and>
   row_approval (seed_approve seed_deprecated) = Approved"
proof -
  have "register demo_env ''u'' 0 (seed_request (\<lambda>_. None)) [seed_deprecated] =
      (Inr (to_detail seed_deprecated), [seed_deprecated])"
    by (simp add: register_def Let_def seed_cr str_or_def find_row_def code_hash_def seed_deprecated_def
        seed_approve_def) (simp add: seed_id_def demo_env_def)
  moreover have "row_validation seed_deprecated = Validated" by (simp add: seed_deprecated_def seed_approve_def)
  ultimately show ?thesis
    using seed_one [of "[seed_deprecated]" seed_deprecated]
    by (simp add: seed_deprecated_def seed_approve_def) (simp add: update_row_def)
qed

text \<open>One start of the service on an empty table approves the seed twice.\<close>

lemma seed_noted_twice:
  "row_notes (seed_approve (seed_approve seed_draft)) = [seed_note, seed_note]"
  by (simp add: seed_approve_def)

text \<open>A conflicting registration escapes its handler as a \<open>ValueError\<close>.\<close>

lemma register_conflict_escapes:
  "register_skill demo_env ''v'' 1 (demo_request ''a'' ''2''\<lparr>cr_code := ''def g(): pass''\<rparr>) demo_registered =
     (Inl (ValueError ''immutable_skill_id_code_hash_mismatch''), demo_registered)"
  by code_simp

section \<open>Access\<close>

lemma api_docs_open:
  "required_role ''GET'' ''/docs'' = None \<and> required_role ''GET'' ''/openapi.json'' = None \<and>
   required_role ''GET'' ''/redoc'' = None"
  by (simp add: required_role_def open_paths_def)

text \<open>Characters outside ASCII in a signature do not count.\<close>

lemma padded_signature_accepted:
  "verify_worker_signature demo_mac ''k'' (CHR 0xE9 # ''s'')
     \<lparr>sf_method = ''GET'', sf_path = ''/ready'', sf_timestamp = ''0'', sf_nonce = ''aaaaaaaaaaaaaaaa'', sf_body = []\<rparr> =
   Inr True"
  using demo_message by (simp add: verify_iff demo_mac_def is_ascii_def)

text \<open>A time stamp with a no-break space is a number, but not one that can be signed.\<close>

lemma padded_stamp_crashes:
  "\<exists>e. authenticate demo_mac worker_key default_limits 0 (Fin 0) (stamped (CHR 0xA0 # ''0'')) g = (Crash e, g)"
proof -
  let ?r = "stamped (CHR 0xA0 # ''0'')"
  have p: "parse_int (CHR 0xA0 # ''0'') = Some 0" by code_simp
  have "size_check default_limits ?r = None" "header_check default_limits 0 ?r = None"
    by (simp_all add: size_check_None header_check_None p stamped_def demo_worker_request_def
        default_limits_def demo_nonce_ok str_true_def str_or_def)
  moreover have "\<exists>e. verify_worker_signature demo_mac worker_key (str_or (wr_signature ?r) []) (request_fields ?r) = Inl e"
    by (simp add: stamped_def demo_worker_request_def request_fields_def verify_worker_signature_def
        build_worker_signature_def signature_message_def ascii_encode_def is_ascii_def worker_key_def
        str_or_def text_simps)
  moreover have "wr_path ?r \<noteq> ''/health''" by (simp add: stamped_def demo_worker_request_def)
  ultimately show ?thesis by (auto simp: authenticate_def)
qed

text \<open>A worker that answers a list is not rejected: the executor raises.\<close>

lemma list_answer_raises:
  "remote_execute demo_remote (demo_net\<lparr>nt_send := \<lambda>_. HttpOk 200 ''[]''\<rparr>) demo_exec = Inl no_get"
proof -
  have "json_loads ''[]'' = Inr (JArr [])" by code_simp
  then have "remote_request demo_remote (demo_net\<lparr>nt_send := \<lambda>_. HttpOk 200 ''[]''\<rparr>) ''POST'' ''/v1/execute'' p t =
      Inr (200, JArr [])" for p t
    by (simp add: remote_request_def signed_request_def build_worker_signature_def signature_message_def
      remote_fields_def demo_net_def demo_remote_def ascii_encode_def is_ascii_def text_simps
      read_response_def loads_or_empty_def)
  then show ?thesis by (simp add: remote_execute_def)
qed

section \<open>Values\<close>

lemma nan_confidence_accepted:
  "check_confidence [(''confidence'', JFloat NaN)] = Inr [(''confidence'', JFloat NaN)]"
  by (simp add: check_confidence_def dict_simps dset_def)

lemma nan_within_bounds:
  "validate_schema_contract (JFloat NaN)
     (JObj [(''type'', JStr ''number''), (''minimum'', JInt 0), (''maximum'', JInt 1)]) p = []"
  by code_simp

lemma true_in_enum_of_one:
  "validate_schema_contract (JBool True) (JObj [(''enum'', JArr [JInt 1])]) p = []"
  by code_simp

text \<open>The two executors forbid different keys: this output is a result of the container only.\<close>

lemma private_key_from_container:
  "validate_output (PDict [(PStr ''private_key'', PStr ''x'')]) = Inr (JObj [(''private_key'', JStr ''x'')]) \<and>
   validate_signal_output (PDict [(PStr ''private_key'', PStr ''x'')]) =
     Inl (SkillExecutionError ''forbidden_output_keys: private_key'')"
  by code_simp

end
