(* ===== verification/Spec2Isabelle.thy ===== *)
theory Spec2Isabelle
  imports Registry_Refine Py_Json_Round Edge_Cases
begin

text \<open>
  A model of Curator Agent, the service that keeps, reviews, executes and ranks trading analysis
  skills: small Python functions that other agents submit and that may only give advice.

  \<^bold>\<open>The program.\<close> A client registers a skill; \<open>app/validator.py\<close> checks its syntax tree and
  \<open>app/registry.py\<close> stores it in a SQLite table with its family, version, parent, hash, schemas and
  lifecycle notes. An admin approves, deprecates, versions, promotes and rolls back skills
  (\<open>app/main_legacy.py\<close>, \<open>app/version_api.py\<close>), possibly gated by a backtest the database agent
  reports (\<open>app/database_client.py\<close>). An execution passes through a chain of executors:
  \<open>app/performance_aware_executor.py\<close> attaches advice from the skill's history,
  \<open>app/schema_enforcing_executor.py\<close> checks input and output against the skill's schemas
  (\<open>app/schema_contracts.py\<close>), and the isolated executor runs the code: a container
  (\<open>app/container_sandbox.py\<close> with \<open>sandbox/runner.py\<close> inside), or a remote worker
  (\<open>app/remote_sandbox.py\<close> talking to \<open>app/sandbox_worker.py\<close> by the signed protocol of
  \<open>app/worker_protocol.py\<close>), or, where this is allowed, a restricted process (\<open>app/executor.py\<close>).
  Recommendations, the shadow ensemble and the performance policy are advisory computations over
  the registry and the history. \<open>app/security.py\<close> stands before every route, and \<open>app/main.py\<close>
  puts the application together.

  \<^bold>\<open>The theories\<close>, each importing those it calls.

  \<^item> \<open>Curator_Prelude\<close>: results (\<open>exn + 'a\<close>, the exceptions of the source as a datatype), dictionaries in
    insertion order, the locale of machines with an invariant, fact collections.
  \<^item> \<open>Py_Float\<close>: binary64 as rationals with infinities and NaN, the rounding of every operation,
    the locale \<open>rounding\<close>. \<open>Py_Text\<close>: strip, lower, split, UTF-8, the texts of integers and floats.
    \<open>Py_Json\<close>, \<open>Py_Json_Text\<close>, \<open>Py_Json_Round\<close>: JSON values, \<open>json.dumps\<close> and \<open>json.loads\<close> on text,
    that the reader always ends and that it reads back what was written.
  \<^item> \<open>Validator\<close>, \<open>Schema_Contracts\<close>: the two checkers, each with the declarative contract it decides.
  \<^item> \<open>Registry\<close>: rows, requests and every method of \<open>SkillRegistry\<close> as a function on the list of rows.
    \<open>Registry_Inv\<close>: its step relation, invariant and growth order. \<open>Registry_Spec\<close>: what
    holds of every history. \<open>Registry_Refine\<close>: an abstract lifecycle of skills and the refinement.
  \<^item> \<open>Executor\<close>, \<open>Sandbox_Runner\<close>, \<open>Container_Sandbox\<close>: the process, the program in the container and
    the executors around it. \<open>Worker_Protocol\<close>, \<open>Sandbox_Worker\<close>, \<open>Remote_Sandbox\<close>,
    \<open>Worker_Service\<close>: both ends of the worker protocol, the replay guard behind the locale
    \<open>replay_guard\<close>, the semaphore as a step relation, the start-up of the worker.
  \<^item> \<open>Database_Client\<close>, \<open>Performance_Intelligence\<close>, \<open>Skill_Executors\<close>: history, its assessment and the
    decorators, which are clients of the locales of executors.
  \<^item> \<open>Recommendations\<close>, \<open>Shadow_Ensemble\<close>, \<open>Performance_Policy\<close>: the advisory computations.
  \<^item> \<open>Security\<close>, \<open>Version_Api\<close>, \<open>Curator_App\<close>, \<open>Curator_Http\<close>: access control, the handlers, the seed
    (\<open>app/seed_skills.py\<close>), the start-up, readiness (\<open>app/readiness.py\<close>) and the response envelopes
    (\<open>app/system_contract.py\<close>). \<open>Service\<close>: every route behind the middleware and runs of requests;
    \<open>Service_Spec\<close>: what the running service guarantees.
  \<^item> \<open>Edge_Cases\<close>: concrete calls whose outcome the documentation does not announce.
  \<^item> This theory: the properties that need several components at once.

  \<^bold>\<open>What the theorems show.\<close> End to end: a successful execution is one of approved, statically
  safe, stored code, with input and output that conform to its schemas, whichever executor ran it
  (\<open>execution_end_to_end\<close>, \<open>only_approved_code_runs\<close>). The registry: its operations refine the abstract
  lifecycle, histories are append-only, champions are unique as long as nobody registers one, refusals
  are exactly the documented ones, and the running service has no other histories than these
  (\<open>service_sound\<close>) and no changes but the admin's (\<open>only_admin_changes_registry\<close>). The sandbox: what a
  success means at each level, that a missing sandbox fails closed, what the worker passes on, that
  a captured request is dead. The checkers decide their contracts. The advice is ranked, bounded and
  does not act by itself. Texts from outside are always read to an end, and requests survive the wire.

  \<^bold>\<open>Parameters.\<close> Code outside the repository is an argument of the definitions that use it:
  \<open>ast.parse\<close> (a function from text to a tree or a \<open>SyntaxError\<close>), SHA-256 and HMAC (functions on text),
  \<open>uuid4\<close>, nonces and the clock (values, with every reading of one call separate), the environment
  variables (a map), docker, the file system and the HTTP exchanges (functions to their possible outcomes),
  and what running a skill's code does (a function to a value, an exception or a timeout).
  No theorem assumes anything of them that its statement does not show.

  \<^bold>\<open>Bounds and conventions.\<close> Text is a list of the 256 characters of \<open>char\<close>, so the code points above 255 are
  not represented; bytes are such lists too. Integers are unbounded, as in Python. The reader of JSON has
  fuel \<open>2 * length + 2\<close>, which is proved to be enough for every text; nothing else needs fuel. A method that
  raises leaves the table as SQLite's transaction does. The handlers are coroutines that never wait while
  they use the registry, so a run of requests is a sequence. An \<open>HTTPException\<close> keeps its status code and
  the error text of its detail. A body that a pydantic model refuses is answered before
  the handler; inside the code such a refusal is a \<open>ValueError\<close> \<open>''validation_error''\<close>.

  \<^bold>\<open>Not modelled\<close>: the SQL of table creation, the
  routing by path, the parsing of bodies and headers and the serialisation of responses by FastAPI and
  pydantic, the restricted builtins of the process executor and its child process (the run of the code is a
  parameter), logging and the metrics counters beyond the fallback counter, and the tests, images,
  compose files and workflows, which hold no logic of the service.
\<close>

section \<open>The executor of the application\<close>

text \<open>The isolated executor the start-up chooses is an executor in the sense of the contracts.\<close>

interpretation iso: raw_executor "isolated_exec ex w" for ex w
proof
  fix q s d t
  assume "isolated_exec ex w q s = (Inr d, t)"
  then show "wf_dict d"
    by (cases ex) (auto simp: isolated_exec_def dest: local.wf_result remote.wf_result)
qed

lemma app_exec_success:
  assumes "app_exec a rows w q s = (Inr d, t)" "succeeded d"
  shows "\<exists>k e. get rows (rq_skill q) = Inr k \<and> isolated_exec (ap_isolated a) w q s = (Inr e, t) \<and>
    succeeded e \<and> conforms (JObj (rq_inputs q)) (JObj (sk_input_schema k)) \<and>
    conforms (jget e ''output'') (JObj (sk_output_schema k)) \<and>
    jget d ''output'' = JObj (obj_or_empty (jget e ''output'')) \<and> advised d"
proof -
  have adv: "advised d"
    using iso.schema.advice.success_advised [OF assms(1) [unfolded app_exec_def] assms(2)] by simp
  obtain f where f: "schema_execute rows (isolated_exec (ap_isolated a) w) q s = (Inr f, t)"
    "attach_performance (rank_skills (ap_database a) (wd_send w) rank_all) (rq_skill q) f = Inr d"
    using assms(1) by (auto simp: app_exec_def performance_execute_def split: prod.splits sum.splits)
  have sf: "succeeded f" using attach_performance_success(1) [OF f(2)] assms(2) by simp
  obtain k e where k: "get rows (rq_skill q) = Inr k"
    "conforms (JObj (rq_inputs q)) (JObj (sk_input_schema k))"
    "isolated_exec (ap_isolated a) w q s = (Inr e, t)" "succeeded e" "f = check_output k e"
    using schema_execute_Inr [OF f(1) sf] by blast
  have "conforms (jget e ''output'') (JObj (sk_output_schema k))" "jget f ''output'' = jget e ''output''"
    using sf k(5) check_output_success check_output_output by auto
  then show ?thesis
    using adv k attach_performance_success(2) [OF f(2) assms(2)] by auto
qed

lemma approved_safe:
  assumes "reg_inv env rows" "get rows i = Inr k" "sk_approval k = Approved"
  shows "statically_safe (env_parse env) (sk_code k)"
proof -
  from assms(2) obtain r where r: "find_row rows i = Some r" "k = to_detail r" by (auto simp: get_Inr)
  with assms(1) have "row_ok env r" by (auto simp: reg_inv_def dest: find_row_Some)
  with assms(3) r(2) show ?thesis by (auto simp: row_ok_def vr_approved_iff)
qed

section \<open>A concrete application\<close>

text \<open>Executions of the local application, which has no database, on the concrete registry.\<close>

definition demo_execute :: execute_request where
  "demo_execute = \<lparr>ex_inputs = [], ex_function = None, ex_timeout = Fin 1, ex_account = JInt 1,
     ex_symbol = None, ex_bucket = None, ex_regime = None, ex_run = None, ex_metadata = []\<rparr>"

lemma demo_skill_request: "skill_exec_request (to_detail (hd demo_approved)) demo_execute = demo_exec"
  by (simp add: skill_exec_request_def demo_approved_eq demo_execute_def demo_exec_def)

lemma demo_local: "isolated_exec (ap_isolated demo_app) demo_world demo_exec 0 = (Inr demo_result, 0)"
  by (simp add: isolated_exec_def demo_app_def local_exec_def demo_world_def optional_execute_def
      demo_container_execute) (simp add: demo_result_def hashable_def container_down_def dict_simps)

lemma demo_schema:
  "\<exists>e. schema_execute demo_approved (isolated_exec (ap_isolated demo_app) demo_world) demo_exec 0 =
     (Inr e, 0) \<and> succeeded e \<and> jget e ''output'' = JObj []"
proof -
  have "succeeded demo_result" "jget demo_result ''output'' = JObj []"
    by (simp_all add: demo_result_def succeeded_def dict_simps)
  moreover have v: "validate_schema_contract (JObj []) (JObj []) p = []" for p
    by (simp add: validate_Nil_iff)
  moreover have "rq_skill demo_exec = ''a''" "rq_inputs demo_exec = []" by (simp_all add: demo_exec_def)
  moreover have "sk_input_schema (to_detail (hd demo_approved)) = []"
      "sk_output_schema (to_detail (hd demo_approved)) = []"
    by (simp_all add: demo_approved_eq demo_row_def)
  ultimately show ?thesis
    by (simp add: schema_execute_def demo_get demo_local check_output_def succeeded_def)
qed

lemma demo_no_history:
  assumes "succeeded e" "jget e ''output'' = JObj []"
  shows "\<exists>d. attach_performance (rank_skills demo_database send r) i e = Inr d"
proof -
  have h: "extract_skill_performance (rank_skills demo_database send r) i = []"
    by (simp add: extract_skill_performance_def rank_skills_def db_request_def db_enabled_def
        demo_database_def dict_simps)
  have n: "first_number [] ks = Inr None" for ks by (induction ks) simp_all
  show ?thesis
    using assms by (simp add: attach_performance_def h n Let_def calibrate_confidence_def
        assess_performance_decay_def sample_size_def normalize_rate_def)
qed

lemma demo_app_exec: "\<exists>d. app_exec demo_app demo_approved demo_world demo_exec 0 = (Inr d, 0) \<and> succeeded d"
proof -
  obtain e where e: "schema_execute demo_approved (isolated_exec (ap_isolated demo_app) demo_world) demo_exec 0 =
     (Inr e, 0)" "succeeded e" "jget e ''output'' = JObj []"
    using demo_schema by blast
  obtain d where d: "attach_performance (rank_skills demo_database (wd_send demo_world) rank_all)
      (rq_skill demo_exec) e = Inr d"
    using demo_no_history [OF e(2,3)] by blast
  have "ap_database demo_app = demo_database" by (simp add: demo_app_def)
  with d e attach_performance_success(1) [OF d] show ?thesis
    by (simp add: app_exec_def performance_execute_def)
qed

lemma demo_record: "\<exists>d. record_execution demo_database send False k q e = Inr d"
  by (simp add: record_execution_def create_skill_execution_log_def db_request_def db_enabled_def
      demo_database_def)

lemma demo_execution:
  "\<exists>d. execute_skill demo_approved (app_exec demo_app demo_approved demo_world) (ap_database demo_app)
     (wd_send demo_world) (ap_telemetry demo_app) ''a'' demo_execute 0 = (Inr d, 0) \<and> succeeded d"
proof -
  let ?k = "to_detail (hd demo_approved)"
  obtain f where f: "app_exec demo_app demo_approved demo_world (skill_exec_request ?k demo_execute) 0 = (Inr f, 0)"
    "succeeded f"
    unfolding demo_skill_request using demo_app_exec by blast
  obtain d where d: "record_execution (ap_database demo_app) (wd_send demo_world) (ap_telemetry demo_app)
      ?k demo_execute f = Inr d"
    using demo_record [of "wd_send demo_world" ?k demo_execute f] by (auto simp: demo_app_def)
  have "sk_validation ?k = Validated" "sk_approval ?k = Approved" by (simp_all add: demo_approved_eq)
  with f d record_execution_Inr [OF d] show ?thesis by (simp add: execute_skill_def demo_get)
qed

section \<open>Properties\<close>



text \<open>C1. What a successful execution means, through every layer of the service: the skill is
  registered, validated and approved, its stored code passes the static rules and is what the isolated
  executor ran; the inputs conform to its input schema and the output to its output schema; the caller
  gets that output, with advice that cannot move the skill to another stage.\<close>

theorem execution_end_to_end:
  assumes "(reg_step env (\<lambda>_. True))\<^sup>*\<^sup>* [] rows"
    and "execute_skill rows (app_exec a rows w) (ap_database a) (wd_send w) (ap_telemetry a) i q s = (Inr d, t)"
    and "succeeded d"
  shows "\<exists>k e. get rows i = Inr k \<and> sk_validation k = Validated \<and> sk_approval k = Approved \<and>
    statically_safe (env_parse env) (sk_code k) \<and>
    isolated_exec (ap_isolated a) w (skill_exec_request k q) s = (Inr e, t) \<and> succeeded e \<and>
    conforms (JObj (ex_inputs q)) (JObj (sk_input_schema k)) \<and>
    conforms (jget e ''output'') (JObj (sk_output_schema k)) \<and>
    jget d ''output'' = JObj (obj_or_empty (jget e ''output'')) \<and> advised d"
proof -
  obtain k f where k: "get rows i = Inr k" "sk_validation k = Validated" "sk_approval k = Approved"
    and f: "app_exec a rows w (skill_exec_request k q) s = (Inr f, t)"
    and r: "record_execution (ap_database a) (wd_send w) (ap_telemetry a) k q f = Inr d"
    using execute_skill_Inr [OF assms(2)] by blast
  note same = record_execution_Inr [OF r]
  have rq: "rq_skill (skill_exec_request k q) = i" "rq_inputs (skill_exec_request k q) = ex_inputs q"
    using get_sk_id [OF k(1)] by (simp_all add: skill_exec_request_def)
  have "succeeded f" using same assms(3) by simp
  from app_exec_success [OF f this, unfolded rq] k(1) obtain e where e:
    "isolated_exec (ap_isolated a) w (skill_exec_request k q) s = (Inr e, t)" "succeeded e"
    "conforms (JObj (ex_inputs q)) (JObj (sk_input_schema k))"
    "conforms (jget e ''output'') (JObj (sk_output_schema k))"
    "jget f ''output'' = JObj (obj_or_empty (jget e ''output''))" "advised f" by auto
  moreover have "advised d" using e(6) same by (simp add: advised_def)
  moreover have "statically_safe (env_parse env) (sk_code k)"
    using approved_safe [OF reg.run_inv [OF assms(1) reg_inv_empty] k(1,3)] .
  ultimately show ?thesis using k same by auto
qed

theorem execution_end_to_end_witness:
  "\<exists>d. execute_skill demo_approved (app_exec demo_app demo_approved demo_world) (ap_database demo_app)
     (wd_send demo_world) (ap_telemetry demo_app) ''a'' demo_execute 0 = (Inr d, 0) \<and> advised d"
proof -
  obtain d where d: "execute_skill demo_approved (app_exec demo_app demo_approved demo_world)
      (ap_database demo_app) (wd_send demo_world) (ap_telemetry demo_app) ''a'' demo_execute 0 = (Inr d, 0)"
    "succeeded d"
    using demo_execution by blast
  with execution_end_to_end [OF demo_run_approved [of "\<lambda>_. True"] d] show ?thesis by blast
qed

text \<open>C2. Nothing but approved code runs: executing a skill and executing an ensemble depend on the
  executor only through its answers to requests for approved, validated skills with their stored code,
  and that code passes the static rules; what the executor would do with any other code has no
  influence on either.\<close>

theorem only_approved_code_runs:
  assumes "(reg_step env (\<lambda>_. True))\<^sup>*\<^sup>* [] rows"
    and "\<And>r s. approved_request rows r \<Longrightarrow> statically_safe (env_parse env) (rq_code r) \<Longrightarrow>
      exec1 r s = exec2 r s"
  shows "execute_skill rows exec1 db send required i q s = execute_skill rows exec2 db send required i q s \<and>
    execute_shadow_ensemble rows exec1 p s = execute_shadow_ensemble rows exec2 p s"
proof
  have inv: "reg_inv env rows" by (rule reg.run_inv [OF assms(1) reg_inv_empty])
  have same: "exec1 r s = exec2 r s"
    if "get rows j = Inr k" "sk_validation k = Validated" "sk_approval k = Approved"
      "rq_skill r = j" "rq_code r = sk_code k" for r s j k
    using assms(2) [of r s] that approved_safe [OF inv that(1,3)] by (auto simp: approved_request_def)
  show "execute_skill rows exec1 db send required i q s = execute_skill rows exec2 db send required i q s"
  proof (cases "get rows i")
    case (Inr k)
    have "exec1 (skill_exec_request k q) s = exec2 (skill_exec_request k q) s"
      if "sk_validation k = Validated" "sk_approval k = Approved"
      using same [OF Inr that] get_sk_id [OF Inr] by (simp add: skill_exec_request_def)
    then show ?thesis by (simp add: execute_skill_def Inr)
  qed (simp add: execute_skill_def)
  have run: "run_skills rows exec1 p ks s = run_skills rows exec2 p ks s"
    if "\<forall>k \<in> set ks. \<exists>r \<in> set rows. k = to_record r \<and> row_validation r = Validated \<and> row_approval r = Approved"
    for ks s
    using that
  proof (induction ks arbitrary: s)
    case (Cons k ks)
    then obtain r where r: "r \<in> set rows" "k = to_record r" "row_validation r = Validated"
      "row_approval r = Approved" by auto
    have g: "get rows (sk_id k) = Inr (to_detail r)"
      using get_row r inv by (simp add: reg_inv_def)
    have "exec1 (ensemble_exec_request p (to_detail r)) s = exec2 (ensemble_exec_request p (to_detail r)) s"
      using same [OF g] r by (simp add: ensemble_exec_request_def)
    then show ?case using Cons by (simp add: g split: sum.splits prod.splits)
  qed simp
  have "\<forall>k \<in> set (select_skills rows p). \<exists>r \<in> set rows. k = to_record r \<and> row_validation r = Validated \<and>
      row_approval r = Approved"
    using select_skills_approved by blast
  from run [OF this]
  show "execute_shadow_ensemble rows exec1 p s = execute_shadow_ensemble rows exec2 p s"
    by (simp add: execute_shadow_ensemble_def Let_def)
qed

theorem only_approved_code_runs_witness:
  "execute_skill demo_approved (\<lambda>r s. (if rq_skill r = ''a'' then Inr [] else Inl (KeyError ''x''), s))
      demo_database (\<lambda>_. HttpDown []) False ''b'' demo_execute (0::nat) =
   execute_skill demo_approved (\<lambda>r s. (Inr [], s)) demo_database (\<lambda>_. HttpDown []) False ''b'' demo_execute 0"
proof -
  have only: "rq_skill r = ''a''" if ap: "approved_request demo_approved r" for r
  proof -
    obtain k where "get demo_approved (rq_skill r) = Inr k"
      using ap unfolding approved_request_def by blast
    then obtain s where "find_row demo_approved (rq_skill r) = Some s" unfolding get_Inr by blast
    from find_row_Some [OF this] show ?thesis by (auto simp: demo_approved_eq)
  qed
  show ?thesis
    by (rule conjunct1 [OF only_approved_code_runs [OF demo_run_approved [of "\<lambda>_. True"]]])
      (simp_all add: only)
qed

text \<open>C32. What becomes of an execution once the skill is approved and the executor has answered, if the
  database client returns an object: the caller gets the executor's answer, unchanged but for the
  telemetry report; only where telemetry is required and was not recorded is the answer withheld, with
  a 503; and a skill that is not validated or not approved is refused and the executor leaves no trace.\<close>

theorem execution_outcome:
  assumes "is_obj (create_skill_execution_log db send (telemetry_payload k q e) (correlation_id q))"
    and "exec (skill_exec_request k q) s = (Inr e, t)" and "get rows i = Inr k"
  shows "if sk_validation k \<noteq> Validated then execute_skill rows exec db send required i q s =
        (Inl (HTTPException 400 ''only_validated_skills_can_execute''), s)
    else if sk_approval k \<noteq> Approved then execute_skill rows exec db send required i q s =
        (Inl (HTTPException 400 ''only_approved_skills_can_execute''), s)
    else if required \<and> jget (obj_or_empty (create_skill_execution_log db send (telemetry_payload k q e)
        (correlation_id q))) ''status'' \<noteq> JStr ''success''
    then execute_skill rows exec db send required i q s =
        (Inl (HTTPException 503 ''database_telemetry_required_but_failed''), t)
    else (\<exists>d. execute_skill rows exec db send required i q s = (Inr d, t) \<and>
        jget d ''database_telemetry'' \<noteq> JNull \<and>
        (\<forall>key. key \<noteq> ''database_telemetry'' \<longrightarrow> jget d key = jget e key))"
proof -
  obtain x where x: "create_skill_execution_log db send (telemetry_payload k q e) (correlation_id q) = JObj x"
    using assms(1) by (auto simp: is_obj_iff)
  show ?thesis
    using assms(2,3) by (simp add: execute_skill_def record_execution_def x telemetry_report_def)
qed

theorem execution_outcome_witness:
  "\<exists>d. execute_skill demo_approved (\<lambda>r s. (Inr [], s)) demo_database (\<lambda>_. HttpDown []) False ''a''
     demo_execute (0::nat) = (Inr d, 0) \<and> jget d ''database_telemetry'' \<noteq> JNull"
proof -
  have o: "is_obj (create_skill_execution_log demo_database (\<lambda>_. HttpDown [])
      (telemetry_payload (to_detail (hd demo_approved)) demo_execute []) (correlation_id demo_execute))"
    by (simp add: create_skill_execution_log_def db_request_def db_enabled_def demo_database_def)
  have "sk_validation (to_detail (hd demo_approved)) = Validated"
    "sk_approval (to_detail (hd demo_approved)) = Approved" by (simp_all add: demo_approved_eq)
  with execution_outcome [where exec = "\<lambda>r s. (Inr [], s)" and s = "0::nat" and required = False,
      OF o refl demo_get(1)]
  show ?thesis by auto
qed

text \<open>C33. The approval gated by a backtest: the registry changes only if the skill is known, the
  database's answer was read, and the backtest passed or the caller waived it, either altogether or
  for a missing database; the skill is then approved and immutable, and everything else is as it was;
  a refusal of any kind leaves the registry as it is.\<close>

theorem backtest_gate:
  assumes "approve_from_backtest db send i q clk rows = (r, rows')"
  shows "case r of
      Inl e \<Rightarrow> rows' = rows
    | Inr (k, s) \<Rightarrow> skill_backtest_status db send i rows = Inr s \<and>
        (bs_passed s \<or> aq_require q = False \<or> aq_allow_missing q \<and> bs_database s = ''skipped'') \<and>
        sk_validation k = Validated \<and> sk_approval k = Approved \<and> sk_immutable k \<and> get rows' i = Inr k \<and>
        (\<forall>j. j \<noteq> i \<longrightarrow> find_row rows' j = find_row rows j)"
proof (cases r)
  case (Inl e)
  then show ?thesis using assms
    by (auto simp: approve_from_backtest_def approve_eq transition_eq
        split: sum.splits if_splits option.splits prod.splits exn.splits)
next
  case (Inr ks)
  obtain k s where ks: "ks = (k, s)" by (cases ks)
  have s: "skill_backtest_status db send i rows = Inr s" "backtest_allows q s"
    and a: "\<exists>reason. approve i (lf_actor q) reason clk rows = (Inr k, rows')"
    using assms Inr ks by (auto simp: approve_from_backtest_def res_map_eq_Inr
        split: sum.splits if_splits prod.splits exn.splits)
  obtain reason where ap: "approve i (lf_actor q) reason clk rows = (Inr k, rows')" using a by blast
  obtain x where x: "find_row rows i = Some x" "row_validation x = Validated"
    using ap unfolding approve_eq by (auto split: option.splits if_splits)
  have id: "row_id x = i" using find_row_Some [OF x(1)] by simp
  let ?c = "no_change\<lparr>ch_approval := Some Approved, ch_immutable := Some True\<rparr>"
  have rows': "rows' = update_where i (update_row ?c (make_note ''approved'' (lf_actor q) reason (clk 0)) (clk 1)) rows"
    and k: "k = to_detail (update_row ?c (make_note ''approved'' (lf_actor q) reason (clk 0)) (clk 1) x)"
    using ap x unfolding approve_eq by (auto simp: transition_eq)
  have "get rows' i = Inr k" using x id by (simp add: rows' k get_Inr find_row_update_where)
  moreover have "find_row rows' j = find_row rows j" if "j \<noteq> i" for j
    using that find_row_Some [of rows j]
    by (cases "find_row rows j") (auto simp: rows' find_row_update_where)
  ultimately show ?thesis using s approve_Inr [OF ap] Inr ks by (auto simp: backtest_allows_def)
qed

definition demo_approval :: approval_request where
  "demo_approval = \<lparr>lf_reason = None, lf_actor = None, aq_require = True, aq_allow_missing = True\<rparr>"

theorem backtest_gate_witness:
  "\<exists>k s rows'. approve_from_backtest demo_database (\<lambda>_. HttpDown []) ''a'' demo_approval (\<lambda>_. 1) demo_registered =
     (Inr (k, s), rows') \<and> bs_database s = ''skipped'' \<and> get rows' ''a'' = Inr k \<and> sk_approval k = Approved"
proof -
  have none: "obj_or_empty JNull = []" by (simp add: obj_or_empty_def)
  obtain s where s: "skill_backtest_status demo_database (\<lambda>_. HttpDown []) ''a'' demo_registered = Inr s"
    "bs_database s = ''skipped''"
    by (simp add: skill_backtest_status_def get_skill_def demo_registered_eq get_def find_row_def
        get_skill_backtest_status_def db_request_def db_enabled_def demo_database_def none
        backtest_status_from_def opt_str_field_def opt_float_field_def py_int_def str_list_field_def
        py_or_def dict_simps Let_def)
  have "backtest_allows demo_approval s" using s(2) by (simp add: backtest_allows_def demo_approval_def)
  then have "\<exists>k s rows'. approve_from_backtest demo_database (\<lambda>_. HttpDown []) ''a'' demo_approval
      (\<lambda>_. 1) demo_registered = (Inr (k, s), rows') \<and> bs_database s = ''skipped''"
    using s by (simp add: approve_from_backtest_def approve_eq transition_eq demo_registered_eq find_row_def)
  then obtain k s rows' where r: "approve_from_backtest demo_database (\<lambda>_. HttpDown []) ''a'' demo_approval
      (\<lambda>_. 1) demo_registered = (Inr (k, s), rows')" "bs_database s = ''skipped''" by blast
  with backtest_gate [OF r(1)] show ?thesis by auto
qed




end
